(* ===== verification/Prelude.thy ===== *)
theory Prelude
  imports Complex_Main "HOL-Library.AList" "HOL-Library.Multiset" "HOL-Library.Word" "HOL-Library.Char_ord" "HOL-Library.List_Lexorder"
begin

text \<open>
  Shared ground of the development: the names of the model's base types, Go's byte strings and the
  few string routines the sources use, results that are errors or values, sorting by a comparison,
  keyed tables, the shape in which the rows of ferund's PostgreSQL tables are kept, loops of batches, and invariants of
  transition systems.

  \<^item> A Go \<open>string\<close> is a list of bytes, here a \<^typ>\<open>string\<close>.
  \<^item> A \<open>uuid.UUID\<close> is 128 bits; \<open>uuid.Nil\<close> is \<open>0\<close>.
  \<^item> A \<open>time.Time\<close> counts nanoseconds from Go's zero time, so \<open>IsZero\<close> is \<open>= 0\<close>; a
    \<open>time.Duration\<close> counts nanoseconds.
\<close>

named_theorems table_simps \<open>lookups after writes of a table\<close>
named_theorems row_simps \<open>what an operation leaves of a row\<close>
named_theorems inv_intros \<open>an operation keeps the registry's invariant\<close>

type_synonym uuid = "128 word"
type_synonym gotime = int
type_synonym duration = int
type_synonym byte = "8 word"

abbreviation uuid_nil :: uuid where "uuid_nil \<equiv> 0"
abbreviation second :: duration where "second \<equiv> 1000000000"
abbreviation millisecond :: duration where "millisecond \<equiv> 1000000"

section \<open>Results\<close>

text \<open>A Go function that returns \<open>(T, error)\<close> gives \<open>Inl\<close> the error or \<open>Inr\<close> the value; \<open>bindE\<close> is
  the \<open>if err != nil { return err }\<close> between two calls.\<close>

definition bindE :: "'e + 'a \<Rightarrow> ('a \<Rightarrow> 'e + 'b) \<Rightarrow> 'e + 'b" where
  "bindE m f = (case m of Inl e \<Rightarrow> Inl e | Inr x \<Rightarrow> f x)"

lemma bindE_simps [simp]:
  "bindE (Inl e) f = Inl e"
  "bindE (Inr x) f = f x"
  by (simp_all add: bindE_def)

lemma bindE_Inr_iff: "bindE m f = Inr y \<longleftrightarrow> (\<exists>x. m = Inr x \<and> f x = Inr y)"
  by (cases m) auto

lemma bindE_InrE [elim]:
  assumes "bindE m f = Inr y"
  obtains x where "m = Inr x" "f x = Inr y"
  using assms by (cases m) auto

section \<open>Strings\<close>

fun dec_digits :: "nat \<Rightarrow> string" where
  "dec_digits n = (if n < 10 then [char_of (48 + n)] else dec_digits (n div 10) @ [char_of (48 + n mod 10)])"

declare dec_digits.simps [simp del]

text \<open>\<open>%d\<close> of an integer.\<close>

definition dec :: "int \<Rightarrow> string" where
  "dec i = (if i < 0 then CHR ''-'' # dec_digits (nat (- i)) else dec_digits (nat i))"

text \<open>\<open>strings.Join\<close>.\<close>

fun join :: "string \<Rightarrow> string list \<Rightarrow> string" where
  "join sep [] = []"
| "join sep [s] = s"
| "join sep (s # ss) = s @ sep @ join sep ss"

text \<open>\<open>strings.HasPrefix\<close>, \<open>strings.TrimPrefix\<close> and \<open>strings.TrimSuffix\<close> of one byte, \<open>strings.Contains\<close>.\<close>

definition has_prefix :: "string \<Rightarrow> string \<Rightarrow> bool" where
  "has_prefix s p = (take (length p) s = p)"

fun contains :: "string \<Rightarrow> string \<Rightarrow> bool" where
  "contains [] p = (p = [])"
| "contains (c # s) p = (has_prefix (c # s) p \<or> contains s p)"

section \<open>Sorting by a comparison\<close>

text \<open>\<open>slices.SortFunc\<close> and \<open>ORDER BY\<close>: insertion sort. Where the comparison is a strict total
  order on the elements, every correct sort gives this list.\<close>

fun insert_by :: "('a \<Rightarrow> 'a \<Rightarrow> bool) \<Rightarrow> 'a \<Rightarrow> 'a list \<Rightarrow> 'a list" where
  "insert_by lt x [] = [x]"
| "insert_by lt x (y # ys) = (if lt y x then y # insert_by lt x ys else x # y # ys)"

fun sort_by :: "('a \<Rightarrow> 'a \<Rightarrow> bool) \<Rightarrow> 'a list \<Rightarrow> 'a list" where
  "sort_by lt [] = []"
| "sort_by lt (x # xs) = insert_by lt x (sort_by lt xs)"

lemma set_insert_by [simp]: "set (insert_by lt x xs) = insert x (set xs)"
  by (induction xs) auto

lemma set_sort_by [simp]: "set (sort_by lt xs) = set xs"
  by (induction xs) auto

lemma mset_insert_by: "mset (insert_by lt x xs) = add_mset x (mset xs)"
  by (induction xs) auto

lemma mset_sort_by [simp]: "mset (sort_by lt xs) = mset xs"
  by (induction xs) (auto simp: mset_insert_by)

lemma distinct_map_sort_by [simp]: "distinct (map f (sort_by lt xs)) = distinct (map f xs)"
  by (intro mset_eq_imp_distinct_iff) simp

lemma distinct_insert_by: "distinct (insert_by lt x xs) \<longleftrightarrow> distinct (x # xs)"
  by (induction xs) auto

lemma distinct_sort_by [simp]: "distinct (sort_by lt xs) = distinct xs"
  by (induction xs) (auto simp: distinct_insert_by)

lemma length_insert_by [simp]: "length (insert_by lt x xs) = Suc (length xs)"
  by (induction xs) auto

lemma length_sort_by [simp]: "length (sort_by lt xs) = length xs"
  by (induction xs) auto

section \<open>Tables\<close>

text \<open>
  What the store promises of a table with a primary key: a lookup after an \<open>INSERT \<dots> ON CONFLICT
  (key) DO UPDATE\<close> and after a \<open>DELETE \<dots> WHERE key\<close>, and that its rows are exactly what lookups
  find, each key once.
\<close>

locale table =
  fixes lookup :: "'t \<Rightarrow> 'k \<Rightarrow> 'v option"
    and upsert :: "'k \<Rightarrow> 'v \<Rightarrow> 't \<Rightarrow> 't"
    and remove :: "'k \<Rightarrow> 't \<Rightarrow> 't"
    and rows :: "'t \<Rightarrow> ('k \<times> 'v) list"
    and keyed :: "'t \<Rightarrow> bool"
  assumes lookup_upsert: "lookup (upsert k v t) = (lookup t)(k \<mapsto> v)"
    and lookup_remove: "keyed t \<Longrightarrow> lookup (remove k t) = (lookup t)(k := None)"
    and keyed_upsert: "keyed t \<Longrightarrow> keyed (upsert k v t)"
    and keyed_remove: "keyed t \<Longrightarrow> keyed (remove k t)"
    and rows_lookup: "keyed t \<Longrightarrow> (k, v) \<in> set (rows t) \<longleftrightarrow> lookup t k = Some v"
    and rows_once: "keyed t \<Longrightarrow> distinct (map fst (rows t))"
begin

text \<open>A sum over the rows, as \<open>SELECT sum(\<dots>) FROM t WHERE \<dots>\<close> takes it, after a write.\<close>

lemma rows_set: "keyed t \<Longrightarrow> set (rows t) = {(k, v). lookup t k = Some v}"
  using rows_lookup by auto

lemma sum_rows_eq:
  fixes f :: "'k \<times> 'v \<Rightarrow> int"
  assumes "keyed t"
  shows "(\<Sum>r\<leftarrow>rows t. f r) = (\<Sum>r\<in>{(k, v). lookup t k = Some v}. f r)"
proof -
  have "distinct (rows t)" using rows_once [OF assms] by (simp add: distinct_map)
  then have "(\<Sum>r\<leftarrow>rows t. f r) = (\<Sum>r\<in>set (rows t). f r)"
    by (simp add: sum_list_distinct_conv_sum_set)
  then show ?thesis by (simp add: rows_set [OF assms])
qed

lemma finite_graph: "keyed t \<Longrightarrow> finite {(k, v). lookup t k = Some v}"
  using rows_set [of t] by (metis List.finite_set)

lemma sum_rows_upsert:
  fixes f :: "'k \<times> 'v \<Rightarrow> int"
  assumes t: "keyed t"
  shows "(\<Sum>r\<leftarrow>rows (upsert k v t). f r) =
    (\<Sum>r\<leftarrow>rows t. if fst r = k then 0 else f r) + f (k, v)"
proof -
  let ?A = "{(k', v'). lookup t k' = Some v'}"
  let ?B = "{r \<in> ?A. fst r \<noteq> k}"
  have fin: "finite ?A" by (rule finite_graph [OF t])
  have "{(k', v'). lookup (upsert k v t) k' = Some v'} = insert (k, v) ?B"
    by (auto simp: lookup_upsert split: if_splits)
  then have "(\<Sum>r\<leftarrow>rows (upsert k v t). f r) = f (k, v) + (\<Sum>r\<in>?B. f r)"
    using fin by (simp add: sum_rows_eq [OF keyed_upsert [OF t]])
  also have "(\<Sum>r\<in>?B. f r) = (\<Sum>r\<in>?A. if fst r = k then 0 else f r)"
    using fin by (intro sum.mono_neutral_cong_left) auto
  finally show ?thesis by (simp add: sum_rows_eq [OF t])
qed

lemma sum_rows_remove:
  fixes f :: "'k \<times> 'v \<Rightarrow> int"
  assumes t: "keyed t"
  shows "(\<Sum>r\<leftarrow>rows (remove k t). f r) = (\<Sum>r\<leftarrow>rows t. if fst r = k then 0 else f r)"
proof -
  let ?A = "{(k', v'). lookup t k' = Some v'}"
  let ?B = "{r \<in> ?A. fst r \<noteq> k}"
  have fin: "finite ?A" by (rule finite_graph [OF t])
  have "{(k', v'). lookup (remove k t) k' = Some v'} = ?B"
    by (auto simp: lookup_remove [OF t] split: if_splits)
  then have "(\<Sum>r\<leftarrow>rows (remove k t). f r) = (\<Sum>r\<in>?B. f r)"
    by (simp add: sum_rows_eq [OF keyed_remove [OF t]])
  also have "(\<Sum>r\<in>?B. f r) = (\<Sum>r\<in>?A. if fst r = k then 0 else f r)"
    using fin by (intro sum.mono_neutral_cong_left) auto
  finally show ?thesis by (simp add: sum_rows_eq [OF t])
qed

end

text \<open>The tables of the model: association lists with distinct keys.\<close>

type_synonym ('k, 'v) tbl = "('k \<times> 'v) list"

definition get_row :: "('k, 'v) tbl \<Rightarrow> 'k \<Rightarrow> 'v option" where
  "get_row t k = map_of t k"

definition put_row :: "'k \<Rightarrow> 'v \<Rightarrow> ('k, 'v) tbl \<Rightarrow> ('k, 'v) tbl" where
  "put_row k v t = AList.update k v t"

definition del_row :: "'k \<Rightarrow> ('k, 'v) tbl \<Rightarrow> ('k, 'v) tbl" where
  "del_row k t = AList.delete k t"

definition all_rows :: "('k, 'v) tbl \<Rightarrow> ('k \<times> 'v) list" where
  "all_rows t = t"

definition keyed :: "('k, 'v) tbl \<Rightarrow> bool" where
  "keyed t = distinct (map fst t)"

interpretation tbl: table get_row put_row del_row all_rows keyed
proof unfold_locales
  fix k :: 'k and v :: 'v and t :: "('k, 'v) tbl"
  show "get_row (put_row k v t) = (get_row t)(k \<mapsto> v)"
    by (simp add: get_row_def put_row_def update_conv' fun_eq_iff)
  show "keyed t \<Longrightarrow> get_row (del_row k t) = (get_row t)(k := None)"
    by (simp add: get_row_def del_row_def delete_conv' fun_eq_iff)
  show "keyed t \<Longrightarrow> keyed (put_row k v t)"
    by (simp add: keyed_def put_row_def distinct_update)
  show "keyed t \<Longrightarrow> keyed (del_row k t)"
    by (simp add: keyed_def del_row_def distinct_delete)
  show "keyed t \<Longrightarrow> (k, v) \<in> set (all_rows t) \<longleftrightarrow> get_row t k = Some v"
    by (simp add: keyed_def all_rows_def get_row_def)
  show "keyed t \<Longrightarrow> distinct (map fst (all_rows t))"
    by (simp add: keyed_def all_rows_def)
qed

lemma get_put [simp, table_simps]: "get_row (put_row k v t) k' = (if k' = k then Some v else get_row t k')"
  by (simp add: tbl.lookup_upsert)

lemma get_del [simp, table_simps]: "get_row (del_row k t) k' = (if k' = k then None else get_row t k')"
  by (simp add: get_row_def del_row_def delete_conv)

text \<open>\<open>UPDATE \<dots> WHERE\<close> and \<open>DELETE \<dots> WHERE\<close> of any number of rows.\<close>

definition map_rows :: "('k \<Rightarrow> 'v \<Rightarrow> bool) \<Rightarrow> ('v \<Rightarrow> 'v) \<Rightarrow> ('k, 'v) tbl \<Rightarrow> ('k, 'v) tbl" where
  "map_rows P f t = map (\<lambda>(k, v). (k, if P k v then f v else v)) t"

definition del_rows :: "('k \<Rightarrow> 'v \<Rightarrow> bool) \<Rightarrow> ('k, 'v) tbl \<Rightarrow> ('k, 'v) tbl" where
  "del_rows P t = filter (\<lambda>(k, v). \<not> P k v) t"

lemma get_map_rows [simp, table_simps]:
  "get_row (map_rows P f t) k = map_option (\<lambda>v. if P k v then f v else v) (get_row t k)"
  by (induction t) (auto simp: get_row_def map_rows_def)

lemma keyed_map_rows [simp, intro]: "keyed t \<Longrightarrow> keyed (map_rows P f t)"
  by (simp add: keyed_def map_rows_def comp_def case_prod_beta')

lemma keyed_del_rows [simp, intro]: "keyed t \<Longrightarrow> keyed (del_rows P t)"
  by (auto simp: keyed_def del_rows_def intro: distinct_map_filter)

lemma get_del_rows [simp, table_simps]:
  assumes "keyed t"
  shows "get_row (del_rows P t) k = (case get_row t k of None \<Rightarrow> None | Some v \<Rightarrow> if P k v then None else Some v)"
  using assms
proof (induction t)
  case Nil
  then show ?case by (simp add: get_row_def del_rows_def)
next
  case (Cons kv t)
  obtain k' v where kv: "kv = (k', v)" by (cases kv)
  from Cons.prems kv have t: "keyed t" and "k' \<notin> fst ` set t" by (auto simp: keyed_def)
  then have "get_row t k' = None" by (simp add: get_row_def map_of_eq_None_iff)
  with Cons.IH [OF t] kv show ?case by (auto simp: get_row_def del_rows_def split: option.splits)
qed

lemmas keyed_intros [simp, intro] = tbl.keyed_upsert tbl.keyed_remove

lemma in_rows: "keyed t \<Longrightarrow> (k, v) \<in> set t \<longleftrightarrow> get_row t k = Some v"
  using tbl.rows_lookup [of t k v] by (simp add: all_rows_def)

lemma del_row_absent: "get_row t k = None \<Longrightarrow> del_row k t = t"
  by (auto simp: get_row_def del_row_def map_of_eq_None_iff intro: delete_id)

lemma put_row_absent: "get_row t k = None \<Longrightarrow> put_row k v t = t @ [(k, v)]"
  by (induction t) (auto simp: get_row_def put_row_def)

text \<open>\<open>sort_by\<close> under a strict order that is total on the elements gives them in order.\<close>

lemma sorted_insert_by:
  assumes "transp lt" and "\<And>y. y \<in> set xs \<Longrightarrow> \<not> lt y x \<Longrightarrow> lt x y" and "sorted_wrt lt xs"
  shows "sorted_wrt lt (insert_by lt x xs)"
  using assms(2,3)
proof (induction xs)
  case (Cons y ys)
  have "lt x z" if "\<not> lt y x" "z \<in> set ys" for z
    using that Cons.prems transpD [OF assms(1), of x y z] by simp
  with Cons show ?case by auto
qed simp

lemma sorted_sort_by:
  assumes "transp lt"
    and "\<And>x y. x \<in> set xs \<Longrightarrow> y \<in> set xs \<Longrightarrow> x \<noteq> y \<Longrightarrow> lt x y \<or> lt y x"
    and "distinct xs"
  shows "sorted_wrt lt (sort_by lt xs)"
  using assms(2,3)
proof (induction xs)
  case (Cons x xs)
  have "sorted_wrt lt (sort_by lt xs)" using Cons by simp
  moreover have "lt x y" if "y \<in> set (sort_by lt xs)" "\<not> lt y x" for y
    using Cons.prems that by (metis distinct.simps(2) list.set_intros(1,2) set_sort_by)
  ultimately have "sorted_wrt lt (insert_by lt x (sort_by lt xs))" by (intro sorted_insert_by [OF assms(1)])
  then show ?case by simp
qed simp

section \<open>Work in batches\<close>

text \<open>A loop of transactions that each take at most \<open>limit\<close> rows, until one takes fewer: the \<open>k\<close>th ends the loop with an
  error and the state it met, or leaves a state and the number of rows it took. The result carries the number of the
  next transaction.\<close>

partial_function (option) batches :: "(nat \<Rightarrow> 's \<Rightarrow> ('e \<times> 's) + 's \<times> nat) \<Rightarrow> nat \<Rightarrow> nat \<Rightarrow> 's \<Rightarrow> ('e option \<times> 's \<times> nat) option" where
  "batches tx limit k s =
    (case tx k s of
       Inl (e, s') \<Rightarrow> Some (Some e, s', Suc k)
     | Inr (s', n) \<Rightarrow> if n < limit then Some (None, s', Suc k) else batches tx limit (Suc k) s')"

text \<open>The contract of such a transaction: it keeps an invariant, every row it takes leaves the rows left to do, and the
  work is finished when it took fewer than it might have.\<close>

locale batched =
  fixes tx :: "nat \<Rightarrow> 's \<Rightarrow> ('e \<times> 's) + 's \<times> nat" and limit :: nat and inv :: "'s \<Rightarrow> bool" and left :: "'s \<Rightarrow> nat"
    and finished :: "nat \<Rightarrow> 's \<Rightarrow> bool"
  assumes limit_pos: "0 < limit"
    and failed: "inv s \<Longrightarrow> tx k s = Inl (e, s') \<Longrightarrow> inv s'"
    and took: "inv s \<Longrightarrow> tx k s = Inr (s', n) \<Longrightarrow> inv s' \<and> left s' + n \<le> left s"
    and few: "inv s \<Longrightarrow> tx k s = Inr (s', n) \<Longrightarrow> n < limit \<Longrightarrow> finished k s'"
begin

lemma batches_end:
  "inv s \<Longrightarrow> \<exists>er s' k'. batches tx limit k s = Some (er, s', k') \<and> k' \<le> k + left s div limit + 1 \<and> inv s'
    \<and> (er = None \<longrightarrow> 0 < k' \<and> finished (k' - 1) s')"
proof (induction "left s" arbitrary: s k rule: less_induct)
  case less
  show ?case
  proof (cases "tx k s")
    case (Inl r)
    obtain e s' where r: "tx k s = Inl (e, s')" using Inl by (cases r) auto
    then have "batches tx limit k s = Some (Some e, s', Suc k)" by (subst batches.simps) simp
    then show ?thesis using failed [OF less.prems r] by auto
  next
    case (Inr r)
    obtain s' n where r: "tx k s = Inr (s', n)" using Inr by (cases r) auto
    note t = took [OF less.prems r]
    show ?thesis
    proof (cases "n < limit")
      case True
      then have "batches tx limit k s = Some (None, s', Suc k)" using r by (subst batches.simps) simp
      then show ?thesis using t few [OF less.prems r True] by auto
    next
      case False
      then have l: "left s' + limit \<le> left s" using t by simp
      then have "left s' < left s" using limit_pos by simp
      from less.hyps [OF this, of "Suc k"] t obtain er s2 k2 where
        b: "batches tx limit (Suc k) s' = Some (er, s2, k2)" "k2 \<le> Suc k + left s' div limit + 1" "inv s2"
          "er = None \<longrightarrow> 0 < k2 \<and> finished (k2 - 1) s2" by blast
      have "batches tx limit k s = Some (er, s2, k2)" using r False b(1) by (subst batches.simps) simp
      moreover have "Suc (left s' div limit) \<le> left s div limit"
        using div_le_mono [OF l, of limit] limit_pos by simp
      ultimately show ?thesis using b(2-4) by auto
    qed
  qed
qed

end

section \<open>Invariants of transition systems\<close>

text \<open>A step relation and a predicate that its steps keep; what holds in every state that is reached, and what two
  states of a run are to each other.\<close>

locale invariant_system =
  fixes step :: "'s \<Rightarrow> 's \<Rightarrow> bool" and inv :: "'s \<Rightarrow> bool"
  assumes step_inv: "inv s \<Longrightarrow> step s s' \<Longrightarrow> inv s'"
begin

lemma reach_inv: "step\<^sup>*\<^sup>* s s' \<Longrightarrow> inv s \<Longrightarrow> inv s'"
  by (induction rule: rtranclp_induct) (auto intro: step_inv)

lemma reach_rel:
  assumes "step\<^sup>*\<^sup>* s s'" "inv s" "\<And>s. R s s" "\<And>a b c. R a b \<Longrightarrow> R b c \<Longrightarrow> R a c"
    and "\<And>a b. inv a \<Longrightarrow> step a b \<Longrightarrow> R a b"
  shows "R s s'"
  using assms(1)
proof (induction rule: rtranclp_induct)
  case base
  show ?case by (rule assms(3))
next
  case (step a b)
  then show ?case using assms(4,5) reach_inv [OF step.hyps(1) assms(2)] by blast
qed

end

end
