(* ===== verification/PodId.thy ===== *)
theory PodId
  imports Prelude
begin

text \<open>
  Pod IDs, from \<open>go/internal/podid/podid.go\<close>: minting, parsing, the canonical form, and the names of
  the TAP devices that pods on one node must not share. The random source is the list of arrays it
  fills, one per pass of \<open>Mint\<close>'s loop. \<open>strings.ToLower\<close> is written for ASCII: a text of 36 bytes
  with other letters is refused either way, since no such letter has a lowercase in \<open>0-9a-f-\<close>.
\<close>

unbundle bit_operations_syntax

type_synonym podID = string

definition Len :: nat where "Len = 11"
definition LegacyLen :: nat where "LegacyLen = 36"

definition Alphabet :: string where "Alphabet = ''0123456789abcdefghjkmnpqrstvwxyz''"
definition letters :: string where "letters = ''abcdefghjkmnpqrstvwxyz''"

definition mint_of :: "byte list \<Rightarrow> podID" where
  "mint_of b = (letters ! (unat (b ! 0) mod length letters)) # map (\<lambda>x. Alphabet ! unat (x AND 31)) (tl b)"

text \<open>The loop of \<open>Mint\<close> over what \<open>rand.Read\<close> fills in: \<open>None\<close> while no array has been accepted.\<close>

fun Mint :: "byte list list \<Rightarrow> podID option" where
  "Mint [] = None"
| "Mint (b # draws) = (if b ! 0 < 242 then Some (mint_of b) else Mint draws)"

definition validShort :: "string \<Rightarrow> bool" where
  "validShort s = (length s = Len \<and> s ! 0 \<in> set letters \<and> (\<forall>i\<in>set [1..<Len]. s ! i \<in> set Alphabet))"

definition uuid_char :: "char \<Rightarrow> bool" where
  "uuid_char c = ((CHR ''0'' \<le> c \<and> c \<le> CHR ''9'') \<or> (CHR ''a'' \<le> c \<and> c \<le> CHR ''f''))"

definition validUUID :: "string \<Rightarrow> bool" where
  "validUUID s = (length s = LegacyLen \<and>
    (\<forall>i\<in>set [0..<LegacyLen]. if i \<in> {8, 13, 18, 23} then s ! i = CHR ''-'' else uuid_char (s ! i)))"

definition to_lower_char :: "char \<Rightarrow> char" where
  "to_lower_char c = (if CHR ''A'' \<le> c \<and> c \<le> CHR ''Z'' then char_of (of_char c + 32 :: nat) else c)"

definition to_lower :: "string \<Rightarrow> string" where
  "to_lower s = map to_lower_char s"

text \<open>\<open>Parse\<close>: \<open>None\<close> is \<open>ErrInvalid\<close>.\<close>

definition Parse :: "string \<Rightarrow> podID option" where
  "Parse s =
    (if length s = Len then if validShort s then Some s else None
     else if length s = LegacyLen then let l = to_lower s in if validUUID l then Some l else None
     else None)"

definition Valid :: "string \<Rightarrow> bool" where
  "Valid s =
    (if length s = Len then validShort s else if length s = LegacyLen then validUUID s else False)"

definition IsLegacy :: "podID \<Rightarrow> bool" where
  "IsLegacy i = (length i = LegacyLen)"

definition TAPKey :: "podID \<Rightarrow> string" where
  "TAPKey i = (if IsLegacy i then take 8 i else i)"

definition TAP :: "podID \<Rightarrow> string" where
  "TAP i = ''pod-'' @ TAPKey i"

definition TAPConflict :: "podID \<Rightarrow> podID \<Rightarrow> bool" where
  "TAPConflict a b = (a \<noteq> b \<and> IsLegacy a \<and> IsLegacy b \<and> take 8 a = take 8 b)"

definition MarshalText :: "podID \<Rightarrow> string" where
  "MarshalText i = i"

text \<open>\<open>UnmarshalText\<close>: the ID it stores, or \<open>None\<close> for the error.\<close>

definition UnmarshalText :: "string \<Rightarrow> podID option" where
  "UnmarshalText b = (if b = [] then Some [] else Parse b)"

section \<open>Lemmas\<close>

lemma alphabet_lengths [simp]: "length letters = 22" "length Alphabet = 32"
  by (simp_all add: letters_def Alphabet_def)

lemma and31: "unat ((x :: byte) AND 31) = unat x mod 32"
proof -
  have "(x AND 31) = take_bit 5 x" by (simp add: take_bit_eq_mask mask_eq_exp_minus_1)
  then have "unat (x AND 31) = take_bit 5 (unat x)" by (simp only: unsigned_take_bit_eq)
  then show ?thesis by (simp add: take_bit_eq_mod)
qed

lemma mint_of_valid:
  assumes "length b = Len"
  shows "validShort (mint_of b)"
proof -
  have "length (mint_of b) = Len" using assms by (simp add: mint_of_def Len_def)
  moreover have "mint_of b ! 0 \<in> set letters" by (simp add: mint_of_def)
  moreover have "mint_of b ! i \<in> set Alphabet" if "1 \<le> i" "i < Len" for i
  proof -
    from that obtain j where j: "i = Suc j" by (cases i) auto
    with that assms show ?thesis by (simp add: mint_of_def nth_tl and31)
  qed
  ultimately show ?thesis by (simp add: validShort_def)
qed

lemma Valid_lengths: "Valid i \<Longrightarrow> length i = Len \<or> length i = LegacyLen"
  by (auto simp: Valid_def split: if_splits)

lemma uuid_char_lower: "uuid_char c \<Longrightarrow> to_lower_char c = c"
  by (cases c) (auto simp: uuid_char_def to_lower_char_def)

lemma validUUID_lower:
  assumes "validUUID s"
  shows "to_lower s = s"
proof -
  have "to_lower_char (s ! i) = s ! i" if "i < length s" for i
  proof (cases "i \<in> {8, 13, 18, 23}")
    case True
    then have "s ! i = CHR ''-''" using assms that by (auto simp: validUUID_def)
    then show ?thesis by (simp add: to_lower_char_def)
  next
    case False
    then have "uuid_char (s ! i)" using assms that by (auto simp: validUUID_def)
    then show ?thesis by (rule uuid_char_lower)
  qed
  then show ?thesis by (simp add: to_lower_def list_eq_iff_nth_eq)
qed

lemma Parse_Valid: "Parse s = Some i \<Longrightarrow> Valid i"
  by (auto simp: Parse_def Valid_def to_lower_def Let_def split: if_splits)

lemma Valid_Parse: "Valid s \<Longrightarrow> Parse s = Some s"
  by (auto simp: Parse_def Valid_def Let_def validUUID_lower split: if_splits)

lemma Mint_Some: "Mint draws = Some i \<Longrightarrow> \<exists>b\<in>set draws. b ! 0 < 242 \<and> i = mint_of b"
  by (induction draws) (auto split: if_splits)

lemma Mint_returns: "\<exists>b\<in>set draws. b ! 0 < 242 \<Longrightarrow> \<exists>i. Mint draws = Some i"
  by (induction draws) auto

lemma card_bytes: "card {b :: byte. unat b < k * m \<and> unat b mod m = i} = k" if "i < m" "k * m \<le> 256"
proof -
  let ?S = "{b :: byte. unat b < k * m \<and> unat b mod m = i}"
  have "bij_betw (\<lambda>q. word_of_nat (q * m + i) :: byte) {..<k} ?S"
  proof (rule bij_betw_byWitness [where f' = "\<lambda>b. unat b div m"])
    have below: "q * m + i < k * m" if "q < k" for q
      using mult_le_mono1 [of "Suc q" k m] that \<open>i < m\<close> by simp
    have val: "unat (word_of_nat (q * m + i) :: byte) = q * m + i" if "q < k" for q
      using below [OF that] \<open>k * m \<le> 256\<close> by (simp add: unat_of_nat take_bit_eq_mod del: of_nat_add of_nat_mult)
    show "(\<lambda>q. word_of_nat (q * m + i)) ` {..<k} \<subseteq> ?S"
      using below \<open>i < m\<close> by (auto simp: val simp del: of_nat_add of_nat_mult)
    show "(\<lambda>b. unat b div m) ` ?S \<subseteq> {..<k}" by (auto simp: less_mult_imp_div_less)
    show "\<forall>q\<in>{..<k}. unat (word_of_nat (q * m + i) :: byte) div m = q"
      using \<open>i < m\<close> by (simp add: val del: of_nat_add of_nat_mult)
    show "\<forall>b\<in>?S. word_of_nat (unat b div m * m + i) = b"
      by (auto simp del: of_nat_add of_nat_mult)
  qed
  then show ?thesis using bij_betw_same_card by fastforce
qed

section \<open>Properties\<close>

text \<open>C21: A minted ID is a valid short ID, \<open>Mint\<close> returns as soon as the random source gives one
  array whose first byte is below 242, and the ID then reads back through \<open>Parse\<close> unchanged.\<close>

theorem mint_valid:
  assumes "\<forall>b\<in>set draws. length b = Len" and "\<exists>b\<in>set draws. b ! 0 < 242"
  shows "\<exists>i. Mint draws = Some i \<and> length i = Len \<and> Valid i \<and> Parse i = Some i \<and> \<not> IsLegacy i"
proof -
  obtain i where i: "Mint draws = Some i" using Mint_returns assms(2) by blast
  then obtain b where "b \<in> set draws" "i = mint_of b" using Mint_Some by blast
  then have short: "validShort i" using assms(1) mint_of_valid by blast
  then have "length i = Len" by (simp add: validShort_def)
  with short have "Valid i" by (simp add: Valid_def)
  with i \<open>length i = Len\<close> Valid_Parse show ?thesis by (auto simp: IsLegacy_def Len_def LegacyLen_def)
qed

theorem mint_valid_witness:
  "\<exists>i. Mint [replicate 11 255, replicate 11 7] = Some i \<and> length i = Len \<and> Valid i \<and> Parse i = Some i
    \<and> \<not> IsLegacy i"
  using mint_valid [of "[replicate 11 255, replicate 11 7]"] by (simp add: Len_def)

text \<open>C22: \<open>Parse\<close> accepts exactly the IDs in canonical form and UUIDs whose lowercase is, what it
  returns is canonical, and canonical IDs round-trip through \<open>MarshalText\<close> and \<open>UnmarshalText\<close>.\<close>

theorem parse_canonical:
  "(Parse s = Some i \<longrightarrow> Valid i \<and> Parse i = Some i) \<and> (Parse s = Some s \<longleftrightarrow> Valid s)
    \<and> (Valid s \<longrightarrow> UnmarshalText (MarshalText s) = Some s)"
proof -
  have "Valid s \<Longrightarrow> s \<noteq> []" using Valid_lengths [of s] by (auto simp: Len_def LegacyLen_def)
  then show ?thesis
    using Parse_Valid Valid_Parse by (auto simp: UnmarshalText_def MarshalText_def)
qed

theorem parse_canonical_witness:
  "Parse ''0190A3F4-0000-7000-8000-00000000BEEF'' = Some ''0190a3f4-0000-7000-8000-00000000beef'' \<and>
   Valid ''0190a3f4-0000-7000-8000-00000000beef''"
proof -
  have "Parse ''0190A3F4-0000-7000-8000-00000000BEEF'' = Some ''0190a3f4-0000-7000-8000-00000000beef''"
    by code_simp
  then show ?thesis using parse_canonical by blast
qed

text \<open>C23: The TAP device names of valid IDs fit IFNAMSIZ (at most 15 characters), and the devices of
  two different pods have the same name exactly when \<open>TAPConflict\<close> says so.\<close>

theorem tap_names:
  assumes "Valid a" and "Valid b"
  shows "length (TAP a) \<le> 15 \<and> (a \<noteq> b \<and> TAP a = TAP b \<longleftrightarrow> TAPConflict a b)"
proof -
  have lens: "length a = Len \<or> length a = LegacyLen" "length b = Len \<or> length b = LegacyLen"
    using assms Valid_lengths by auto
  moreover have "length (take 8 a) = length b \<Longrightarrow> length b \<le> 8" "length (take 8 b) = length a \<Longrightarrow> length a \<le> 8"
    by auto
  ultimately show ?thesis
    by (auto simp: TAP_def TAPKey_def TAPConflict_def IsLegacy_def Len_def LegacyLen_def)
qed

theorem tap_names_witness:
  "TAPConflict ''0190a3f4-0000-7000-8000-00000000beef'' ''0190a3f4-0000-7000-8000-00000000bee0'' \<and>
   TAP ''0190a3f4-0000-7000-8000-00000000beef'' = TAP ''0190a3f4-0000-7000-8000-00000000bee0''"
proof -
  have "Valid ''0190a3f4-0000-7000-8000-00000000beef''" by code_simp
  moreover have "Valid ''0190a3f4-0000-7000-8000-00000000bee0''" by code_simp
  moreover have "TAPConflict ''0190a3f4-0000-7000-8000-00000000beef'' ''0190a3f4-0000-7000-8000-00000000bee0''"
    by code_simp
  ultimately show ?thesis using tap_names by blast
qed



end
