(* ===== verification/Rows.thy ===== *)
theory Rows
  imports PodId
begin

text \<open>
  The rows of ferund's registry, from \<open>go/internal/model/model.go\<close> and the row types of
  \<open>go/internal/store\<close>: sandboxes, nodes, their telemetry, bookings, tombstones, holds, instances and
  leases, and the registry itself, the record of their tables. Text columns whose values a CHECK of the
  schema (\<open>db/migrations\<close>) limits are datatypes, with the empty text of \<open>op\<close> and \<open>op_from_state\<close> as
  \<^term>\<open>None\<close>; a nullable text keeps Go's empty string for NULL, as \<open>scanSandbox\<close> reads it.
\<close>

section \<open>Enumerations\<close>

datatype client_state =
    StatePending | StateCreating | StateRunning | StatePausing | StatePaused | StateResuming
  | StateHibernating | StateHibernated | StateStopped | StateFailed | StateUnknown | StateLost

fun state_text :: "client_state \<Rightarrow> string" where
  "state_text StatePending = ''pending''"
| "state_text StateCreating = ''creating''"
| "state_text StateRunning = ''running''"
| "state_text StatePausing = ''pausing''"
| "state_text StatePaused = ''paused''"
| "state_text StateResuming = ''resuming''"
| "state_text StateHibernating = ''hibernating''"
| "state_text StateHibernated = ''hibernated''"
| "state_text StateStopped = ''stopped''"
| "state_text StateFailed = ''failed''"
| "state_text StateUnknown = ''unknown''"
| "state_text StateLost = ''lost''"

datatype node_status = NodeJoined | NodeReady | NodeDown | NodeRemoved

fun node_status_text :: "node_status \<Rightarrow> string" where
  "node_status_text NodeJoined = ''joined''"
| "node_status_text NodeReady = ''ready''"
| "node_status_text NodeDown = ''down''"
| "node_status_text NodeRemoved = ''removed''"

datatype hold_kind = HoldExec | HoldForward | HoldProcess

fun hold_kind_text :: "hold_kind \<Rightarrow> string" where
  "hold_kind_text HoldExec = ''exec''"
| "hold_kind_text HoldForward = ''forward''"
| "hold_kind_text HoldProcess = ''process''"

datatype op_kind = OpCreate | OpStart | OpResume | OpRestore | OpPause | OpHibernate | OpRepair

fun op_text :: "op_kind \<Rightarrow> string" where
  "op_text OpCreate = ''create''"
| "op_text OpStart = ''start''"
| "op_text OpResume = ''resume''"
| "op_text OpRestore = ''restore''"
| "op_text OpPause = ''pause''"
| "op_text OpHibernate = ''hibernate''"
| "op_text OpRepair = ''repair''"

datatype op_trigger =
    TriggerNone | TriggerEnsure | TriggerExplicit | TriggerIdle | TriggerHibernateAfter
  | TriggerDrain | TriggerDrainForced | TriggerRepair | TriggerRestart

fun trigger_text :: "op_trigger \<Rightarrow> string" where
  "trigger_text TriggerNone = ''''"
| "trigger_text TriggerEnsure = ''ensure''"
| "trigger_text TriggerExplicit = ''explicit''"
| "trigger_text TriggerIdle = ''idle''"
| "trigger_text TriggerHibernateAfter = ''hibernate_after''"
| "trigger_text TriggerDrain = ''drain''"
| "trigger_text TriggerDrainForced = ''drain_forced''"
| "trigger_text TriggerRepair = ''repair''"
| "trigger_text TriggerRestart = ''restart''"

datatype policy = PolicyNone | PolicyIdle | PolicyHibernateAfter

text \<open>The placement gates of \<open>go/internal/sandbox/placement.go\<close>.\<close>

datatype gate =
    gateStatus | gateDraining | gateForked | gateConnected | gateTombstone | gateAvoid | gateTAP | gateStore
  | gateSlots | gateCPU | gateMemory | gateFreeMemory | gateDisk | gatePin

text \<open>The errors of the engine and the store: the sentinels of \<open>internal/model\<close> with the text they are
  wrapped in, the gate that refused a node, the refused admission it becomes, and the store's own.\<close>

datatype err_kind =
    ErrNotFound | ErrLost | ErrNoCapacity | ErrNodeUnavailable | ErrBusy | ErrPrecondition | ErrStopping

datatype err =
    Kind err_kind string
  | Refusal string gate string
  | Admission string gate string err_kind string
  | ErrNoRow
  | ErrStale
  | ErrColumn string
  | ErrForeignKey
  | ErrCheck
  | ErrNoTarget
  | ErrNotLeader
  | ErrCanceled

section \<open>Rows\<close>

record pod_template =
  tpl_security_groups :: "string list"
  tpl_rest :: string

record sandbox =
  sb_id :: podID
  sb_incarnation :: uuid
  sb_owner :: string
  sb_image :: string
  sb_image_ref :: string
  sb_vcpus :: int
  sb_memory_mib :: int
  sb_client_state :: client_state
  sb_status_description :: string
  sb_node :: string
  sb_materialised :: bool
  sb_lost_from :: string
  sb_avoid_nodes :: "string list"
  sb_op :: "op_kind option"
  sb_op_id :: uuid
  sb_op_owner :: string
  sb_op_deadline :: gotime
  sb_op_target :: string
  sb_op_from_state :: "client_state option"
  sb_gen :: int
  sb_checkpoint_epoch :: int
  sb_checkpoint_head :: string
  sb_checkpoint_memory :: bool
  sb_checkpoint_at :: gotime
  sb_checkpoint_store :: string
  sb_pending_since :: gotime
  sb_unreachable_since :: gotime
  sb_run_id :: string
  sb_kube_version :: string
  sb_ssh_version :: string
  sb_http_version :: string
  sb_http_pushed :: string
  sb_created_at :: gotime
  sb_updated_at :: gotime
  sb_last_active_at :: gotime
  sb_paused_at :: gotime
  sb_policy_failed :: policy
  sb_policy_failures :: int
  sb_policy_not_before :: gotime
  sb_environment_id :: uuid
  sb_pod_template :: "pod_template option"
  sb_pin_node :: string
  sb_idle_after_s :: "int option"
  sb_address :: string
  sb_tenant_job :: bool
  sb_log_labels :: "(string \<times> string) list"

definition IsInstance :: "sandbox \<Rightarrow> bool" where
  "IsInstance s = (sb_environment_id s \<noteq> uuid_nil \<or> sb_tenant_job s)"

definition HasGroups :: "sandbox \<Rightarrow> bool" where
  "HasGroups s = (case sb_pod_template s of None \<Rightarrow> False | Some t \<Rightarrow> tpl_security_groups t \<noteq> [])"

definition HasCheckpoint :: "sandbox \<Rightarrow> bool" where
  "HasCheckpoint s = (sb_checkpoint_head s \<noteq> [])"

text \<open>A row of \<open>nodes\<close>. \<open>cpu_overcommit\<close> is a \<open>real\<close> column (24 bits), so that its product with the
  cores is exact in Go's \<open>float64\<close> and the floor is that of the rational number.\<close>

record node =
  n_name :: string
  n_status :: node_status
  n_status_description :: string
  n_down_since :: gotime
  n_removed_at :: gotime
  n_draining :: bool
  n_drain_started_at :: gotime
  n_slots :: int
  n_mem_headroom_bytes :: int
  n_cpu_overcommit :: rat
  n_hostname :: string
  n_arch :: string
  n_cpu_model :: string
  n_cpu_cores :: int
  n_memory_total_bytes :: int
  n_disk_total_bytes :: int
  n_versions :: string
  n_object_store :: bool
  n_object_store_id :: string
  n_pod_prefix :: string
  n_start_id :: uuid
  n_stopping_until :: gotime
  n_current_serial :: string
  n_identity_forked_at :: gotime
  n_joined_at :: gotime
  n_reconciled_at :: gotime
  n_reconcile_requested_at :: gotime
  n_mesh_subnet :: int
  n_mesh_prefix :: string
  n_mesh_public_key :: "byte list"
  n_mesh_endpoint :: string
  n_ingress_group_version :: int

definition Forked :: "node \<Rightarrow> bool" where
  "Forked n = (n_identity_forked_at n \<noteq> 0)"

definition VCPUCapacity :: "node \<Rightarrow> int" where
  "VCPUCapacity n = floor (of_int (n_cpu_cores n) * n_cpu_overcommit n)"

definition MemoryCapacityMiB :: "node \<Rightarrow> int" where
  "MemoryCapacityMiB n = max (n_memory_total_bytes n - n_mem_headroom_bytes n) 0 div 2 ^ 20"

record telemetry =
  t_last_seen :: gotime
  t_memory_available_bytes :: int
  t_disk_available_bytes :: int
  t_inventory_hash :: string
  t_reconciled_hash :: string

record booking =
  b_node :: string
  b_vcpus :: int
  b_memory_mib :: int
  b_gated :: bool
  b_booked_at :: gotime

type_synonym tombstone_key = "podID \<times> string \<times> uuid"

record tombstone =
  ts_reason :: string
  ts_created_at :: gotime
  ts_not_before :: gotime
  ts_attempts :: int
  ts_last_error :: string
  ts_last_attempt_at :: gotime

text \<open>A row of \<open>sandbox_holds\<close>; the lease of a process without a time limit is \<^term>\<open>None\<close>, the
  column's \<open>infinity\<close>.\<close>

record hold =
  ho_kind :: hold_kind
  ho_instance_id :: string
  ho_lease_until :: "gotime option"

record instance_row =
  in_address :: string
  in_node_address :: string
  in_version :: string
  in_started_at :: gotime
  in_last_seen :: gotime
  in_stopping :: gotime

record lease_row =
  l_holder :: string
  l_epoch :: int
  l_acquired_at :: gotime
  l_renewed_at :: gotime
  l_expires_at :: gotime

text \<open>What the idle queries read of the environments' tables: an attached service
  (\<open>env_attached\<close>) and an ingress.\<close>

record attached =
  at_sandbox_id :: podID
  at_sandbox_incarnation :: uuid
  at_process_id :: string
  at_awake_until :: gotime
  at_idle_after_s :: "int option"

record ingress =
  ig_joined :: bool
  ig_mesh_address :: string
  ig_left_at :: gotime
  ig_last_seen :: gotime

text \<open>A tenant with its limits (\<^term>\<open>None\<close>: none), and what its use is counted from beside its sandboxes: its environments
  and its jobs. A tenant whose deletion has begun has a \<open>tn_deleting_at\<close>, a job that has ended a \<open>j_finished_at\<close>.\<close>

record tenant_limits =
  lim_sandboxes :: "int option"
  lim_environments :: "int option"
  lim_running_jobs :: "int option"
  lim_vcpus :: "int option"
  lim_memory_mib :: "int option"

record tenant =
  tn_created_at :: gotime
  tn_deleting_at :: gotime
  tn_zone :: string
  tn_made_by :: uuid
  tn_limits :: tenant_limits

record environment =
  en_owner :: string
  en_deleting :: bool

record job =
  j_owner :: string
  j_vcpus :: int
  j_memory_mib :: int
  j_finished_at :: gotime

text \<open>The registry. \<open>db_public_services\<close> are the sandboxes that are service instances of a public
  environment; \<open>db_notified\<close> are the notifications sent, the oldest first; \<open>db_tenant_tokens\<close> are the tenants'
  tokens, by the tokens' hashes.\<close>

record registry =
  db_sandboxes :: "(podID, sandbox) tbl"
  db_nodes :: "(string, node) tbl"
  db_telemetry :: "(string, telemetry) tbl"
  db_bookings :: "(podID, booking) tbl"
  db_tombstones :: "(tombstone_key, tombstone) tbl"
  db_holds :: "(podID \<times> string, hold) tbl"
  db_instances :: "(string, instance_row) tbl"
  db_leases :: "(string, lease_row) tbl"
  db_tenants :: "(string, tenant) tbl"
  db_attached :: "attached list"
  db_ingresses :: "ingress list"
  db_public_services :: "podID list"
  db_notified :: "(string \<times> string) list"
  db_tenant_tokens :: "(string, string) tbl"
  db_environments :: "(uuid, environment) tbl"
  db_jobs :: "(uuid, job) tbl"

section \<open>Activity rows\<close>

datatype event_kind =
    KindLifecycleStart | KindLifecycleEnd | KindRunStart | KindRunEnd | KindSandboxState
  | KindPlacement | KindOverbooked | KindTombstone

text \<open>An activity row as the engine records it after a commit, without its detail map, whose values
  repeat its other columns, and without durations.\<close>

record event =
  ev_sandbox :: podID
  ev_tenant :: string
  ev_node :: string
  ev_kind :: event_kind
  ev_span :: string
  ev_parent :: string
  ev_name :: string

text \<open>The arrow of a state change's name, U+2192 in UTF-8.\<close>

definition arrow :: string where
  "arrow = [CHR '' '', char_of (226 :: nat), char_of (134 :: nat), char_of (146 :: nat), CHR '' '']"

section \<open>Lemmas\<close>

lemma state_text_inj: "state_text a = state_text b \<longleftrightarrow> a = b"
  by (cases a; cases b) auto

lemma op_text_inj: "op_text a = op_text b \<longleftrightarrow> a = b"
  by (cases a; cases b) auto

lemma MemoryCapacityMiB_nonneg: "0 \<le> MemoryCapacityMiB n"
  by (simp add: MemoryCapacityMiB_def)

end
