(* ===== verification/Store.thy ===== *)
theory Store
  imports Rows
begin

text \<open>
  The store's operations on sandboxes, bookings, tombstones and holds, from
  \<open>go/internal/store/sandboxes.go\<close>, \<open>bookings.go\<close>, \<open>tombstones.go\<close>, \<open>holds.go\<close> and
  \<open>sandbox_engine.go\<close>: one definition per query, a function of the registry and, where the statement
  says \<open>now()\<close>, of the transaction's clock. A statement that breaks a foreign key or a CHECK of the
  schema is an error, as PostgreSQL raises it, and its transaction has no effect.
\<close>

section \<open>Notifications and durations\<close>

definition chanSandbox :: string where "chanSandbox = ''ferun_sandbox''"
definition ChanLeader :: string where "ChanLeader = ''ferun_leader''"
definition HintEnvGroups :: string where "HintEnvGroups = ''env-groups''"
definition notifyBatch :: nat where "notifyBatch = 256"

definition Notify :: "string \<Rightarrow> string \<Rightarrow> registry \<Rightarrow> registry" where
  "Notify channel payload db = db\<lparr>db_notified := db_notified db @ [(channel, payload)]\<rparr>"

definition notifySandboxes :: "podID list \<Rightarrow> registry \<Rightarrow> registry" where
  "notifySandboxes ids db =
    (if ids = [] then db
     else if length ids > notifyBatch then Notify chanSandbox ''*'' db
     else fold (Notify chanSandbox) ids db)"

text \<open>A duration as a statement gets it: whole microseconds.\<close>

definition interval :: "duration \<Rightarrow> duration" where
  "interval d = (if d \<ge> 0 then d div 1000 * 1000 else - ((- d) div 1000 * 1000))"

section \<open>Sandboxes\<close>

definition GetSandbox :: "podID \<Rightarrow> registry \<Rightarrow> err + sandbox" where
  "GetSandbox i db =
    (case get_row (db_sandboxes db) i of
       None \<Rightarrow> Inl (Kind ErrNotFound ''no such sandbox'')
     | Some r \<Rightarrow> Inr r)"

text \<open>\<open>LockSandbox\<close>: the read; the lock holds the row for the transaction, which is one step here.\<close>

definition LockSandbox :: "podID \<Rightarrow> registry \<Rightarrow> err + sandbox" where
  "LockSandbox i db = GetSandbox i db"

record new_sandbox =
  ns_id :: podID
  ns_owner :: string
  ns_image :: string
  ns_vcpus :: int
  ns_memory_mib :: int
  ns_image_ref :: string
  ns_environment_id :: uuid
  ns_pod_template :: "pod_template option"
  ns_pin_node :: string
  ns_idle_after_s :: "int option"
  ns_tenant_job :: bool
  ns_log_labels :: "(string \<times> string) list"

text \<open>The row a create inserts: what the request sets, and the columns' defaults.\<close>

definition new_row :: "new_sandbox \<Rightarrow> uuid \<Rightarrow> gotime \<Rightarrow> sandbox" where
  "new_row n inc now = \<lparr>
    sb_id = ns_id n, sb_incarnation = inc, sb_owner = ns_owner n, sb_image = ns_image n,
    sb_image_ref = ns_image_ref n, sb_vcpus = ns_vcpus n, sb_memory_mib = ns_memory_mib n,
    sb_client_state = StatePending, sb_status_description = ''awaiting first tool call'',
    sb_node = [], sb_materialised = False, sb_lost_from = [], sb_avoid_nodes = [],
    sb_op = None, sb_op_id = uuid_nil, sb_op_owner = [], sb_op_deadline = 0, sb_op_target = [],
    sb_op_from_state = None, sb_gen = 0,
    sb_checkpoint_epoch = 0, sb_checkpoint_head = [], sb_checkpoint_memory = False,
    sb_checkpoint_at = 0, sb_checkpoint_store = [],
    sb_pending_since = 0, sb_unreachable_since = 0, sb_run_id = [], sb_kube_version = [],
    sb_ssh_version = [], sb_http_version = [], sb_http_pushed = [],
    sb_created_at = now, sb_updated_at = now, sb_last_active_at = now, sb_paused_at = 0,
    sb_policy_failed = PolicyNone, sb_policy_failures = 0, sb_policy_not_before = 0,
    sb_environment_id = ns_environment_id n, sb_pod_template = ns_pod_template n,
    sb_pin_node = ns_pin_node n, sb_idle_after_s = ns_idle_after_s n, sb_address = [],
    sb_tenant_job = ns_tenant_job n, sb_log_labels = ns_log_labels n\<rparr>"

definition new_row_checks :: "new_sandbox \<Rightarrow> bool" where
  "new_row_checks n = (Valid (ns_id n) \<and> 1 \<le> ns_vcpus n \<and> ns_vcpus n \<le> 32
    \<and> 256 \<le> ns_memory_mib n \<and> ns_memory_mib n \<le> 65536
    \<and> (case ns_idle_after_s n of None \<Rightarrow> True | Some s \<Rightarrow> 0 \<le> s))"

text \<open>\<open>CreateSandbox\<close>: the new row and \<open>True\<close>, or the existing one and \<open>False\<close>. Its second and third
  attempts, for a row deleted between the insert and the read, do not arise in one step.\<close>

definition CreateSandbox :: "gotime \<Rightarrow> uuid \<Rightarrow> new_sandbox \<Rightarrow> registry \<Rightarrow> err + registry \<times> sandbox \<times> bool" where
  "CreateSandbox now inc n db =
    (case get_row (db_sandboxes db) (ns_id n) of
       Some r \<Rightarrow> Inr (db, r, False)
     | None \<Rightarrow>
         if \<not> new_row_checks n then Inl ErrCheck
         else if get_row (db_tenants db) (ns_owner n) = None then Inl ErrForeignKey
         else let r = new_row n inc now in
           Inr (Notify chanSandbox (ns_id n) (db\<lparr>db_sandboxes := put_row (ns_id n) r (db_sandboxes db)\<rparr>), r, True))"

text \<open>\<open>CreateMintedSandbox\<close>: a bounded number of freshly minted IDs, each with the row \<open>mk\<close> makes of
  it; \<open>draws\<close> are the IDs \<open>podid.Mint\<close> gives.\<close>

fun create_minted :: "gotime \<Rightarrow> uuid \<Rightarrow> (podID \<Rightarrow> new_sandbox) \<Rightarrow> podID list \<Rightarrow> registry \<Rightarrow> err + registry \<times> sandbox" where
  "create_minted now inc mk [] db = Inl (ErrColumn ''new IDs in a row were taken'')"
| "create_minted now inc mk (i # draws) db =
    (if ns_id (mk i) \<noteq> i then Inl (ErrColumn ''the new row names another ID'')
     else case CreateSandbox now inc (mk i) db of
       Inl e \<Rightarrow> Inl e
     | Inr (db', r, created) \<Rightarrow> if created then Inr (db', r) else create_minted now inc mk draws db)"

definition mintAttempts :: nat where "mintAttempts = 8"

definition CreateMintedSandbox :: "gotime \<Rightarrow> uuid \<Rightarrow> (podID \<Rightarrow> new_sandbox) \<Rightarrow> podID list \<Rightarrow> registry \<Rightarrow> err + registry \<times> sandbox" where
  "CreateMintedSandbox now inc mk draws db = create_minted now inc mk (take mintAttempts draws) db"

text \<open>\<open>DeleteSandbox\<close>: the row, with its booking and holds, which cascade.\<close>

definition DeleteSandbox :: "podID \<Rightarrow> registry \<Rightarrow> registry \<times> bool" where
  "DeleteSandbox i db =
    (case get_row (db_sandboxes db) i of
       None \<Rightarrow> (db, False)
     | Some _ \<Rightarrow>
         (Notify chanSandbox i (db\<lparr>
            db_sandboxes := del_row i (db_sandboxes db),
            db_bookings := del_row i (db_bookings db),
            db_holds := del_rows (\<lambda>(s, h) _. s = i) (db_holds db)\<rparr>), True))"

definition by_id :: "sandbox list \<Rightarrow> sandbox list" where
  "by_id rs = sort_by (\<lambda>a b. sb_id a < sb_id b) rs"

definition rows_where :: "(sandbox \<Rightarrow> bool) \<Rightarrow> registry \<Rightarrow> sandbox list" where
  "rows_where P db = filter P (map snd (db_sandboxes db))"

definition ListSandboxes :: "string \<Rightarrow> registry \<Rightarrow> sandbox list" where
  "ListSandboxes owner db =
    sort_by (\<lambda>a b. sb_created_at a < sb_created_at b \<or> (sb_created_at a = sb_created_at b \<and> sb_id a < sb_id b))
      (if owner = [] then rows_where (\<lambda>_. True) db
       else rows_where (\<lambda>s. sb_owner s = owner \<and> sb_environment_id s = uuid_nil \<and> \<not> sb_tenant_job s) db)"

definition LockSandboxesOfOwner :: "string \<Rightarrow> nat \<Rightarrow> registry \<Rightarrow> sandbox list" where
  "LockSandboxesOfOwner owner limit db = take limit (by_id (rows_where (\<lambda>s. sb_owner s = owner) db))"

definition CountSandboxesOfOwner :: "string \<Rightarrow> registry \<Rightarrow> nat" where
  "CountSandboxesOfOwner owner db = length (rows_where (\<lambda>s. sb_owner s = owner) db)"

definition SandboxesOfNode :: "string \<Rightarrow> registry \<Rightarrow> sandbox list" where
  "SandboxesOfNode n db = by_id (rows_where (\<lambda>s. n \<noteq> [] \<and> (sb_node s = n \<or> sb_lost_from s = n)) db)"

definition CountSandboxesOnNode :: "string \<Rightarrow> registry \<Rightarrow> nat" where
  "CountSandboxesOnNode n db = length (rows_where (\<lambda>s. n \<noteq> [] \<and> sb_node s = n) db)"

definition SteadyPods :: "string \<Rightarrow> registry \<Rightarrow> (podID \<times> client_state) list" where
  "SteadyPods n db = map (\<lambda>s. (sb_id s, sb_client_state s))
    (by_id (rows_where (\<lambda>s. n \<noteq> [] \<and> sb_node s = n \<and> sb_op s = None
      \<and> sb_client_state s \<in> {StateRunning, StatePaused}) db))"

subsection \<open>TAP devices\<close>

definition tapHolds :: "sandbox \<Rightarrow> bool" where
  "tapHolds s = (sb_client_state s \<notin> {StateHibernated, StatePending, StateLost} \<or> sb_op s \<noteq> None)"

definition tapShares :: "podID \<Rightarrow> podID \<Rightarrow> bool" where
  "tapShares i other = (length i = 36 \<and> length other = 36 \<and> take 8 other = take 8 i \<and> other \<noteq> i)"

definition tap_conflicts :: "string \<Rightarrow> podID \<Rightarrow> registry \<Rightarrow> podID list" where
  "tap_conflicts n i db = map sb_id (by_id (rows_where
    (\<lambda>s. n \<noteq> [] \<and> sb_node s = n \<and> tapShares i (sb_id s) \<and> tapHolds s) db))"

text \<open>\<open>TAPConflict\<close> of the store: the first such sandbox, or the empty ID.\<close>

definition StoreTAPConflict :: "string \<Rightarrow> podID \<Rightarrow> registry \<Rightarrow> podID" where
  "StoreTAPConflict n i db =
    (if \<not> IsLegacy i then []
     else case tap_conflicts n i db of [] \<Rightarrow> [] | other # _ \<Rightarrow> other)"

subsection \<open>Writes of a row\<close>

text \<open>\<open>sandboxWritable\<close>: the columns \<open>UpdateSandbox\<close> writes, each with its lifecycle flag and whether
  two rows agree on it.\<close>

definition sandboxWritable :: "(string \<times> bool \<times> (sandbox \<Rightarrow> sandbox \<Rightarrow> bool)) list" where
  "sandboxWritable = [
    (''incarnation'', True, \<lambda>a b. sb_incarnation a = sb_incarnation b),
    (''image_ref'', False, \<lambda>a b. sb_image_ref a = sb_image_ref b),
    (''client_state'', True, \<lambda>a b. sb_client_state a = sb_client_state b),
    (''status_description'', False, \<lambda>a b. sb_status_description a = sb_status_description b),
    (''node'', True, \<lambda>a b. sb_node a = sb_node b),
    (''materialised'', True, \<lambda>a b. sb_materialised a = sb_materialised b),
    (''lost_from'', False, \<lambda>a b. sb_lost_from a = sb_lost_from b),
    (''avoid_nodes'', False, \<lambda>a b. sb_avoid_nodes a = sb_avoid_nodes b),
    (''op'', True, \<lambda>a b. sb_op a = sb_op b),
    (''op_id'', True, \<lambda>a b. sb_op_id a = sb_op_id b),
    (''op_owner'', True, \<lambda>a b. sb_op_owner a = sb_op_owner b),
    (''op_deadline'', True, \<lambda>a b. sb_op_deadline a = sb_op_deadline b),
    (''op_target'', True, \<lambda>a b. sb_op_target a = sb_op_target b),
    (''op_from_state'', True, \<lambda>a b. sb_op_from_state a = sb_op_from_state b),
    (''checkpoint_epoch'', True, \<lambda>a b. sb_checkpoint_epoch a = sb_checkpoint_epoch b),
    (''checkpoint_head'', True, \<lambda>a b. sb_checkpoint_head a = sb_checkpoint_head b),
    (''checkpoint_memory'', True, \<lambda>a b. sb_checkpoint_memory a = sb_checkpoint_memory b),
    (''checkpoint_at'', True, \<lambda>a b. sb_checkpoint_at a = sb_checkpoint_at b),
    (''checkpoint_store'', True, \<lambda>a b. sb_checkpoint_store a = sb_checkpoint_store b),
    (''pending_since'', False, \<lambda>a b. sb_pending_since a = sb_pending_since b),
    (''unreachable_since'', False, \<lambda>a b. sb_unreachable_since a = sb_unreachable_since b),
    (''run_id'', False, \<lambda>a b. sb_run_id a = sb_run_id b),
    (''kube_version'', False, \<lambda>a b. sb_kube_version a = sb_kube_version b),
    (''ssh_version'', False, \<lambda>a b. sb_ssh_version a = sb_ssh_version b),
    (''last_active_at'', False, \<lambda>a b. sb_last_active_at a = sb_last_active_at b),
    (''paused_at'', False, \<lambda>a b. sb_paused_at a = sb_paused_at b),
    (''policy_failed'', False, \<lambda>a b. sb_policy_failed a = sb_policy_failed b),
    (''policy_failures'', False, \<lambda>a b. sb_policy_failures a = sb_policy_failures b),
    (''policy_not_before'', False, \<lambda>a b. sb_policy_not_before a = sb_policy_not_before b),
    (''pin_node'', False, \<lambda>a b. sb_pin_node a = sb_pin_node b),
    (''idle_after_s'', False, \<lambda>a b. sb_idle_after_s a = sb_idle_after_s b),
    (''address'', False, \<lambda>a b. sb_address a = sb_address b)]"

definition sandboxFixed :: "(string \<times> (sandbox \<Rightarrow> sandbox \<Rightarrow> bool)) list" where
  "sandboxFixed = [
    (''owner'', \<lambda>a b. sb_owner a = sb_owner b),
    (''image'', \<lambda>a b. sb_image a = sb_image b),
    (''vcpus'', \<lambda>a b. sb_vcpus a = sb_vcpus b),
    (''memory_mib'', \<lambda>a b. sb_memory_mib a = sb_memory_mib b),
    (''gen'', \<lambda>a b. sb_gen a = sb_gen b),
    (''created_at'', \<lambda>a b. sb_created_at a = sb_created_at b),
    (''updated_at'', \<lambda>a b. sb_updated_at a = sb_updated_at b),
    (''environment_id'', \<lambda>a b. sb_environment_id a = sb_environment_id b),
    (''pod_template'', \<lambda>a b. sb_pod_template a = sb_pod_template b),
    (''tenant_job'', \<lambda>a b. sb_tenant_job a = sb_tenant_job b),
    (''log_labels'', \<lambda>a b. sb_log_labels a = sb_log_labels b)]"

text \<open>One column of the \<open>UPDATE\<close>: set to \<open>after\<close>'s value where it differs from \<open>before\<close>'s, else what
  the row has.\<close>

definition pick :: "(sandbox \<Rightarrow> 'a) \<Rightarrow> sandbox \<Rightarrow> sandbox \<Rightarrow> sandbox \<Rightarrow> 'a" where
  "pick c before after cur = (if c before = c after then c cur else c after)"

definition write_columns :: "sandbox \<Rightarrow> sandbox \<Rightarrow> sandbox \<Rightarrow> sandbox" where
  "write_columns before after cur = cur\<lparr>
    sb_incarnation := pick sb_incarnation before after cur,
    sb_image_ref := pick sb_image_ref before after cur,
    sb_client_state := pick sb_client_state before after cur,
    sb_status_description := pick sb_status_description before after cur,
    sb_node := pick sb_node before after cur,
    sb_materialised := pick sb_materialised before after cur,
    sb_lost_from := pick sb_lost_from before after cur,
    sb_avoid_nodes := pick sb_avoid_nodes before after cur,
    sb_op := pick sb_op before after cur,
    sb_op_id := pick sb_op_id before after cur,
    sb_op_owner := pick sb_op_owner before after cur,
    sb_op_deadline := pick sb_op_deadline before after cur,
    sb_op_target := pick sb_op_target before after cur,
    sb_op_from_state := pick sb_op_from_state before after cur,
    sb_checkpoint_epoch := pick sb_checkpoint_epoch before after cur,
    sb_checkpoint_head := pick sb_checkpoint_head before after cur,
    sb_checkpoint_memory := pick sb_checkpoint_memory before after cur,
    sb_checkpoint_at := pick sb_checkpoint_at before after cur,
    sb_checkpoint_store := pick sb_checkpoint_store before after cur,
    sb_pending_since := pick sb_pending_since before after cur,
    sb_unreachable_since := pick sb_unreachable_since before after cur,
    sb_run_id := pick sb_run_id before after cur,
    sb_kube_version := pick sb_kube_version before after cur,
    sb_ssh_version := pick sb_ssh_version before after cur,
    sb_last_active_at := pick sb_last_active_at before after cur,
    sb_paused_at := pick sb_paused_at before after cur,
    sb_policy_failed := pick sb_policy_failed before after cur,
    sb_policy_failures := pick sb_policy_failures before after cur,
    sb_policy_not_before := pick sb_policy_not_before before after cur,
    sb_pin_node := pick sb_pin_node before after cur,
    sb_idle_after_s := pick sb_idle_after_s before after cur,
    sb_address := pick sb_address before after cur\<rparr>"

definition fixed_diff :: "sandbox \<Rightarrow> sandbox \<Rightarrow> string option" where
  "fixed_diff before after = map_option fst (List.find (\<lambda>(_, eq). \<not> eq before after) sandboxFixed)"

definition differs :: "sandbox \<Rightarrow> sandbox \<Rightarrow> bool" where
  "differs before after = list_ex (\<lambda>(_, _, eq). \<not> eq before after) sandboxWritable"

definition lifecycle_write :: "sandbox \<Rightarrow> sandbox \<Rightarrow> bool" where
  "lifecycle_write before after = list_ex (\<lambda>(_, lc, eq). lc \<and> \<not> eq before after) sandboxWritable"

definition described :: "sandbox \<Rightarrow> sandbox \<Rightarrow> bool" where
  "described before after = (sb_status_description before \<noteq> sb_status_description after)"

definition node_ref :: "string \<Rightarrow> registry \<Rightarrow> bool" where
  "node_ref n db = (n = [] \<or> get_row (db_nodes db) n \<noteq> None)"

text \<open>The row as the statement leaves it: the columns, \<open>gen\<close> and \<open>updated_at\<close>.\<close>

definition written_row :: "gotime \<Rightarrow> sandbox \<Rightarrow> sandbox \<Rightarrow> sandbox \<Rightarrow> sandbox" where
  "written_row now before after cur =
    (let lc = lifecycle_write before after; r = write_columns before after cur in
     r\<lparr>sb_gen := (if lc then sb_gen r + 1 else sb_gen r),
       sb_updated_at := (if lc \<or> described before after then now else sb_updated_at r)\<rparr>)"

definition UpdateSandbox :: "gotime \<Rightarrow> sandbox \<Rightarrow> sandbox \<Rightarrow> registry \<Rightarrow> err + registry \<times> sandbox" where
  "UpdateSandbox now before after db =
    (if sb_id before \<noteq> sb_id after then Inl (ErrColumn ''id'')
     else case fixed_diff before after of
       Some c \<Rightarrow> Inl (ErrColumn c)
     | None \<Rightarrow>
         if \<not> differs before after then Inr (db, before)
         else (case get_row (db_sandboxes db) (sb_id before) of
           None \<Rightarrow> Inl ErrStale
         | Some cur \<Rightarrow>
             if sb_gen cur \<noteq> sb_gen before \<or> sb_incarnation cur \<noteq> sb_incarnation before then Inl ErrStale
             else let w = written_row now before after cur in
               if (sb_op w = None) \<noteq> (sb_op_id w = uuid_nil) then Inl ErrCheck
               else if \<not> node_ref (sb_node w) db \<or> \<not> node_ref (sb_lost_from w) db then Inl ErrForeignKey
               else let db' = db\<lparr>db_sandboxes := put_row (sb_id before) w (db_sandboxes db)\<rparr> in
                 Inr (if lifecycle_write before after then Notify chanSandbox (sb_id before) db' else db', w)))"

text \<open>Writes of single columns, which bump no \<open>gen\<close>: \<open>update_one\<close> is an \<open>UPDATE \<dots> WHERE id = $1 AND P\<close>
  with whether it matched.\<close>

definition update_one :: "podID \<Rightarrow> (sandbox \<Rightarrow> bool) \<Rightarrow> (sandbox \<Rightarrow> sandbox) \<Rightarrow> registry \<Rightarrow> registry \<times> bool" where
  "update_one i P f db =
    (case get_row (db_sandboxes db) i of
       None \<Rightarrow> (db, False)
     | Some r \<Rightarrow> if P r then (db\<lparr>db_sandboxes := put_row i (f r) (db_sandboxes db)\<rparr>, True) else (db, False))"

definition groupMember :: "sandbox \<Rightarrow> bool" where
  "groupMember s = (sb_environment_id s \<noteq> uuid_nil \<or> HasGroups s)"

definition SetSandboxAddress :: "podID \<Rightarrow> uuid \<Rightarrow> string \<Rightarrow> registry \<Rightarrow> registry \<times> bool" where
  "SetSandboxAddress i inc address db =
    (case update_one i (\<lambda>s. sb_incarnation s = inc \<and> sb_address s \<noteq> address) (sb_address_update (\<lambda>_. address)) db of
       (db', wrote) \<Rightarrow>
         (if wrote \<and> (case get_row (db_sandboxes db) i of Some s \<Rightarrow> groupMember s | None \<Rightarrow> False)
          then Notify ChanLeader HintEnvGroups db' else db', wrote))"

definition TouchSandbox :: "gotime \<Rightarrow> podID \<Rightarrow> registry \<Rightarrow> registry" where
  "TouchSandbox now i db = fst (update_one i (\<lambda>_. True) (sb_last_active_at_update (\<lambda>_. now)) db)"

definition MarkUnreachable :: "gotime \<Rightarrow> podID \<Rightarrow> registry \<Rightarrow> registry \<times> bool" where
  "MarkUnreachable now i db = update_one i (\<lambda>s. sb_client_state s = StateRunning)
    (\<lambda>s. s\<lparr>sb_unreachable_since := (if sb_unreachable_since s = 0 then now else sb_unreachable_since s)\<rparr>) db"

definition ClearUnreachable :: "podID \<Rightarrow> registry \<Rightarrow> registry" where
  "ClearUnreachable i db = fst (update_one i (\<lambda>s. sb_unreachable_since s \<noteq> 0) (sb_unreachable_since_update (\<lambda>_. 0)) db)"

definition MarkPending :: "gotime \<Rightarrow> podID \<Rightarrow> uuid \<Rightarrow> registry \<Rightarrow> registry \<times> bool" where
  "MarkPending now i inc db = update_one i (\<lambda>s. sb_incarnation s = inc)
    (\<lambda>s. s\<lparr>sb_pending_since := (if sb_pending_since s = 0 then now else sb_pending_since s)\<rparr>) db"

definition SetStatusDescription :: "gotime \<Rightarrow> podID \<Rightarrow> uuid \<Rightarrow> string \<Rightarrow> registry \<Rightarrow> registry" where
  "SetStatusDescription now i inc desc db = fst (update_one i
    (\<lambda>s. sb_incarnation s = inc \<and> sb_status_description s \<noteq> desc)
    (\<lambda>s. s\<lparr>sb_status_description := desc, sb_updated_at := now\<rparr>) db)"

definition ClearRunIDs :: "podID list \<Rightarrow> registry \<Rightarrow> registry" where
  "ClearRunIDs ids db =
    (if ids = [] then db
     else db\<lparr>db_sandboxes := map_rows (\<lambda>i s. i \<in> set ids \<and> sb_run_id s \<noteq> []) (sb_run_id_update (\<lambda>_. [])) (db_sandboxes db)\<rparr>)"

section \<open>Lemmas on the writes of a row\<close>

lemma pick_self [simp]: "pick c b a b = c a"
  by (simp add: pick_def)

lemma fixed_diff_None:
  "fixed_diff b a = None \<longleftrightarrow> sb_owner b = sb_owner a \<and> sb_image b = sb_image a \<and> sb_vcpus b = sb_vcpus a \<and>
    sb_memory_mib b = sb_memory_mib a \<and> sb_gen b = sb_gen a \<and> sb_created_at b = sb_created_at a \<and>
    sb_updated_at b = sb_updated_at a \<and> sb_environment_id b = sb_environment_id a \<and>
    sb_pod_template b = sb_pod_template a \<and> sb_tenant_job b = sb_tenant_job a \<and> sb_log_labels b = sb_log_labels a"
  by (auto simp: fixed_diff_def find_None_iff sandboxFixed_def)

text \<open>The row \<open>UpdateSandbox\<close> writes over the row it was given: the writable columns are \<open>after\<close>'s.\<close>

lemma written_row_writable [simp, row_simps]:
  "sb_incarnation (written_row now b a b) = sb_incarnation a"
  "sb_image_ref (written_row now b a b) = sb_image_ref a"
  "sb_client_state (written_row now b a b) = sb_client_state a"
  "sb_status_description (written_row now b a b) = sb_status_description a"
  "sb_node (written_row now b a b) = sb_node a"
  "sb_materialised (written_row now b a b) = sb_materialised a"
  "sb_lost_from (written_row now b a b) = sb_lost_from a"
  "sb_avoid_nodes (written_row now b a b) = sb_avoid_nodes a"
  "sb_op (written_row now b a b) = sb_op a"
  "sb_op_id (written_row now b a b) = sb_op_id a"
  "sb_op_owner (written_row now b a b) = sb_op_owner a"
  "sb_op_deadline (written_row now b a b) = sb_op_deadline a"
  "sb_op_target (written_row now b a b) = sb_op_target a"
  "sb_op_from_state (written_row now b a b) = sb_op_from_state a"
  "sb_checkpoint_epoch (written_row now b a b) = sb_checkpoint_epoch a"
  "sb_checkpoint_head (written_row now b a b) = sb_checkpoint_head a"
  "sb_checkpoint_memory (written_row now b a b) = sb_checkpoint_memory a"
  "sb_checkpoint_at (written_row now b a b) = sb_checkpoint_at a"
  "sb_checkpoint_store (written_row now b a b) = sb_checkpoint_store a"
  "sb_pending_since (written_row now b a b) = sb_pending_since a"
  "sb_unreachable_since (written_row now b a b) = sb_unreachable_since a"
  "sb_run_id (written_row now b a b) = sb_run_id a"
  "sb_last_active_at (written_row now b a b) = sb_last_active_at a"
  "sb_paused_at (written_row now b a b) = sb_paused_at a"
  "sb_policy_failed (written_row now b a b) = sb_policy_failed a"
  "sb_policy_failures (written_row now b a b) = sb_policy_failures a"
  "sb_policy_not_before (written_row now b a b) = sb_policy_not_before a"
  "sb_pin_node (written_row now b a b) = sb_pin_node a"
  "sb_address (written_row now b a b) = sb_address a"
  by (simp_all add: written_row_def write_columns_def Let_def)

lemma written_row_fixed [simp, row_simps]:
  "sb_id (written_row now b a c) = sb_id c"
  "sb_owner (written_row now b a c) = sb_owner c"
  "sb_image (written_row now b a c) = sb_image c"
  "sb_vcpus (written_row now b a c) = sb_vcpus c"
  "sb_memory_mib (written_row now b a c) = sb_memory_mib c"
  "sb_created_at (written_row now b a c) = sb_created_at c"
  "sb_environment_id (written_row now b a c) = sb_environment_id c"
  "sb_pod_template (written_row now b a c) = sb_pod_template c"
  "sb_tenant_job (written_row now b a c) = sb_tenant_job c"
  "sb_log_labels (written_row now b a c) = sb_log_labels c"
  "sb_gen (written_row now b a c) = (if lifecycle_write b a then sb_gen c + 1 else sb_gen c)"
  by (simp_all add: written_row_def write_columns_def Let_def)

lemma not_differs_written:
  assumes "\<not> differs b a"
  shows "written_row now b a b = b"
  using assms
  by (intro sandbox.equality)
    (simp_all add: written_row_def write_columns_def Let_def differs_def lifecycle_write_def described_def sandboxWritable_def)

text \<open>A successful \<open>UpdateSandbox\<close> of the row as the transaction has it: the row becomes \<^const>\<open>written_row\<close>
  of it, and only the sandboxes and the notifications change.\<close>

lemma UpdateSandbox_current:
  assumes "UpdateSandbox now b a db = Inr (db', w)" and "get_row (db_sandboxes db) (sb_id b) = Some b"
  shows "w = written_row now b a b" and "fixed_diff b a = None" and "sb_id a = sb_id b"
    and "\<exists>t ns. db' = db\<lparr>db_sandboxes := t, db_notified := ns\<rparr> \<and> get_row t = (get_row (db_sandboxes db))(sb_id b \<mapsto> w)
      \<and> (keyed (db_sandboxes db) \<longrightarrow> keyed t)"
    and "differs b a \<Longrightarrow> (sb_op a = None) = (sb_op_id a = uuid_nil) \<and> node_ref (sb_node a) db \<and> node_ref (sb_lost_from a) db"
proof -
  note upd = assms(1) [unfolded UpdateSandbox_def]
  show "fixed_diff b a = None" "sb_id a = sb_id b"
    using upd by (auto split: if_splits option.splits)
  show w: "w = written_row now b a b"
    using upd assms(2) by (auto simp: not_differs_written Let_def split: if_splits option.splits)
  have noop: "db' = db \<and> w = b" if "\<not> differs b a"
    using upd that by (auto split: if_splits option.splits)
  have wr: "\<exists>ns. db' = db\<lparr>db_sandboxes := put_row (sb_id b) w (db_sandboxes db), db_notified := ns\<rparr>" if "differs b a"
    using upd that assms(2) by (auto simp: Let_def Notify_def split: if_splits option.splits intro: exI [of _ "db_notified db"])
  show "\<exists>t ns. db' = db\<lparr>db_sandboxes := t, db_notified := ns\<rparr> \<and> get_row t = (get_row (db_sandboxes db))(sb_id b \<mapsto> w)
      \<and> (keyed (db_sandboxes db) \<longrightarrow> keyed t)"
  proof (cases "differs b a")
    case True
    then show ?thesis using wr by (auto simp: fun_eq_iff)
  next
    case False
    then have "db' = db\<lparr>db_sandboxes := db_sandboxes db, db_notified := db_notified db\<rparr>" "w = b" using noop by auto
    then show ?thesis using assms(2) by (metis fun_upd_triv)
  qed
  show "(sb_op a = None) = (sb_op_id a = uuid_nil) \<and> node_ref (sb_node a) db \<and> node_ref (sb_lost_from a) db" if "differs b a"
    using upd that assms(2) by (auto simp: Let_def split: if_splits option.splits)
qed

end
