(* ===== verification/Store_Books.thy ===== *)
theory Store_Books
  imports Store
begin

text \<open>
  The store's operations on bookings, tombstones and holds, the engine's rechecks and the sweeps, from
  \<open>go/internal/store/bookings.go\<close>, \<open>tombstones.go\<close>, \<open>holds.go\<close>, \<open>sandbox_engine.go\<close> and the last part of
  \<open>sandboxes.go\<close>. The rows another transaction has locked, which a \<open>SKIP LOCKED\<close> statement leaves out,
  are an argument. The sums of bookings that the capacity gates compare are treated in \<open>Invariant\<close>.
\<close>

section \<open>Bookings\<close>

definition GetBooking :: "podID \<Rightarrow> registry \<Rightarrow> err + booking" where
  "GetBooking i db = (case get_row (db_bookings db) i of None \<Rightarrow> Inl ErrNoRow | Some b \<Rightarrow> Inr b)"

definition UpsertBooking :: "gotime \<Rightarrow> podID \<Rightarrow> string \<Rightarrow> int \<Rightarrow> int \<Rightarrow> bool \<Rightarrow> registry \<Rightarrow> err + registry" where
  "UpsertBooking now i n vcpus mem gated db =
    (if get_row (db_sandboxes db) i = None \<or> get_row (db_nodes db) n = None
     then Inl (Kind ErrNotFound ''no such sandbox'')
     else Inr (db\<lparr>db_bookings := put_row i
       \<lparr>b_node = n, b_vcpus = vcpus, b_memory_mib = mem, b_gated = gated, b_booked_at = now\<rparr> (db_bookings db)\<rparr>))"

definition DeleteBooking :: "podID \<Rightarrow> registry \<Rightarrow> registry \<times> bool" where
  "DeleteBooking i db = (db\<lparr>db_bookings := del_row i (db_bookings db)\<rparr>, get_row (db_bookings db) i \<noteq> None)"

definition ListBookings :: "string \<Rightarrow> registry \<Rightarrow> (podID \<times> booking) list" where
  "ListBookings n db = sort_by
    (\<lambda>(i, a) (j, b). b_booked_at a < b_booked_at b \<or> (b_booked_at a = b_booked_at b \<and> i < j))
    (filter (\<lambda>(_, b). b_node b = n) (all_rows (db_bookings db)))"

record booking_sums =
  bs_count :: int
  bs_vcpus :: int
  bs_memory_mib :: int

definition SumBookings :: "string \<Rightarrow> podID \<Rightarrow> registry \<Rightarrow> booking_sums" where
  "SumBookings n exclude db =
    (let bs = map snd (filter (\<lambda>(i, b). b_node b = n \<and> i \<noteq> exclude) (all_rows (db_bookings db))) in
     \<lparr>bs_count = int (length bs), bs_vcpus = (\<Sum>b\<leftarrow>bs. b_vcpus b), bs_memory_mib = (\<Sum>b\<leftarrow>bs. b_memory_mib b)\<rparr>)"

section \<open>Tombstones\<close>

definition GetTombstone :: "tombstone_key \<Rightarrow> registry \<Rightarrow> err + tombstone" where
  "GetTombstone k db = (case get_row (db_tombstones db) k of None \<Rightarrow> Inl ErrNoRow | Some t \<Rightarrow> Inr t)"

text \<open>\<open>UpsertTombstone\<close>: a \<open>not_before\<close> of 0 is \<open>now()\<close>; an existing tombstone keeps all but its
  \<open>not_before\<close>.\<close>

definition UpsertTombstone :: "gotime \<Rightarrow> tombstone_key \<Rightarrow> string \<Rightarrow> gotime \<Rightarrow> registry \<Rightarrow> err + registry" where
  "UpsertTombstone now k reason not_before db =
    (case k of (i, n, inc) \<Rightarrow>
      if get_row (db_nodes db) n = None then Inl ErrForeignKey
      else if \<not> Valid i then Inl ErrCheck
      else let nb = (if not_before = 0 then now else not_before);
               t = (case get_row (db_tombstones db) k of
                      None \<Rightarrow> \<lparr>ts_reason = reason, ts_created_at = now, ts_not_before = nb, ts_attempts = 0,
                        ts_last_error = [], ts_last_attempt_at = 0\<rparr>
                    | Some t \<Rightarrow> t\<lparr>ts_not_before := nb\<rparr>)
           in Inr (db\<lparr>db_tombstones := put_row k t (db_tombstones db)\<rparr>))"

definition DeleteTombstone :: "tombstone_key \<Rightarrow> registry \<Rightarrow> registry \<times> bool" where
  "DeleteTombstone k db = (db\<lparr>db_tombstones := del_row k (db_tombstones db)\<rparr>, get_row (db_tombstones db) k \<noteq> None)"

definition HasTombstone :: "podID \<Rightarrow> string \<Rightarrow> registry \<Rightarrow> bool" where
  "HasTombstone i n db = list_ex (\<lambda>((j, m, _), _). j = i \<and> m = n) (all_rows (db_tombstones db))"

definition TombstonedNodes :: "podID \<Rightarrow> registry \<Rightarrow> string list" where
  "TombstonedNodes i db = sort_by (<) (remdups
    (map (\<lambda>((_, m, _), _). m) (filter (\<lambda>((j, _, _), _). j = i) (all_rows (db_tombstones db)))))"

definition DueTombstones :: "gotime \<Rightarrow> string list \<Rightarrow> nat \<Rightarrow> registry \<Rightarrow> (tombstone_key \<times> tombstone) list" where
  "DueTombstones now nodes limit db = take limit (sort_by
    (\<lambda>((i, _), s) ((j, _), t). ts_not_before s < ts_not_before t \<or> (ts_not_before s = ts_not_before t \<and> i < j))
    (filter (\<lambda>((_, n, _), t). n \<in> set nodes \<and> ts_not_before t \<le> now) (all_rows (db_tombstones db))))"

definition DueTombstone :: "gotime \<Rightarrow> tombstone_key \<Rightarrow> registry \<Rightarrow> err + tombstone \<times> bool" where
  "DueTombstone now k db =
    (case get_row (db_tombstones db) k of None \<Rightarrow> Inl ErrNoRow | Some t \<Rightarrow> Inr (t, ts_not_before t \<le> now))"

definition NoteTombstoneAttempt :: "gotime \<Rightarrow> tombstone_key \<Rightarrow> string \<Rightarrow> registry \<Rightarrow> registry" where
  "NoteTombstoneAttempt now k e db =
    db\<lparr>db_tombstones := map_rows (\<lambda>k' _. k' = k)
      (\<lambda>t. t\<lparr>ts_attempts := ts_attempts t + 1, ts_last_error := e, ts_last_attempt_at := now\<rparr>) (db_tombstones db)\<rparr>"

definition DropRemovedNodeTombstones :: "(tombstone_key \<Rightarrow> bool) \<Rightarrow> nat \<Rightarrow> registry \<Rightarrow> registry \<times> (tombstone_key \<times> tombstone) list" where
  "DropRemovedNodeTombstones locked limit db =
    (let dropped = take limit (sort_by (\<lambda>((i, n, _), _) ((j, m, _), _). n < m \<or> (n = m \<and> i < j))
        (filter (\<lambda>((i, n, inc), _). \<not> locked (i, n, inc) \<and>
            (case get_row (db_nodes db) n of Some nd \<Rightarrow> n_status nd = NodeRemoved | None \<Rightarrow> False))
          (all_rows (db_tombstones db)))) in
     (db\<lparr>db_tombstones := del_rows (\<lambda>k _. k \<in> set (map fst dropped)) (db_tombstones db)\<rparr>, dropped))"

section \<open>Holds\<close>

definition InstanceHolder :: "string \<Rightarrow> hold_kind \<Rightarrow> string" where
  "InstanceHolder inst k = inst @ '':'' @ hold_kind_text k"

definition ProcessHolder :: "string \<Rightarrow> string" where
  "ProcessHolder pid = ''process:'' @ pid"

definition upsertHold :: "gotime \<Rightarrow> podID \<Rightarrow> string \<Rightarrow> hold_kind \<Rightarrow> string \<Rightarrow> duration \<Rightarrow> registry \<Rightarrow> err + registry" where
  "upsertHold now i holder k inst lease db =
    (if get_row (db_sandboxes db) i = None then Inl (Kind ErrNotFound ''no such sandbox'')
     else Inr (db\<lparr>db_holds := put_row (i, holder)
       \<lparr>ho_kind = k, ho_instance_id = inst, ho_lease_until = (if lease \<le> 0 then None else Some (now + interval lease))\<rparr>
       (db_holds db)\<rparr>))"

definition RenewHold :: "gotime \<Rightarrow> podID \<Rightarrow> hold_kind \<Rightarrow> string \<Rightarrow> duration \<Rightarrow> registry \<Rightarrow> err + registry" where
  "RenewHold now i k inst lease db = upsertHold now i (InstanceHolder inst k) k inst lease db"

definition AdmitHold :: "gotime \<Rightarrow> podID \<Rightarrow> hold_kind \<Rightarrow> string \<Rightarrow> duration \<Rightarrow> registry \<Rightarrow> err + registry" where
  "AdmitHold now i k inst lease db = bindE (RenewHold now i k inst lease db) (\<lambda>db'. Inr (TouchSandbox now i db'))"

definition ReleaseHold :: "gotime \<Rightarrow> podID \<Rightarrow> hold_kind \<Rightarrow> string \<Rightarrow> registry \<Rightarrow> registry" where
  "ReleaseHold now i k inst db = TouchSandbox now i (db\<lparr>db_holds := del_row (i, InstanceHolder inst k) (db_holds db)\<rparr>)"

definition StoreHoldProcess :: "gotime \<Rightarrow> podID \<Rightarrow> string \<Rightarrow> duration \<Rightarrow> registry \<Rightarrow> err + registry" where
  "StoreHoldProcess now i pid lease db = upsertHold now i (ProcessHolder pid) HoldProcess [] lease db"

definition ReleaseProcessHold :: "podID \<Rightarrow> string \<Rightarrow> registry \<Rightarrow> registry \<times> bool" where
  "ReleaseProcessHold i pid db =
    (db\<lparr>db_holds := del_row (i, ProcessHolder pid) (db_holds db)\<rparr>, get_row (db_holds db) (i, ProcessHolder pid) \<noteq> None)"

definition DeleteProcessHolds :: "podID \<Rightarrow> registry \<Rightarrow> registry" where
  "DeleteProcessHolds i db = db\<lparr>db_holds := del_rows (\<lambda>(s, _) h. s = i \<and> ho_kind h = HoldProcess) (db_holds db)\<rparr>"

definition hold_live :: "gotime \<Rightarrow> hold \<Rightarrow> bool" where
  "hold_live now h = (case ho_lease_until h of None \<Rightarrow> True | Some u \<Rightarrow> u > now)"

definition HasLiveHold :: "gotime \<Rightarrow> podID \<Rightarrow> hold_kind list \<Rightarrow> registry \<Rightarrow> bool" where
  "HasLiveHold now i kinds db = list_ex (\<lambda>((s, _), h). s = i \<and> hold_live now h \<and> (kinds = [] \<or> ho_kind h \<in> set kinds))
    (all_rows (db_holds db))"

definition DeleteExpiredHolds :: "gotime \<Rightarrow> registry \<Rightarrow> registry" where
  "DeleteExpiredHolds now db =
    db\<lparr>db_holds := del_rows (\<lambda>_ h. case ho_lease_until h of None \<Rightarrow> False | Some u \<Rightarrow> u < now) (db_holds db)\<rparr>"

section \<open>Instances\<close>

definition InstanceTTL :: duration where "InstanceTTL = 15 * second"

definition instanceFresh :: "gotime \<Rightarrow> instance_row \<Rightarrow> bool" where
  "instanceFresh now r = (in_last_seen r > now - InstanceTTL)"

definition instanceLive :: "gotime \<Rightarrow> instance_row \<Rightarrow> bool" where
  "instanceLive now r = (instanceFresh now r \<and> in_stopping r = 0)"

definition InstanceLive :: "gotime \<Rightarrow> string \<Rightarrow> registry \<Rightarrow> bool" where
  "InstanceLive now i db = (case get_row (db_instances db) i of None \<Rightarrow> False | Some r \<Rightarrow> instanceLive now r)"

definition UpsertInstance :: "gotime \<Rightarrow> string \<Rightarrow> string \<Rightarrow> string \<Rightarrow> string \<Rightarrow> registry \<Rightarrow> registry" where
  "UpsertInstance now i address node_address version db =
    db\<lparr>db_instances := put_row i
      (case get_row (db_instances db) i of
         None \<Rightarrow> \<lparr>in_address = address, in_node_address = node_address, in_version = version,
           in_started_at = now, in_last_seen = now, in_stopping = 0\<rparr>
       | Some r \<Rightarrow> r\<lparr>in_address := address, in_node_address := node_address, in_version := version, in_last_seen := now\<rparr>)
      (db_instances db)\<rparr>"

definition SetInstanceStopping :: "gotime \<Rightarrow> string \<Rightarrow> registry \<Rightarrow> registry" where
  "SetInstanceStopping now i db =
    db\<lparr>db_instances := map_rows (\<lambda>j _. j = i)
      (\<lambda>r. r\<lparr>in_stopping := (if in_stopping r = 0 then now else in_stopping r)\<rparr>) (db_instances db)\<rparr>"

definition DeleteInstance :: "string \<Rightarrow> registry \<Rightarrow> registry" where
  "DeleteInstance i db = db\<lparr>db_instances := del_row i (db_instances db)\<rparr>"

definition DeleteStaleInstances :: "gotime \<Rightarrow> duration \<Rightarrow> registry \<Rightarrow> registry" where
  "DeleteStaleInstances now older db =
    db\<lparr>db_instances := del_rows (\<lambda>_ r. in_last_seen r < now - interval older) (db_instances db)\<rparr>"

section \<open>The release of an instance's ops\<close>

text \<open>The row of a released op, with its description.\<close>

definition release_row :: "gotime \<Rightarrow> string \<Rightarrow> sandbox \<Rightarrow> sandbox" where
  "release_row now desc s = s\<lparr>sb_op := None, sb_op_id := uuid_nil, sb_op_owner := [], sb_op_deadline := 0,
    sb_op_target := [], sb_op_from_state := None, sb_client_state := StateUnknown,
    sb_status_description := desc, sb_gen := sb_gen s + 1, sb_updated_at := now\<rparr>"

definition op_column :: "sandbox \<Rightarrow> string" where
  "op_column s = (case sb_op s of None \<Rightarrow> [] | Some k \<Rightarrow> op_text k)"

definition release_ops :: "gotime \<Rightarrow> string \<Rightarrow> (sandbox \<Rightarrow> string) \<Rightarrow> registry \<Rightarrow> registry \<times> podID list" where
  "release_ops now inst desc db =
    (let P = (\<lambda>s. sb_op_owner s = inst \<and> sb_op s \<noteq> None);
         ids = map sb_id (rows_where P db) in
     (notifySandboxes ids (db\<lparr>db_sandboxes := map_rows (\<lambda>_ s. P s) (\<lambda>s. release_row now (desc s) s) (db_sandboxes db)\<rparr>), ids))"

definition ReleaseOpsOf :: "gotime \<Rightarrow> string \<Rightarrow> registry \<Rightarrow> registry \<times> podID list" where
  "ReleaseOpsOf now inst db = release_ops now inst
    (\<lambda>s. ''op '' @ op_column s @ '' of stopping instance '' @ inst @ '' was released'') db"

text \<open>\<open>ClaimInstance\<close> without the tool calls it ends: the claim is refused (\<open>None\<close>) while the row of
  the ID was written within the TTL.\<close>

definition ClaimInstance :: "gotime \<Rightarrow> string \<Rightarrow> string \<Rightarrow> string \<Rightarrow> string \<Rightarrow> registry \<Rightarrow> (registry \<times> podID list) option" where
  "ClaimInstance now i address node_address version db =
    (if (case get_row (db_instances db) i of None \<Rightarrow> False | Some r \<Rightarrow> instanceFresh now r) then None
     else Some (release_ops now i
       (\<lambda>s. ''op '' @ op_column s @ '' of instance '' @ i @ '' was released: the instance started again'')
       (db\<lparr>db_instances := put_row i \<lparr>in_address = address, in_node_address = node_address, in_version = version,
          in_started_at = now, in_last_seen = now, in_stopping = 0\<rparr> (db_instances db)\<rparr>)))"

section \<open>The sweeps of down nodes\<close>

text \<open>\<open>rfc3339 t\<close> is \<open>t\<close> as PostgreSQL's \<open>to_char\<close> and Go's \<open>Format\<close> render it, a parameter.\<close>

definition nodeDownSince :: "gotime \<Rightarrow> (gotime \<Rightarrow> string) \<Rightarrow> node \<Rightarrow> string" where
  "nodeDownSince now rfc3339 n = rfc3339
    (if n_down_since n \<noteq> 0 then n_down_since n else if n_removed_at n \<noteq> 0 then n_removed_at n else now)"

definition down_candidate :: "registry \<Rightarrow> sandbox \<Rightarrow> bool" where
  "down_candidate db s = ((case get_row (db_nodes db) (sb_node s) of
       Some n \<Rightarrow> sb_node s \<noteq> [] \<and> n_status n \<in> {NodeDown, NodeRemoved} | None \<Rightarrow> False)
     \<and> sb_op s = None
     \<and> sb_client_state s \<in> {StateRunning, StatePaused, StateCreating, StateStopped, StateFailed})"

definition down_row :: "gotime \<Rightarrow> (gotime \<Rightarrow> string) \<Rightarrow> registry \<Rightarrow> sandbox \<Rightarrow> sandbox" where
  "down_row now rfc3339 db s =
    (case get_row (db_nodes db) (sb_node s) of
       None \<Rightarrow> s
     | Some n \<Rightarrow> s\<lparr>sb_client_state := StateUnknown,
         sb_status_description := ''node '' @ n_name n @ '' down since '' @ nodeDownSince now rfc3339 n
           @ ''; it was '' @ state_text (sb_client_state s),
         sb_gen := sb_gen s + 1, sb_updated_at := now\<rparr>)"

definition DownSweep :: "gotime \<Rightarrow> (gotime \<Rightarrow> string) \<Rightarrow> (podID \<Rightarrow> bool) \<Rightarrow> nat \<Rightarrow> registry \<Rightarrow> registry \<times> podID list" where
  "DownSweep now rfc3339 locked limit db =
    (let ids = take limit (map sb_id (by_id (rows_where (\<lambda>s. down_candidate db s \<and> \<not> locked (sb_id s)) db))) in
     (notifySandboxes ids
       (db\<lparr>db_sandboxes := map_rows (\<lambda>i _. i \<in> set ids) (down_row now rfc3339 db) (db_sandboxes db)\<rparr>), ids))"

definition lost_candidate :: "gotime \<Rightarrow> duration \<Rightarrow> registry \<Rightarrow> sandbox \<Rightarrow> bool" where
  "lost_candidate now grace db s = (sb_client_state s = StateUnknown \<and> sb_op s = None \<and> sb_node s \<noteq> [] \<and>
    (case get_row (db_nodes db) (sb_node s) of
       None \<Rightarrow> False
     | Some n \<Rightarrow> n_status n = NodeRemoved
         \<or> (n_status n = NodeDown \<and> n_down_since n \<noteq> 0 \<and> n_down_since n < now - interval grace)))"

definition lost_row :: "gotime \<Rightarrow> (gotime \<Rightarrow> string) \<Rightarrow> registry \<Rightarrow> sandbox \<Rightarrow> sandbox" where
  "lost_row now rfc3339 db s =
    (case get_row (db_nodes db) (sb_node s) of
       None \<Rightarrow> s
     | Some n \<Rightarrow>
         let checkpoint = HasCheckpoint s; kept = (checkpoint \<or> sb_materialised s) in
         s\<lparr>sb_client_state := (if checkpoint then StateHibernated else if kept then StateLost else StatePending),
           sb_node := (if kept then sb_node s else []),
           sb_lost_from := (if kept then sb_node s else []),
           sb_pending_since := 0, sb_address := [],
           sb_status_description := ''node '' @ n_name n @ '' down since '' @ nodeDownSince now rfc3339 n @
             (if checkpoint then ''; restored from the checkpoint of '' @
                rfc3339 (if sb_checkpoint_at s \<noteq> 0 then sb_checkpoint_at s else now) @ '' on the next use''
              else if kept then []
              else ''; its pod was never seen there; created on the next use''),
           sb_gen := sb_gen s + 1, sb_updated_at := now\<rparr>)"

definition LostGrace :: "gotime \<Rightarrow> (gotime \<Rightarrow> string) \<Rightarrow> (podID \<Rightarrow> bool) \<Rightarrow> duration \<Rightarrow> nat \<Rightarrow> registry \<Rightarrow> registry \<times> sandbox list" where
  "LostGrace now rfc3339 locked grace limit db =
    (let old = take limit (by_id (rows_where (\<lambda>s. lost_candidate now grace db s \<and> \<not> locked (sb_id s)) db));
         ids = map sb_id old;
         db1 = db\<lparr>db_sandboxes := map_rows (\<lambda>i _. i \<in> set ids) (lost_row now rfc3339 db) (db_sandboxes db)\<rparr>;
         db2 = (if list_ex (\<lambda>s. sb_address s \<noteq> [] \<and> groupMember s) old then Notify ChanLeader HintEnvGroups db1 else db1)
     in if old = [] then (db, [])
        else (notifySandboxes ids (db2\<lparr>
            db_bookings := del_rows (\<lambda>i _. i \<in> set ids) (db_bookings db2),
            db_holds := del_rows (\<lambda>(i, _) h. i \<in> set ids \<and> ho_kind h = HoldProcess) (db_holds db2)\<rparr>), old))"

section \<open>Rechecks and candidates\<close>

definition policyDue :: "gotime \<Rightarrow> policy \<Rightarrow> sandbox \<Rightarrow> bool" where
  "policyDue now p s = (sb_policy_failed s \<noteq> p \<or> sb_policy_not_before s = 0 \<or> sb_policy_not_before s \<le> now)"

definition idleAfter :: "duration \<Rightarrow> sandbox \<Rightarrow> duration" where
  "idleAfter idle s = (case sb_idle_after_s s of Some n \<Rightarrow> n * second | None \<Rightarrow> interval idle)"

definition idleOn :: "duration \<Rightarrow> sandbox \<Rightarrow> bool" where
  "idleOn idle s = (case sb_idle_after_s s of Some n \<Rightarrow> n > 0 | None \<Rightarrow> interval idle > 0)"

definition ingressFence :: "gotime \<Rightarrow> registry \<Rightarrow> sandbox \<Rightarrow> bool" where
  "ingressFence now db s = (\<not> (list_ex (\<lambda>g. ig_joined g \<and> ig_mesh_address g \<noteq> [] \<and> ig_left_at g = 0
      \<and> ig_last_seen g < now - 45 * second \<and> ig_last_seen g > now - 15 * 60 * second) (db_ingresses db)
    \<and> sb_id s \<in> set (db_public_services db)))"

definition attachedAwake :: "gotime \<Rightarrow> registry \<Rightarrow> sandbox \<Rightarrow> bool" where
  "attachedAwake now db s = list_ex (\<lambda>a. at_sandbox_id a = sb_id s \<and> at_process_id a \<noteq> []
      \<and> at_sandbox_incarnation a = sb_incarnation s
      \<and> ((at_awake_until a \<noteq> 0 \<and> at_awake_until a > now)
         \<or> (case at_idle_after_s a of None \<Rightarrow> False
            | Some n \<Rightarrow> n = 0 \<or> sb_last_active_at s > now - n * second))) (db_attached db)"

definition idle_due :: "gotime \<Rightarrow> duration \<Rightarrow> registry \<Rightarrow> sandbox \<Rightarrow> bool" where
  "idle_due now idle db s = (sb_client_state s = StateRunning \<and> sb_op s = None \<and> idleOn idle s
    \<and> sb_last_active_at s < now - idleAfter idle s \<and> policyDue now PolicyIdle s \<and> ingressFence now db s
    \<and> \<not> attachedAwake now db s)"

definition recheck :: "(sandbox \<Rightarrow> bool) \<Rightarrow> podID \<Rightarrow> registry \<Rightarrow> bool" where
  "recheck P i db = (case get_row (db_sandboxes db) i of None \<Rightarrow> False | Some s \<Rightarrow> P s)"

definition IdleRecheck :: "gotime \<Rightarrow> podID \<Rightarrow> duration \<Rightarrow> registry \<Rightarrow> bool" where
  "IdleRecheck now i idle db = recheck (idle_due now idle db) i db"

definition HibernateAfterRecheck :: "gotime \<Rightarrow> podID \<Rightarrow> duration \<Rightarrow> registry \<Rightarrow> bool" where
  "HibernateAfterRecheck now i after db = recheck (\<lambda>s. sb_client_state s = StatePaused \<and> sb_op s = None
    \<and> sb_paused_at s \<noteq> 0 \<and> sb_paused_at s < now - interval after \<and> policyDue now PolicyHibernateAfter s) i db"

definition stuck :: "gotime \<Rightarrow> duration \<Rightarrow> duration \<Rightarrow> sandbox \<Rightarrow> bool" where
  "stuck now pending unreachable s = (sb_op s = None \<and>
    ((sb_client_state s = StateCreating \<and> sb_pending_since s \<noteq> 0 \<and> sb_pending_since s < now - interval pending)
     \<or> (sb_client_state s = StateRunning \<and> sb_unreachable_since s \<noteq> 0
        \<and> sb_unreachable_since s < now - interval unreachable)))"

definition RepairRecheck :: "gotime \<Rightarrow> podID \<Rightarrow> duration \<Rightarrow> duration \<Rightarrow> registry \<Rightarrow> bool" where
  "RepairRecheck now i pending unreachable db = recheck (stuck now pending unreachable) i db"

definition StaleOps :: "gotime \<Rightarrow> duration \<Rightarrow> nat \<Rightarrow> registry \<Rightarrow> sandbox list" where
  "StaleOps now overdue limit db = take limit (sort_by (\<lambda>a b. sb_op_deadline a < sb_op_deadline b)
    (rows_where (\<lambda>s. sb_op s \<noteq> None \<and> (\<not> InstanceLive now (sb_op_owner s) db
      \<or> (sb_op_deadline s \<noteq> 0 \<and> sb_op_deadline s < now - interval overdue))) db))"

definition IdleSandboxes :: "gotime \<Rightarrow> duration \<Rightarrow> string list \<Rightarrow> nat \<Rightarrow> registry \<Rightarrow> sandbox list" where
  "IdleSandboxes now idle nodes limit db = take limit (sort_by (\<lambda>a b. sb_last_active_at a < sb_last_active_at b)
    (rows_where (\<lambda>s. idle_due now idle db s \<and> sb_node s \<noteq> [] \<and> sb_node s \<in> set nodes
      \<and> \<not> HasLiveHold now (sb_id s) [] db) db))"

definition HibernateCandidates :: "gotime \<Rightarrow> duration \<Rightarrow> string list \<Rightarrow> nat \<Rightarrow> registry \<Rightarrow> sandbox list" where
  "HibernateCandidates now after nodes limit db = take limit (sort_by (\<lambda>a b. sb_paused_at a < sb_paused_at b)
    (rows_where (\<lambda>s. sb_client_state s = StatePaused \<and> sb_op s = None \<and> sb_paused_at s \<noteq> 0
      \<and> sb_paused_at s < now - interval after \<and> sb_node s \<noteq> [] \<and> sb_node s \<in> set nodes
      \<and> (case get_row (db_nodes db) (sb_node s) of None \<Rightarrow> False | Some n \<Rightarrow> n_object_store_id n \<noteq> [])
      \<and> policyDue now PolicyHibernateAfter s) db))"

definition UnknownSandboxes :: "string list \<Rightarrow> nat \<Rightarrow> registry \<Rightarrow> sandbox list" where
  "UnknownSandboxes nodes limit db = take limit (sort_by (\<lambda>a b. sb_updated_at a < sb_updated_at b)
    (rows_where (\<lambda>s. sb_client_state s = StateUnknown \<and> sb_op s = None \<and> sb_node s \<noteq> [] \<and> sb_node s \<in> set nodes
      \<and> (case get_row (db_nodes db) (sb_node s) of None \<Rightarrow> False | Some n \<Rightarrow> n_status n = NodeReady)) db))"

definition RepairCandidates :: "gotime \<Rightarrow> duration \<Rightarrow> duration \<Rightarrow> string list \<Rightarrow> nat \<Rightarrow> registry \<Rightarrow> sandbox list" where
  "RepairCandidates now pending unreachable nodes limit db = take limit (by_id
    (rows_where (\<lambda>s. stuck now pending unreachable s \<and> sb_node s \<noteq> [] \<and> sb_node s \<in> set nodes) db))"

definition PendingWithoutCapacity :: "nat \<Rightarrow> registry \<Rightarrow> sandbox list" where
  "PendingWithoutCapacity limit db = take limit (sort_by (\<lambda>a b. sb_created_at a < sb_created_at b)
    (rows_where (\<lambda>s. sb_client_state s = StatePending \<and> sb_op s = None
      \<and> has_prefix (sb_status_description s) ''no capacity'') db))"

definition SandboxesInState :: "string \<Rightarrow> client_state list \<Rightarrow> nat \<Rightarrow> registry \<Rightarrow> sandbox list" where
  "SandboxesInState n states limit db = take limit (by_id
    (rows_where (\<lambda>s. n \<noteq> [] \<and> sb_node s = n \<and> sb_op s = None \<and> sb_client_state s \<in> set states) db))"

definition CountUnevacuated :: "string \<Rightarrow> registry \<Rightarrow> nat" where
  "CountUnevacuated n db = length (rows_where (\<lambda>s. n \<noteq> [] \<and> sb_node s = n
    \<and> (sb_client_state s \<notin> {StateHibernated, StateLost, StatePending} \<or> sb_op s \<noteq> None)) db)"

definition OpsOf :: "string \<Rightarrow> uuid list \<Rightarrow> (gotime \<times> podID) \<Rightarrow> nat \<Rightarrow> registry \<Rightarrow> sandbox list" where
  "OpsOf inst except cursor limit db = take limit (sort_by
    (\<lambda>a b. sb_op_deadline a < sb_op_deadline b \<or> (sb_op_deadline a = sb_op_deadline b \<and> sb_id a < sb_id b))
    (rows_where (\<lambda>s. sb_op_owner s = inst \<and> sb_op s \<noteq> None \<and> sb_op_id s \<notin> set except
      \<and> (fst cursor = 0 \<or> sb_op_deadline s > fst cursor
         \<or> (sb_op_deadline s = fst cursor \<and> sb_id s > snd cursor))) db))"

definition OpCursor_Next :: "gotime \<times> podID \<Rightarrow> sandbox list \<Rightarrow> gotime \<times> podID" where
  "OpCursor_Next c page = (if page = [] then c else (sb_op_deadline (last page), sb_id (last page)))"

end
