(* ===== verification/Engine.thy ===== *)
theory Engine
  imports Rows
begin

text \<open>
  The engine of one instance, from \<open>go/internal/sandbox/engine.go\<close>: its configuration and the defaults
  \<open>New\<close> fills in, its timings, the deadlines of ops and of a tombstone's delete, the backoff of a policy
  (\<open>finish.go\<close>), and \<open>settled\<close>. What the engine takes from outside is in the records: the texts of UUIDs
  and times, the rounding of a rational to Go's \<open>float64\<close>, and, per transaction, its clock, the nodes
  connected to the instance, and the UUIDs and run IDs it draws.
\<close>

section \<open>Configuration\<close>

record config =
  cfg_instance_id :: string
  cfg_placement :: string
  cfg_disk_budget :: int
  cfg_idle_pause :: duration
  cfg_hibernate_after :: duration
  cfg_lost_grace :: duration
  cfg_node_wait :: duration
  cfg_drain_timeout :: duration
  cfg_pending_repair_after :: duration
  cfg_unreachable_repair_after :: duration
  cfg_hibernate_timeout :: duration

definition PlacementBinpack :: string where "PlacementBinpack = ''binpack''"
definition PlacementSpread :: string where "PlacementSpread = ''spread''"

definition minute :: duration where "minute = 60 * second"
definition hour :: duration where "hour = 60 * minute"

definition defaultDiskBudget :: int where "defaultDiskBudget = 4 * 2 ^ 30"
definition defaultLostGrace :: duration where "defaultLostGrace = 10 * minute"
definition defaultNodeWait :: duration where "defaultNodeWait = 5 * second"
definition defaultDrainTimeout :: duration where "defaultDrainTimeout = hour"
definition defaultPendingRepairAfter :: duration where "defaultPendingRepairAfter = 10 * minute"
definition defaultUnreachableRepairAfter :: duration where "defaultUnreachableRepairAfter = 2 * minute"
definition DefaultHibernateTimeout :: duration where "DefaultHibernateTimeout = hour"

definition or_default :: "int \<Rightarrow> int \<Rightarrow> int" where
  "or_default v d = (if v \<le> 0 then d else v)"

text \<open>The configuration \<open>New\<close> works with; \<open>None\<close> where it refuses.\<close>

definition New :: "config \<Rightarrow> config option" where
  "New cfg =
    (if cfg_instance_id cfg = [] then None
     else if cfg_placement cfg \<notin> {[], PlacementBinpack, PlacementSpread} then None
     else Some (cfg\<lparr>
       cfg_placement := (if cfg_placement cfg = [] then PlacementBinpack else cfg_placement cfg),
       cfg_lost_grace := or_default (cfg_lost_grace cfg) defaultLostGrace,
       cfg_node_wait := or_default (cfg_node_wait cfg) defaultNodeWait,
       cfg_drain_timeout := or_default (cfg_drain_timeout cfg) defaultDrainTimeout,
       cfg_pending_repair_after := or_default (cfg_pending_repair_after cfg) defaultPendingRepairAfter,
       cfg_unreachable_repair_after := or_default (cfg_unreachable_repair_after cfg) defaultUnreachableRepairAfter,
       cfg_hibernate_timeout := or_default (cfg_hibernate_timeout cfg) DefaultHibernateTimeout,
       cfg_disk_budget := or_default (cfg_disk_budget cfg) defaultDiskBudget\<rparr>))"

section \<open>Deadlines\<close>

definition PreparationBudget :: duration where "PreparationBudget = 7 * minute + 5 * second"

definition gib :: "int \<Rightarrow> int" where
  "gib memory_mib = (if memory_mib \<le> 0 then 0 else (memory_mib + 1023) div 1024)"

definition feosdSuspendBudget :: "int \<Rightarrow> duration" where
  "feosdSuspendBudget mem = 190 * second + 5 * second * gib mem"

definition pauseMargin :: duration where "pauseMargin = 30 * second"

definition deadlineFor :: "op_kind \<Rightarrow> int \<Rightarrow> duration \<Rightarrow> duration" where
  "deadlineFor kind mem hibernateTimeout =
    (let g = gib mem in
     case kind of
       OpCreate \<Rightarrow> PreparationBudget
     | OpStart \<Rightarrow> PreparationBudget
     | OpResume \<Rightarrow> PreparationBudget + 8 * second * g
     | OpRestore \<Rightarrow> PreparationBudget + 8 * second * g
     | OpRepair \<Rightarrow> PreparationBudget + 8 * second * g
     | OpPause \<Rightarrow> feosdSuspendBudget mem + pauseMargin
     | OpHibernate \<Rightarrow> feosdSuspendBudget mem + pauseMargin + hibernateTimeout + 16 * second * g)"

definition OpDeadline :: "op_kind \<Rightarrow> int \<Rightarrow> duration" where
  "OpDeadline kind mem = deadlineFor kind mem DefaultHibernateTimeout"

definition tombstoneDeadline :: "duration \<Rightarrow> int \<Rightarrow> duration" where
  "tombstoneDeadline base mem = feosdSuspendBudget mem + pauseMargin + base + 4 * second * gib mem"

section \<open>Timings\<close>

record timings =
  tm_prep_budget :: duration
  tm_op_deadline :: "op_kind \<Rightarrow> int \<Rightarrow> duration"
  tm_finish_min :: duration
  tm_finish_max :: duration
  tm_hold_lease :: duration
  tm_hold_renew :: duration
  tm_process_slack :: duration
  tm_stale_overdue :: duration
  tm_tombstone_get :: duration
  tm_tombstone_base :: duration
  tm_hibernate_wait :: duration
  tm_preempt_recheck :: duration
  tm_orphan_batch :: nat
  tm_policy_backoff_min :: duration
  tm_policy_backoff_max :: duration
  tm_outage_guard :: duration

definition loopBatch :: nat where "loopBatch = 64"
definition fencedBatch :: nat where "fencedBatch = 256"
definition unknownBatch :: nat where "unknownBatch = 128"

definition defaultTimings :: "duration \<Rightarrow> timings" where
  "defaultTimings hibernateTimeout = \<lparr>
    tm_prep_budget = PreparationBudget,
    tm_op_deadline = (\<lambda>kind mem. deadlineFor kind mem hibernateTimeout),
    tm_finish_min = 100 * millisecond, tm_finish_max = 5 * second,
    tm_hold_lease = 30 * second, tm_hold_renew = 10 * second, tm_process_slack = 15 * second,
    tm_stale_overdue = 5 * minute, tm_tombstone_get = 30 * second, tm_tombstone_base = 2 * minute,
    tm_hibernate_wait = 30 * second, tm_preempt_recheck = second, tm_orphan_batch = loopBatch,
    tm_policy_backoff_min = 30 * second, tm_policy_backoff_max = 30 * minute,
    tm_outage_guard = 15 * second\<rparr>"

section \<open>The engine\<close>

record engine =
  e_cfg :: config
  e_id :: string
  e_t :: timings
  e_uuid_text :: "uuid \<Rightarrow> string"
  e_parse_uuid :: "string \<Rightarrow> uuid option"
  e_format_time :: "gotime \<Rightarrow> string"
  e_float64 :: "rat \<Rightarrow> rat"

text \<open>What one transaction of the engine meets: the database's clock and the instance's, the connections of
  the instance, the values \<open>uuid.New\<close> and \<open>newRunID\<close> return in it, and how long ago its op began, as a text.\<close>

record txenv =
  tx_now :: gotime
  tx_clock :: gotime
  tx_connected :: "string \<Rightarrow> bool"
  tx_uuid :: uuid
  tx_run_id :: string
  tx_elapsed :: string

definition rfc3339 :: "engine \<Rightarrow> gotime \<Rightarrow> string" where
  "rfc3339 e t = (if t = 0 then ''an unknown time'' else e_format_time e t)"

section \<open>Backoffs\<close>

fun backoff_loop :: "nat \<Rightarrow> duration \<Rightarrow> duration \<Rightarrow> duration" where
  "backoff_loop 0 d most = d"
| "backoff_loop (Suc k) d most = (if d < most then backoff_loop k (d * 2) most else d)"

definition policyBackoff :: "int \<Rightarrow> duration \<Rightarrow> duration \<Rightarrow> duration" where
  "policyBackoff n least most = min (backoff_loop (nat (n - 1)) least most) most"

text \<open>\<open>settled\<close>: \<open>now\<close> is the instance's clock, \<open>since\<close> and \<open>failure\<close> what \<open>leadingSince\<close> and
  \<open>lastFailure\<close> return.\<close>

definition settled :: "duration \<Rightarrow> gotime \<Rightarrow> gotime \<Rightarrow> gotime \<Rightarrow> bool" where
  "settled guard now since failure =
    (if guard \<le> 0 then True
     else if since = 0 \<or> now - since < guard then False
     else if failure \<noteq> 0 \<and> now - failure < guard then False
     else True)"

section \<open>Lemmas\<close>

lemma gib_nonneg [simp]: "0 \<le> gib m"
  by (auto simp: gib_def pos_imp_zdiv_nonneg_iff)

lemma gib_mono: "a \<le> b \<Longrightarrow> gib a \<le> gib b"
  by (auto simp: gib_def intro: zdiv_mono1)

lemma deadlineFor_pos: "0 \<le> ht \<Longrightarrow> 0 < deadlineFor k m ht"
  using gib_nonneg [of m] by (cases k)
    (simp_all add: deadlineFor_def feosdSuspendBudget_def pauseMargin_def PreparationBudget_def minute_def Let_def
      add_pos_nonneg add_nonneg_pos del: gib_nonneg)

lemma backoff_loop_closed:
  assumes "0 < d"
  shows "min (backoff_loop k d most) most = min (d * 2 ^ k) most"
  using assms
proof (induction k arbitrary: d)
  case (Suc k)
  have "d * 1 \<le> d * 2 ^ Suc k" using Suc.prems by (intro mult_left_mono) (auto simp del: power_Suc)
  then have "most \<le> d \<Longrightarrow> most \<le> d * 2 ^ Suc k" by linarith
  then show ?case using Suc.IH [of "d * 2"] Suc.prems by (cases "d < most") (simp_all add: mult.assoc min_absorb2)
qed simp

lemma policyBackoff_closed:
  "0 < least \<Longrightarrow> policyBackoff n least most = min (least * 2 ^ nat (n - 1)) most"
  using backoff_loop_closed by (simp add: policyBackoff_def)

section \<open>Properties\<close>

text \<open>C25: The backoff of a policy after its nth consecutive failure is the least backoff doubled n - 1
  times, capped at the greatest; it lies between the two bounds and never shrinks with n.\<close>

theorem policyBackoff_bounds:
  assumes "0 < least" and "least \<le> most" and "1 \<le> n"
  shows "policyBackoff n least most = min (least * 2 ^ nat (n - 1)) most \<and>
    least \<le> policyBackoff n least most \<and> policyBackoff n least most \<le> most \<and>
    policyBackoff n least most \<le> policyBackoff (n + 1) least most"
proof -
  have "least * 1 \<le> least * 2 ^ nat (n - 1)" using assms(1) by (intro mult_left_mono) auto
  moreover have "nat (n + 1 - 1) = Suc (nat (n - 1))" using assms(3) by simp
  then have "least * 2 ^ nat (n - 1) \<le> least * 2 ^ nat (n + 1 - 1)" using assms(1) by simp
  ultimately show ?thesis using assms(1,2) by (simp add: policyBackoff_closed min_le_iff_disj)
qed

theorem policyBackoff_bounds_witness:
  "policyBackoff 3 (30 * second) (30 * minute) = 120 * second \<and>
   policyBackoff 3 (30 * second) (30 * minute) \<le> policyBackoff (3 + 1) (30 * second) (30 * minute)"
  using policyBackoff_bounds [of "30 * second" "30 * minute" 3] by (simp add: minute_def)



end
