(* ===== verification/Samples.thy ===== *)
theory Samples
  imports Store_Books Engine
begin

text \<open>
  Concrete values that the witnesses of the other theories evaluate: an engine, two nodes, a sandbox
  before its first use, and a registry with them.
\<close>

definition sample_config :: config where
  "sample_config = \<lparr>cfg_instance_id = ''i1'', cfg_placement = PlacementBinpack, cfg_disk_budget = defaultDiskBudget,
    cfg_idle_pause = 5 * minute, cfg_hibernate_after = hour, cfg_lost_grace = defaultLostGrace,
    cfg_node_wait = defaultNodeWait, cfg_drain_timeout = defaultDrainTimeout,
    cfg_pending_repair_after = defaultPendingRepairAfter,
    cfg_unreachable_repair_after = defaultUnreachableRepairAfter, cfg_hibernate_timeout = DefaultHibernateTimeout\<rparr>"

definition sample_engine :: engine where
  "sample_engine = \<lparr>e_cfg = sample_config, e_id = ''i1'', e_t = defaultTimings DefaultHibernateTimeout,
    e_uuid_text = (\<lambda>u. ''u''), e_parse_uuid = (\<lambda>s. if s = ''five'' then Some 5 else None), e_format_time = (\<lambda>t. ''t''), e_float64 = (\<lambda>x. x)\<rparr>"

definition sample_env :: txenv where
  "sample_env = \<lparr>tx_now = 1000 * second, tx_clock = 1000 * second, tx_connected = (\<lambda>n. True), tx_uuid = 77, tx_run_id = ''run-1'', tx_elapsed = ''1s''\<rparr>"

definition sample_node :: "string \<Rightarrow> node" where
  "sample_node name = \<lparr>n_name = name, n_status = NodeReady, n_status_description = [], n_down_since = 0, n_removed_at = 0,
    n_draining = False, n_drain_started_at = 0, n_slots = 2, n_mem_headroom_bytes = 0, n_cpu_overcommit = 2,
    n_hostname = [], n_arch = [], n_cpu_model = [], n_cpu_cores = 2, n_memory_total_bytes = 2048 * 2 ^ 20,
    n_disk_total_bytes = 0, n_versions = [], n_object_store = True, n_object_store_id = ''s1'', n_pod_prefix = [],
    n_start_id = 1, n_stopping_until = 0, n_current_serial = [], n_identity_forked_at = 0, n_joined_at = second,
    n_reconciled_at = 0, n_reconcile_requested_at = 0, n_mesh_subnet = 0, n_mesh_prefix = [],
    n_mesh_public_key = [], n_mesh_endpoint = [], n_ingress_group_version = 0\<rparr>"

definition sample_telemetry :: telemetry where
  "sample_telemetry = \<lparr>t_last_seen = 999 * second, t_memory_available_bytes = 2048 * 2 ^ 20,
    t_disk_available_bytes = 2 ^ 40, t_inventory_hash = [], t_reconciled_hash = []\<rparr>"

definition sample_new :: "podID \<Rightarrow> new_sandbox" where
  "sample_new i = \<lparr>ns_id = i, ns_owner = ''acme'', ns_image = ''img'', ns_vcpus = 1, ns_memory_mib = 512, ns_image_ref = [],
    ns_environment_id = 0, ns_pod_template = None, ns_pin_node = [], ns_idle_after_s = None, ns_tenant_job = False,
    ns_log_labels = []\<rparr>"

abbreviation sample_pod :: podID where "sample_pod \<equiv> ''a0000000001''"

definition sample_sandbox :: sandbox where
  "sample_sandbox = new_row (sample_new sample_pod) 5 (10 * second)"

definition sample_tenant :: tenant where
  "sample_tenant = \<lparr>tn_created_at = second, tn_deleting_at = 0, tn_zone = [], tn_made_by = 0,
    tn_limits = \<lparr>lim_sandboxes = Some 2, lim_environments = None, lim_running_jobs = None, lim_vcpus = Some 4, lim_memory_mib = None\<rparr>\<rparr>"

definition sample_db :: registry where
  "sample_db = \<lparr>db_sandboxes = [(sample_pod, sample_sandbox)], db_nodes = [(''n1'', sample_node ''n1''), (''n2'', sample_node ''n2'')],
    db_telemetry = [(''n1'', sample_telemetry), (''n2'', sample_telemetry)], db_bookings = [], db_tombstones = [], db_holds = [],
    db_instances = [(''i1'', \<lparr>in_address = [], in_node_address = [], in_version = [], in_started_at = second,
      in_last_seen = 999 * second, in_stopping = 0\<rparr>)],
    db_leases = [], db_tenants = [(''acme'', sample_tenant)], db_attached = [], db_ingresses = [], db_public_services = [],
    db_notified = [], db_tenant_tokens = [(''hash'', ''acme'')], db_environments = [], db_jobs = []\<rparr>"

text \<open>The sandbox running on \<open>n1\<close>, booked there.\<close>

definition sample_running :: sandbox where
  "sample_running = sample_sandbox\<lparr>sb_client_state := StateRunning, sb_node := ''n1'', sb_materialised := True,
    sb_run_id := ''run-0'', sb_gen := 2, sb_status_description := []\<rparr>"

definition sample_running_db :: registry where
  "sample_running_db = sample_db\<lparr>db_sandboxes := [(sample_pod, sample_running)],
    db_bookings := [(sample_pod, \<lparr>b_node = ''n1'', b_vcpus = 1, b_memory_mib = 512, b_gated = True, b_booked_at = 11 * second\<rparr>)]\<rparr>"

lemmas sample_defs = sample_running_def sample_running_db_def sample_config_def sample_engine_def sample_env_def sample_node_def sample_telemetry_def sample_new_def sample_sandbox_def sample_tenant_def sample_db_def new_row_def
  minute_def hour_def defaultDiskBudget_def defaultLostGrace_def defaultNodeWait_def defaultDrainTimeout_def
  defaultPendingRepairAfter_def defaultUnreachableRepairAfter_def DefaultHibernateTimeout_def

end
