(* ===== verification/Leader.thy ===== *)
theory Leader
  imports Samples
begin

text \<open>
  The leader lease (\<open>store/leases.go\<close>) and the elector of an instance (\<open>leader/elector.go\<close>), with the heartbeat
  row that says an instance lives (\<open>leader/heartbeat.go\<close>). The lease is a row with an epoch, which grows on every
  acquisition; an elector leads by its own clock until a deadline that it moves with every renewal. The world at
  the end is the electors of all instances with their statements on the way to the database and the answers on the
  way back, any of which may be late or lost; its reachable states have at most one leader.
\<close>

section \<open>The lease\<close>

definition LeaderLease :: string where "LeaderLease = ''leader''"

text \<open>\<open>ReadLease\<close>: the row and whether it is valid.\<close>

definition ReadLease :: "gotime \<Rightarrow> string \<Rightarrow> registry \<Rightarrow> (lease_row \<times> bool) option" where
  "ReadLease now name db = (case get_row (db_leases db) name of None \<Rightarrow> None | Some l \<Rightarrow> Some (l, now < l_expires_at l))"

definition AcquireLease :: "gotime \<Rightarrow> string \<Rightarrow> string \<Rightarrow> duration \<Rightarrow> registry \<Rightarrow> registry \<times> int option" where
  "AcquireLease now name holder ttl db =
    (let taken = (\<lambda>epoch. \<lparr>l_holder = holder, l_epoch = epoch, l_acquired_at = now, l_renewed_at = now,
           l_expires_at = now + interval ttl\<rparr>);
         put = (\<lambda>l. (db\<lparr>db_leases := put_row name l (db_leases db)\<rparr>, Some (l_epoch l))) in
     case get_row (db_leases db) name of
       None \<Rightarrow> put (taken 1)
     | Some l \<Rightarrow> if l_expires_at l < now then put (taken (l_epoch l + 1)) else (db, None))"

definition lease_held :: "gotime \<Rightarrow> string \<Rightarrow> string \<Rightarrow> int \<Rightarrow> registry \<Rightarrow> bool" where
  "lease_held now name holder epoch db = (case get_row (db_leases db) name of
      None \<Rightarrow> False | Some l \<Rightarrow> l_holder l = holder \<and> l_epoch l = epoch \<and> now < l_expires_at l)"

definition RenewLease :: "gotime \<Rightarrow> string \<Rightarrow> string \<Rightarrow> int \<Rightarrow> duration \<Rightarrow> registry \<Rightarrow> registry \<times> gotime option" where
  "RenewLease now name holder epoch ttl db =
    (if lease_held now name holder epoch db
     then (db\<lparr>db_leases := map_rows (\<lambda>n _. n = name) (\<lambda>l. l\<lparr>l_renewed_at := now, l_expires_at := now + interval ttl\<rparr>) (db_leases db)\<rparr>,
       Some (now + interval ttl))
     else (db, None))"

definition FenceLease :: "gotime \<Rightarrow> string \<Rightarrow> string \<Rightarrow> int \<Rightarrow> registry \<Rightarrow> bool" where
  "FenceLease now name holder epoch db = lease_held now name holder epoch db"

definition ReleaseLease :: "gotime \<Rightarrow> string \<Rightarrow> string \<Rightarrow> int \<Rightarrow> registry \<Rightarrow> registry \<times> bool" where
  "ReleaseLease now name holder epoch db =
    (case get_row (db_leases db) name of
       None \<Rightarrow> (db, False)
     | Some l \<Rightarrow> if l_holder l = holder \<and> l_epoch l = epoch
         then (db\<lparr>db_leases := put_row name (l\<lparr>l_expires_at := now\<rparr>) (db_leases db)\<rparr>, True) else (db, False))"

section \<open>The elector\<close>

definition LeaseTTL :: duration where "LeaseTTL = 15 * second"
definition RenewInterval :: duration where "RenewInterval = 5 * second"
definition StepDownMargin :: duration where "StepDownMargin = 2 * second"
definition StaleInstanceAge :: duration where "StaleInstanceAge = hour"

record leader_term =
  te_epoch :: int
  te_since :: gotime
  te_deadline :: gotime

record elector =
  el_id :: string
  el_ttl :: duration
  el_margin :: duration
  el_term :: "leader_term option"
  el_last :: "leader_term option"
  el_resigned :: bool

definition NewElector :: "string \<Rightarrow> elector" where
  "NewElector i = \<lparr>el_id = i, el_ttl = LeaseTTL, el_margin = StepDownMargin, el_term = None, el_last = None, el_resigned = False\<rparr>"

text \<open>\<open>tryAcquire\<close> up to its send: the read, and whether an acquisition is sent.\<close>

definition tryAcquire :: "gotime \<Rightarrow> registry \<Rightarrow> bool" where
  "tryAcquire now db = (case ReadLease now LeaderLease db of Some (_, True) \<Rightarrow> False | _ \<Rightarrow> True)"

text \<open>\<open>lead\<close> at the start of a term whose acquisition was sent at \<open>sent\<close> (this instance's clock); after a resignation
  there is no term, and the lease is released.\<close>

definition lead :: "int \<Rightarrow> gotime \<Rightarrow> elector \<Rightarrow> elector \<times> bool" where
  "lead epoch sent el =
    (if el_resigned el then (el, True)
     else let t = \<lparr>te_epoch = epoch, te_since = sent, te_deadline = sent + (el_ttl el - el_margin el)\<rparr> in
       (el\<lparr>el_term := Some t, el_last := Some t\<rparr>, False))"

text \<open>A round of \<open>renewLoop\<close> with the answer of the renewal sent at \<open>sent\<close>: \<^term>\<open>None\<close> for an error, else whether the
  lease was still held; a failed one ends the term (\<open>stepDown\<close>).\<close>

definition stepDown :: "elector \<Rightarrow> elector" where
  "stepDown el = el\<lparr>el_term := None\<rparr>"

definition renewed :: "gotime \<Rightarrow> gotime option option \<Rightarrow> elector \<Rightarrow> elector" where
  "renewed sent answer el =
    (case answer of
       Some (Some _) \<Rightarrow> el\<lparr>el_term := map_option (\<lambda>t. t\<lparr>te_deadline := sent + (el_ttl el - el_margin el)\<rparr>) (el_term el),
         el_last := map_option (\<lambda>t. t\<lparr>te_deadline := sent + (el_ttl el - el_margin el)\<rparr>) (el_last el)\<rparr>
     | _ \<Rightarrow> stepDown el)"

definition IsLeader :: "gotime \<Rightarrow> elector \<Rightarrow> bool" where
  "IsLeader clock el = (case el_term el of None \<Rightarrow> False | Some t \<Rightarrow> clock < te_deadline t)"

definition LeadingSince :: "gotime \<Rightarrow> elector \<Rightarrow> gotime" where
  "LeadingSince clock el = (case el_term el of None \<Rightarrow> 0 | Some t \<Rightarrow> if clock < te_deadline t then te_since t else 0)"

text \<open>\<open>Fence\<close> in a transaction at \<open>now\<close>.\<close>

definition Fence :: "gotime \<Rightarrow> gotime \<Rightarrow> elector \<Rightarrow> registry \<Rightarrow> err option" where
  "Fence clock now el db =
    (case el_term el of
       None \<Rightarrow> Some ErrNotLeader
     | Some t \<Rightarrow> if \<not> clock < te_deadline t \<or> \<not> FenceLease now LeaderLease (el_id el) (te_epoch t) db
         then Some ErrNotLeader else None)"

definition Leader :: "gotime \<Rightarrow> registry \<Rightarrow> string \<times> int \<times> gotime" where
  "Leader now db = (case ReadLease now LeaderLease db of
      Some (l, True) \<Rightarrow> (l_holder l, l_epoch l, l_acquired_at l) | _ \<Rightarrow> ([], 0, 0))"

text \<open>\<open>Resign\<close>: no term begins any more; the epoch of the term it waits for and releases, if there was any.\<close>

definition Resign :: "elector \<Rightarrow> elector \<times> int option" where
  "Resign el = (el\<lparr>el_resigned := True\<rparr>,
    map_option te_epoch (case el_term el of Some t \<Rightarrow> Some t | None \<Rightarrow> el_last el))"

text \<open>The loops a hint wakes, by their index.\<close>

definition woken :: "string list \<Rightarrow> string \<Rightarrow> nat list" where
  "woken loops hint =
    (let idx = (if hint \<noteq> [] \<and> hint \<noteq> ''*'' then filter (\<lambda>i. contains (loops ! i) hint) [0..<length loops] else []) in
     if idx = [] then [0..<length loops] else idx)"

section \<open>The heartbeat\<close>

record heartbeat =
  hb_id :: string
  hb_address :: string
  hb_node_address :: string
  hb_version :: string
  hb_removed :: bool

definition beat :: "gotime \<Rightarrow> heartbeat \<Rightarrow> registry \<Rightarrow> registry \<times> bool" where
  "beat now h db = (if hb_removed h then (db, True)
    else (UpsertInstance now (hb_id h) (hb_address h) (hb_node_address h) (hb_version h) db, False))"

definition SetStopping :: "gotime \<Rightarrow> heartbeat \<Rightarrow> registry \<Rightarrow> registry" where
  "SetStopping now h db = (if hb_removed h then db
    else SetInstanceStopping now (hb_id h) (UpsertInstance now (hb_id h) (hb_address h) (hb_node_address h) (hb_version h) db))"

definition Remove :: "heartbeat \<Rightarrow> registry \<Rightarrow> heartbeat \<times> registry" where
  "Remove h db = (h\<lparr>hb_removed := True\<rparr>, DeleteInstance (hb_id h) db)"

definition deleteStaleInstances :: "gotime \<Rightarrow> registry \<Rightarrow> registry" where
  "deleteStaleInstances now db = DeleteStaleInstances now StaleInstanceAge db"

definition OwnerLive :: "gotime \<Rightarrow> string \<Rightarrow> registry \<Rightarrow> bool" where
  "OwnerLive now i db = InstanceLive now i db"

section \<open>The world of the electors\<close>

text \<open>The statements on their way to the database, and the answers on their way back: an acquisition and a renewal
  carry when they were sent on their instance's clock. An answer to a renewal says whether the lease was held.\<close>

datatype request =
    ReqAcquire string gotime
  | ReqRenew string int gotime
  | ReqRelease string int

datatype answer =
    AnsAcquire string gotime "int option"
  | AnsRenew string int gotime "gotime option"

record world =
  w_now :: gotime
  w_db :: registry
  w_electors :: "string \<Rightarrow> elector"
  w_requests :: "request list"
  w_answers :: "answer list"

definition set_elector :: "string \<Rightarrow> elector \<Rightarrow> world \<Rightarrow> world" where
  "set_elector i el w = w\<lparr>w_electors := (w_electors w)(i := el)\<rparr>"

text \<open>The database runs a statement.\<close>

definition serve :: "duration \<Rightarrow> request \<Rightarrow> world \<Rightarrow> world" where
  "serve ttl rq w = (case rq of
      ReqAcquire i sent \<Rightarrow> (case AcquireLease (w_now w) LeaderLease i ttl (w_db w) of
        (db, r) \<Rightarrow> w\<lparr>w_db := db, w_answers := AnsAcquire i sent r # w_answers w\<rparr>)
    | ReqRenew i ep sent \<Rightarrow> (case RenewLease (w_now w) LeaderLease i ep ttl (w_db w) of
        (db, r) \<Rightarrow> w\<lparr>w_db := db, w_answers := AnsRenew i ep sent r # w_answers w\<rparr>)
    | ReqRelease i ep \<Rightarrow> w\<lparr>w_db := fst (ReleaseLease (w_now w) LeaderLease i ep (w_db w))\<rparr>)"

text \<open>The steps of the world. \<open>clk i t\<close> is the clock of instance \<open>i\<close> when the database's is at \<open>t\<close>.\<close>

inductive wstep :: "(string \<Rightarrow> gotime \<Rightarrow> gotime) \<Rightarrow> duration \<Rightarrow> world \<Rightarrow> world \<Rightarrow> bool"
  for clk :: "string \<Rightarrow> gotime \<Rightarrow> gotime" and ttl :: duration where
  tick: "0 \<le> d \<Longrightarrow> wstep clk ttl w (w\<lparr>w_now := w_now w + d\<rparr>)"
| acquire: "el_term (w_electors w i) = None \<Longrightarrow> \<not> el_resigned (w_electors w i) \<Longrightarrow> tryAcquire (w_now w) (w_db w) \<Longrightarrow>
    wstep clk ttl w (w\<lparr>w_requests := ReqAcquire i (clk i (w_now w)) # w_requests w\<rparr>)"
| renew: "el_term (w_electors w i) = Some t \<Longrightarrow>
    wstep clk ttl w (w\<lparr>w_requests := ReqRenew i (te_epoch t) (clk i (w_now w)) # w_requests w\<rparr>)"
| release: "el_term (w_electors w i) = None \<Longrightarrow> el_resigned (w_electors w i) \<Longrightarrow>
    wstep clk ttl w (w\<lparr>w_requests := ReqRelease i ep # w_requests w\<rparr>)"
| serve: "rq \<in> set (w_requests w) \<Longrightarrow> wstep clk ttl w (serve ttl rq (w\<lparr>w_requests := remove1 rq (w_requests w)\<rparr>))"
| lose_request: "wstep clk ttl w (w\<lparr>w_requests := remove1 rq (w_requests w)\<rparr>)"
| lose_answer: "wstep clk ttl w (w\<lparr>w_answers := remove1 a (w_answers w)\<rparr>)"
| acquired: "AnsAcquire i sent (Some ep) \<in> set (w_answers w) \<Longrightarrow> el_term (w_electors w i) = None \<Longrightarrow>
    wstep clk ttl w (set_elector i (fst (lead ep sent (w_electors w i)))
      (w\<lparr>w_answers := remove1 (AnsAcquire i sent (Some ep)) (w_answers w)\<rparr>))"
| renewal: "AnsRenew i ep sent r \<in> set (w_answers w) \<Longrightarrow> el_term (w_electors w i) = Some t \<Longrightarrow> te_epoch t = ep \<Longrightarrow>
    wstep clk ttl w (set_elector i (renewed sent (Some r) (w_electors w i))
      (w\<lparr>w_answers := remove1 (AnsRenew i ep sent r) (w_answers w)\<rparr>))"
| step_down: "wstep clk ttl w (set_elector i (stepDown (w_electors w i)) w)"
| resign: "wstep clk ttl w (set_elector i (fst (Resign (w_electors w i))) w)"
| others: "get_row (db_leases db) LeaderLease = get_row (db_leases (w_db w)) LeaderLease \<Longrightarrow> wstep clk ttl w (w\<lparr>w_db := db\<rparr>)"

text \<open>A world before any instance has competed.\<close>

definition fresh_world :: "duration \<Rightarrow> duration \<Rightarrow> world \<Rightarrow> bool" where
  "fresh_world ttl margin w = (w_requests w = [] \<and> w_answers w = []
    \<and> (\<forall>i. el_id (w_electors w i) = i \<and> el_ttl (w_electors w i) = ttl \<and> el_margin (w_electors w i) = margin
      \<and> el_term (w_electors w i) = None))"

text \<open>The clocks keep the step-down margin: none goes back, and over the TTL of a lease none falls behind the
  database's by more than the margin.\<close>

definition clocks_keep :: "duration \<Rightarrow> duration \<Rightarrow> (string \<Rightarrow> gotime \<Rightarrow> gotime) \<Rightarrow> bool" where
  "clocks_keep ttl margin clk = (\<forall>i s t. s \<le> t \<longrightarrow> clk i s \<le> clk i t \<and> clk i s + (ttl - margin) \<le> clk i (s + ttl))"

section \<open>The invariant of the world\<close>

text \<open>A grant of the lease to \<open>i\<close> in \<open>ep\<close> by a statement sent at \<open>s\<close> (the database's clock): the row still says so, for
  as long as the TTL from the send, or that time is over.\<close>

definition granted :: "duration \<Rightarrow> world \<Rightarrow> string \<Rightarrow> int \<Rightarrow> gotime \<Rightarrow> bool" where
  "granted ttl w i ep s = (s \<le> w_now w \<and> (s + ttl < w_now w \<or>
    (\<exists>l. get_row (db_leases (w_db w)) LeaderLease = Some l \<and> l_holder l = i \<and> l_epoch l = ep \<and> s + ttl \<le> l_expires_at l)))"

definition out :: "world \<Rightarrow> string \<Rightarrow> bool" where
  "out w i = (el_resigned (w_electors w i) \<and> el_term (w_electors w i) = None)"

definition request_ok :: "(string \<Rightarrow> gotime \<Rightarrow> gotime) \<Rightarrow> world \<Rightarrow> request \<Rightarrow> bool" where
  "request_ok clk w rq = (case rq of
      ReqAcquire i sent \<Rightarrow> \<exists>s \<le> w_now w. sent = clk i s
    | ReqRenew i ep sent \<Rightarrow> \<exists>s \<le> w_now w. sent = clk i s
    | ReqRelease i ep \<Rightarrow> out w i)"

definition answer_ok :: "(string \<Rightarrow> gotime \<Rightarrow> gotime) \<Rightarrow> duration \<Rightarrow> world \<Rightarrow> answer \<Rightarrow> bool" where
  "answer_ok clk ttl w a = (case a of
      AnsAcquire i sent (Some ep) \<Rightarrow> out w i \<or> (\<exists>s. sent = clk i s \<and> granted ttl w i ep s)
    | AnsRenew i ep sent (Some x) \<Rightarrow> out w i \<or> (\<exists>s. sent = clk i s \<and> granted ttl w i ep s)
    | _ \<Rightarrow> True)"

definition elector_ok :: "(string \<Rightarrow> gotime \<Rightarrow> gotime) \<Rightarrow> duration \<Rightarrow> duration \<Rightarrow> world \<Rightarrow> string \<Rightarrow> bool" where
  "elector_ok clk ttl margin w i = (el_id (w_electors w i) = i \<and> el_ttl (w_electors w i) = ttl \<and> el_margin (w_electors w i) = margin
    \<and> (\<forall>t. el_term (w_electors w i) = Some t \<longrightarrow>
      (\<exists>s. te_deadline t = clk i s + (ttl - margin) \<and> granted ttl w i (te_epoch t) s)))"

definition world_inv :: "(string \<Rightarrow> gotime \<Rightarrow> gotime) \<Rightarrow> duration \<Rightarrow> duration \<Rightarrow> world \<Rightarrow> bool" where
  "world_inv clk ttl margin w = (interval ttl = ttl \<and> (\<forall>rq \<in> set (w_requests w). request_ok clk w rq)
    \<and> (\<forall>a \<in> set (w_answers w). answer_ok clk ttl w a) \<and> (\<forall>i. elector_ok clk ttl margin w i))"

text \<open>What a step keeps for an instance other than the one it is about.\<close>

definition keeps :: "duration \<Rightarrow> world \<Rightarrow> world \<Rightarrow> bool" where
  "keeps ttl w w' = (w_now w \<le> w_now w' \<and> (\<forall>i. out w i \<longrightarrow> out w' i)
    \<and> (\<forall>i ep s. granted ttl w i ep s \<longrightarrow> granted ttl w' i ep s \<or> out w' i))"

lemma keeps_ok:
  assumes "keeps ttl w w'"
  shows "request_ok clk w rq \<Longrightarrow> request_ok clk w' rq" "answer_ok clk ttl w a \<Longrightarrow> answer_ok clk ttl w' a"
proof -
  show "request_ok clk w rq \<Longrightarrow> request_ok clk w' rq"
    using assms unfolding request_ok_def keeps_def by (cases rq) (auto intro: order_trans)
  show "answer_ok clk ttl w a \<Longrightarrow> answer_ok clk ttl w' a"
    using assms unfolding answer_ok_def keeps_def by (cases a) (force split: option.splits)+
qed

text \<open>A step that keeps what was granted, and of which the requests, answers and the one elector it changes are all
  right, keeps the invariant.\<close>

lemma world_inv_step:
  assumes inv: "world_inv clk ttl margin w" and k: "keeps ttl w w'"
    and rq: "\<And>rq. rq \<in> set (w_requests w') \<Longrightarrow> rq \<in> set (w_requests w) \<or> request_ok clk w' rq"
    and an: "\<And>a. a \<in> set (w_answers w') \<Longrightarrow> a \<in> set (w_answers w) \<or> answer_ok clk ttl w' a"
    and el: "\<And>i. w_electors w' i = w_electors w i \<or> elector_ok clk ttl margin w' i"
  shows "world_inv clk ttl margin w'"
proof -
  have "elector_ok clk ttl margin w' i" for i
  proof (cases "w_electors w' i = w_electors w i")
    case True
    then have "\<not> out w' i" if "el_term (w_electors w' i) = Some t" for t using that by (simp add: out_def)
    then show ?thesis using inv k True unfolding world_inv_def elector_ok_def keeps_def by metis
  qed (use el in blast)
  then show ?thesis using inv keeps_ok [OF k] rq an unfolding world_inv_def by blast
qed

lemma keeps_same:
  assumes "w_now w \<le> w_now w'" "get_row (db_leases (w_db w')) LeaderLease = get_row (db_leases (w_db w)) LeaderLease"
    and "\<And>i. out w i \<Longrightarrow> out w' i"
  shows "keeps ttl w w'"
  using assms unfolding keeps_def granted_def by auto

subsection \<open>The database's part\<close>

text \<open>The row after an acquisition, a renewal and a release.\<close>

lemma AcquireLease_cases:
  assumes "AcquireLease now name i ttl db = (db', r)"
  obtains (refused) l where "r = None" "db' = db" "get_row (db_leases db) name = Some l" "now \<le> l_expires_at l"
  | (taken) l' where "r = Some (l_epoch l')" "get_row (db_leases db') name = Some l'" "l_holder l' = i"
      "l_expires_at l' = now + interval ttl" "l_acquired_at l' = now"
      "case get_row (db_leases db) name of None \<Rightarrow> l_epoch l' = 1 | Some l \<Rightarrow> l_epoch l' = l_epoch l + 1 \<and> l_expires_at l < now"
  using assms by (auto simp: AcquireLease_def Let_def split: option.splits if_splits)

lemma RenewLease_cases:
  assumes "RenewLease now name i ep ttl db = (db', r)"
  obtains (lost) "r = None" "db' = db"
  | (held) l where "r = Some (now + interval ttl)" "get_row (db_leases db) name = Some l" "l_holder l = i" "l_epoch l = ep"
      "now < l_expires_at l"
      "get_row (db_leases db') name = Some (l\<lparr>l_renewed_at := now, l_expires_at := now + interval ttl\<rparr>)"
  using assms by (auto simp: RenewLease_def lease_held_def split: option.splits if_splits)

lemma ReleaseLease_cases:
  obtains (other) "ReleaseLease now name i ep db = (db, False)"
  | (held) l where "get_row (db_leases db) name = Some l" "l_holder l = i" "l_epoch l = ep"
      "ReleaseLease now name i ep db = (db\<lparr>db_leases := put_row name (l\<lparr>l_expires_at := now\<rparr>) (db_leases db)\<rparr>, True)"
proof (cases "get_row (db_leases db) name")
  case None
  then show ?thesis by (intro other) (simp add: ReleaseLease_def)
next
  case (Some l)
  then show ?thesis
    by (cases "l_holder l = i \<and> l_epoch l = ep") (auto simp: ReleaseLease_def intro: other held)
qed

lemma serve_keeps:
  assumes ttl: "interval ttl = ttl" and rq: "request_ok clk w rq"
  shows "keeps ttl w (serve ttl rq w)"
proof (cases rq)
  case (ReqAcquire i sent)
  obtain db' r where a: "AcquireLease (w_now w) LeaderLease i ttl (w_db w) = (db', r)" by fastforce
  then show ?thesis
    by (cases rule: AcquireLease_cases)
      (auto simp: ReqAcquire serve_def a keeps_def out_def granted_def ttl split: option.splits)
next
  case (ReqRenew i ep sent)
  obtain db' r where a: "RenewLease (w_now w) LeaderLease i ep ttl (w_db w) = (db', r)" by fastforce
  then show ?thesis
    by (cases rule: RenewLease_cases) (auto simp: ReqRenew serve_def a keeps_def out_def granted_def ttl)
next
  case (ReqRelease i ep)
  then have "out w i" using rq by (simp add: request_ok_def)
  then show ?thesis
    by (cases rule: ReleaseLease_cases [of "w_now w" LeaderLease i ep "w_db w"])
      (auto simp: ReqRelease serve_def keeps_def out_def granted_def)
qed

lemma serve_answers:
  assumes ttl: "interval ttl = ttl" and rq: "request_ok clk w rq" and a: "a \<in> set (w_answers (serve ttl rq w))"
  shows "a \<in> set (w_answers w) \<or> answer_ok clk ttl (serve ttl rq w) a"
proof (cases rq)
  case (ReqAcquire i sent)
  then obtain s where s: "s \<le> w_now w" "sent = clk i s" using rq by (auto simp: request_ok_def)
  obtain db' r where ac: "AcquireLease (w_now w) LeaderLease i ttl (w_db w) = (db', r)" by fastforce
  then show ?thesis
    by (cases rule: AcquireLease_cases)
      (use a s in \<open>auto simp: ReqAcquire serve_def ac answer_ok_def granted_def ttl intro: exI [of _ s]\<close>)
next
  case (ReqRenew i ep sent)
  then obtain s where s: "s \<le> w_now w" "sent = clk i s" using rq by (auto simp: request_ok_def)
  obtain db' r where rn: "RenewLease (w_now w) LeaderLease i ep ttl (w_db w) = (db', r)" by fastforce
  then show ?thesis
    by (cases rule: RenewLease_cases)
      (use a s in \<open>auto simp: ReqRenew serve_def rn answer_ok_def granted_def ttl intro: exI [of _ s]\<close>)
next
  case (ReqRelease i ep)
  then show ?thesis using a by (simp add: serve_def)
qed

lemma serve_simps [simp]:
  "w_now (serve ttl rq w) = w_now w" "w_requests (serve ttl rq w) = w_requests w" "w_electors (serve ttl rq w) = w_electors w"
  by (cases rq; simp add: serve_def split: prod.split)+

subsection \<open>The electors' part\<close>

lemma set_elector_simps [simp]:
  "w_now (set_elector i el w) = w_now w" "w_db (set_elector i el w) = w_db w" "w_requests (set_elector i el w) = w_requests w"
  "w_answers (set_elector i el w) = w_answers w" "w_electors (set_elector i el w) = (w_electors w)(i := el)"
  by (simp_all add: set_elector_def)

lemma granted_set_elector [simp]: "granted ttl (set_elector i el w) = granted ttl w"
  by (simp add: granted_def fun_eq_iff)

lemma granted_answers [simp]: "granted ttl (w\<lparr>w_answers := as\<rparr>) = granted ttl w"
  by (simp add: granted_def fun_eq_iff)

lemma set_elector_keeps:
  assumes "out w i \<Longrightarrow> el_resigned el \<and> el_term el = None"
  shows "keeps ttl w (set_elector i el (w\<lparr>w_answers := as\<rparr>))" "keeps ttl w (set_elector i el w)"
  by (rule keeps_same; use assms in \<open>auto simp: out_def\<close>)+

lemma elector_term:
  assumes "world_inv clk ttl margin w" "el_term (w_electors w i) = Some t"
  obtains s where "te_deadline t = clk i s + (ttl - margin)" "granted ttl w i (te_epoch t) s"
  using assms unfolding world_inv_def elector_ok_def by blast

lemma elector_consts:
  "world_inv clk ttl margin w \<Longrightarrow> el_id (w_electors w i) = i \<and> el_ttl (w_electors w i) = ttl \<and> el_margin (w_electors w i) = margin"
  by (simp add: world_inv_def elector_ok_def)

lemma acquired_elector:
  assumes inv: "world_inv clk ttl margin w" and a: "AnsAcquire i sent (Some ep) \<in> set (w_answers w)"
    and idle: "el_term (w_electors w i) = None"
  shows "elector_ok clk ttl margin (set_elector i (fst (lead ep sent (w_electors w i))) (w\<lparr>w_answers := as\<rparr>)) i"
proof (cases "el_resigned (w_electors w i)")
  case True
  then show ?thesis using elector_consts [OF inv, of i] idle by (simp add: elector_ok_def lead_def)
next
  case False
  have "answer_ok clk ttl w (AnsAcquire i sent (Some ep))" using inv a by (auto simp: world_inv_def)
  then obtain s where "sent = clk i s" "granted ttl w i ep s" using False by (auto simp: answer_ok_def out_def)
  then show ?thesis using False elector_consts [OF inv, of i] by (auto simp: elector_ok_def lead_def Let_def)
qed

lemma renewal_elector:
  assumes inv: "world_inv clk ttl margin w" and a: "AnsRenew i ep sent r \<in> set (w_answers w)"
    and t: "el_term (w_electors w i) = Some t" "te_epoch t = ep"
  shows "elector_ok clk ttl margin (set_elector i (renewed sent (Some r) (w_electors w i)) (w\<lparr>w_answers := as\<rparr>)) i"
proof (cases r)
  case None
  then show ?thesis using elector_consts [OF inv, of i] by (simp add: elector_ok_def renewed_def stepDown_def)
next
  case (Some x)
  have "answer_ok clk ttl w (AnsRenew i ep sent r)" using inv a by (auto simp: world_inv_def)
  then obtain s where "sent = clk i s" "granted ttl w i ep s" using Some t(1) by (auto simp: answer_ok_def out_def)
  then show ?thesis using Some t elector_consts [OF inv, of i] by (auto simp: elector_ok_def renewed_def)
qed

lemma wstep_inv:
  assumes inv: "world_inv clk ttl margin w" and step: "wstep clk ttl w w'"
  shows "world_inv clk ttl margin w'"
  using step
proof cases
  case (acquired i sent ep)
  show ?thesis unfolding acquired(1)
    by (rule world_inv_step [OF inv set_elector_keeps(1)])
      (use acquired_elector [OF inv acquired(2,3)] acquired(3) in \<open>auto simp: lead_def out_def dest: set_remove1_subset [THEN subsetD]\<close>)
next
  case (renewal i ep sent r t)
  show ?thesis unfolding renewal(1)
    by (rule world_inv_step [OF inv set_elector_keeps(1)])
      (use renewal_elector [OF inv renewal(2-4)] renewal(3) in \<open>auto simp: out_def dest: set_remove1_subset [THEN subsetD]\<close>)
next
  case (step_down i)
  show ?thesis unfolding step_down
    by (rule world_inv_step [OF inv set_elector_keeps(2)])
      (use elector_consts [OF inv, of i] in \<open>auto simp: out_def stepDown_def elector_ok_def\<close>)
next
  case (resign i)
  have "elector_ok clk ttl margin (set_elector i (fst (Resign (w_electors w i))) w) i"
    using inv by (auto simp: world_inv_def elector_ok_def Resign_def)
  then show ?thesis unfolding resign
    by (intro world_inv_step [OF inv set_elector_keeps(2)]) (auto simp: out_def Resign_def)
next
  case (serve rq)
  let ?w = "w\<lparr>w_requests := remove1 rq (w_requests w)\<rparr>"
  have ttl: "interval ttl = ttl" and rq: "request_ok clk w rq" using inv serve(2) by (auto simp: world_inv_def)
  have k: "keeps ttl w ?w" by (rule keeps_same) (auto simp: out_def)
  have w: "world_inv clk ttl margin ?w" by (rule world_inv_step [OF inv k]) (auto dest: set_remove1_subset [THEN subsetD])
  have "request_ok clk ?w rq" using keeps_ok(1) [OF k rq] .
  then show ?thesis unfolding serve(1)
    by (intro world_inv_step [OF w serve_keeps [OF ttl]] serve_answers [OF ttl]) auto
qed (rule world_inv_step [OF inv keeps_same]; auto simp: out_def request_ok_def dest: set_remove1_subset [THEN subsetD])+

interpretation leading: invariant_system "wstep clk ttl" "world_inv clk ttl margin" for clk ttl margin
  by unfold_locales (rule wstep_inv)

lemma fresh_world_inv: "fresh_world ttl margin w \<Longrightarrow> interval ttl = ttl \<Longrightarrow> world_inv clk ttl margin w"
  by (simp add: fresh_world_def world_inv_def elector_ok_def)

text \<open>A leader by its own clock holds the lease in its epoch.\<close>

lemma leader_holds:
  assumes inv: "world_inv clk ttl margin w" and keep: "clocks_keep ttl margin clk"
    and lead: "IsLeader (clk i (w_now w)) (w_electors w i)"
  shows "\<exists>l t. get_row (db_leases (w_db w)) LeaderLease = Some l \<and> el_term (w_electors w i) = Some t \<and> l_holder l = i
    \<and> l_epoch l = te_epoch t \<and> w_now w \<le> l_expires_at l"
proof -
  obtain t where t: "el_term (w_electors w i) = Some t" "clk i (w_now w) < te_deadline t"
    using lead by (auto simp: IsLeader_def split: option.splits)
  obtain s where s: "te_deadline t = clk i s + (ttl - margin)" "granted ttl w i (te_epoch t) s"
    using elector_term [OF inv t(1)] .
  have "clk i s + (ttl - margin) \<le> clk i (w_now w)" if "s + ttl \<le> w_now w"
    using keep that unfolding clocks_keep_def by (meson order_refl order_trans)
  then have "w_now w < s + ttl" using t(2) s(1) by force
  then show ?thesis using t(1) s(2) by (auto simp: granted_def)
qed

text \<open>C8: At every moment at most one instance is the leader by its own clock, whatever is late or lost between the
  instances and the database, as long as no instance's clock falls behind the database's by more than the step-down
  margin within the TTL of a lease; and that instance holds the lease, in the epoch of its term.\<close>

theorem one_leader:
  assumes "fresh_world ttl margin w0" "interval ttl = ttl" "clocks_keep ttl margin clk" "(wstep clk ttl)\<^sup>*\<^sup>* w0 w"
  shows "(IsLeader (clk i (w_now w)) (w_electors w i) \<and> IsLeader (clk j (w_now w)) (w_electors w j) \<longrightarrow> i = j)
    \<and> (IsLeader (clk i (w_now w)) (w_electors w i) \<longrightarrow>
      (\<exists>l t. get_row (db_leases (w_db w)) LeaderLease = Some l \<and> el_term (w_electors w i) = Some t \<and> l_holder l = i
        \<and> l_epoch l = te_epoch t \<and> w_now w \<le> l_expires_at l))"
proof -
  have inv: "world_inv clk ttl margin w"
    using leading.reach_inv [OF assms(4) fresh_world_inv [OF assms(1,2)]] .
  show ?thesis using leader_holds [OF inv assms(3)] by (metis option.inject)
qed

section \<open>The lock that the lease implements\<close>

text \<open>The abstract lock: who has the token, in which epoch, and whether its holder leads. The token moves, to the next
  epoch, only while nobody leads.\<close>

record lock =
  lk_token :: "(string \<times> int) option"
  lk_leading :: bool

inductive lock_step :: "lock \<Rightarrow> lock \<Rightarrow> bool" where
  first: "lk_token k = None \<Longrightarrow> \<not> lk_leading k \<Longrightarrow> lock_step k (k\<lparr>lk_token := Some (i, 1)\<rparr>)"
| move: "lk_token k = Some (j, ep) \<Longrightarrow> \<not> lk_leading k \<Longrightarrow> lock_step k (k\<lparr>lk_token := Some (i, ep + 1)\<rparr>)"
| begin_leading: "lk_token k \<noteq> None \<Longrightarrow> lock_step k (k\<lparr>lk_leading := True\<rparr>)"
| end_leading: "lock_step k (k\<lparr>lk_leading := False\<rparr>)"

definition lock_of :: "(string \<Rightarrow> gotime \<Rightarrow> gotime) \<Rightarrow> world \<Rightarrow> lock" where
  "lock_of clk w = \<lparr>lk_token = map_option (\<lambda>l. (l_holder l, l_epoch l)) (get_row (db_leases (w_db w)) LeaderLease),
    lk_leading = (\<exists>i. IsLeader (clk i (w_now w)) (w_electors w i))\<rparr>"

lemma lock_leads:
  assumes "world_inv clk ttl margin w" "clocks_keep ttl margin clk" "lk_leading (lock_of clk w)"
  shows "lk_token (lock_of clk w) \<noteq> None"
  using leader_holds [OF assms(1,2)] assms(3) by (auto simp: lock_of_def)

text \<open>A step that leaves the token begins or ends a leadership, at most.\<close>

lemma lock_same_token:
  assumes "world_inv clk ttl margin w'" "clocks_keep ttl margin clk" "lk_token (lock_of clk w') = lk_token (lock_of clk w)"
  shows "lock_step\<^sup>=\<^sup>= (lock_of clk w) (lock_of clk w')"
proof -
  have eq: "lock_of clk w' = (lock_of clk w)\<lparr>lk_leading := lk_leading (lock_of clk w')\<rparr>"
    by (rule lock.equality) (simp_all add: assms(3))
  have "lock_step (lock_of clk w) ((lock_of clk w)\<lparr>lk_leading := lk_leading (lock_of clk w')\<rparr>)"
    using lock_leads [OF assms(1,2)] assms(3) by (cases "lk_leading (lock_of clk w')") (auto intro: begin_leading end_leading)
  then show ?thesis unfolding eq [symmetric] by simp
qed

lemma serve_lock:
  assumes inv: "world_inv clk ttl margin w" and keep: "clocks_keep ttl margin clk"
  shows "lk_token (lock_of clk (serve ttl rq w)) = lk_token (lock_of clk w) \<or> lock_step (lock_of clk w) (lock_of clk (serve ttl rq w))"
proof (cases rq)
  case (ReqAcquire i sent)
  obtain db' r where a: "AcquireLease (w_now w) LeaderLease i ttl (w_db w) = (db', r)" by fastforce
  then show ?thesis
  proof (cases rule: AcquireLease_cases)
    case refused
    then show ?thesis by (simp add: ReqAcquire serve_def a lock_of_def)
  next
    case (taken l')
    let ?row = "get_row (db_leases (w_db w)) LeaderLease"
    have "\<not> lk_leading (lock_of clk w)"
      using leader_holds [OF inv keep] taken(6) by (force simp: lock_of_def)
    moreover have "lock_of clk (serve ttl rq w) = (lock_of clk w)\<lparr>lk_token := Some (i, l_epoch l')\<rparr>"
      using taken by (simp add: ReqAcquire serve_def a lock_of_def)
    moreover have "lk_token (lock_of clk w) = map_option (\<lambda>l. (l_holder l, l_epoch l)) ?row" by (simp add: lock_of_def)
    ultimately show ?thesis using taken(6)
      by (cases ?row) (auto intro: lock_step.intros)
  qed
next
  case (ReqRenew i ep sent)
  obtain db' r where a: "RenewLease (w_now w) LeaderLease i ep ttl (w_db w) = (db', r)" by fastforce
  then show ?thesis by (cases rule: RenewLease_cases) (simp_all add: ReqRenew serve_def a lock_of_def)
next
  case (ReqRelease i ep)
  then show ?thesis
    by (cases rule: ReleaseLease_cases [of "w_now w" LeaderLease i ep "w_db w"]) (simp_all add: serve_def lock_of_def)
qed

lemma wstep_lock:
  assumes inv: "world_inv clk ttl margin w" and keep: "clocks_keep ttl margin clk" and step: "wstep clk ttl w w'"
  shows "lock_step\<^sup>=\<^sup>= (lock_of clk w) (lock_of clk w')"
proof -
  have inv': "world_inv clk ttl margin w'" by (rule wstep_inv [OF inv step])
  have "lk_token (lock_of clk w') = lk_token (lock_of clk w) \<or> lock_step (lock_of clk w) (lock_of clk w')"
    using step
  proof cases
    case (serve rq)
    let ?w = "w\<lparr>w_requests := remove1 rq (w_requests w)\<rparr>"
    have "wstep clk ttl w ?w" by (rule lose_request)
    then have "world_inv clk ttl margin ?w" by (rule wstep_inv [OF inv])
    moreover have "lock_of clk ?w = lock_of clk w" by (simp add: lock_of_def)
    ultimately show ?thesis using serve_lock [of clk ttl margin ?w rq] keep serve(1) by simp
  qed (simp_all add: lock_of_def)
  then show ?thesis using lock_same_token [OF inv' keep] by blast
qed

text \<open>C9: The electors with their lease implement the lock: whatever the run, what is seen of it (the holder and epoch
  of the lease, and whether an instance leads) is a run of the lock, whose token moves only while nobody leads and to
  the next epoch each time.\<close>

theorem lease_refines_lock:
  assumes "fresh_world ttl margin w0" "interval ttl = ttl" "clocks_keep ttl margin clk" "(wstep clk ttl)\<^sup>*\<^sup>* w0 w"
  shows "lock_step\<^sup>*\<^sup>* (lock_of clk w0) (lock_of clk w)"
  using assms(4)
proof (rule leading.reach_rel [where margin = margin])
  show "world_inv clk ttl margin w0" by (rule fresh_world_inv [OF assms(1,2)])
  show "lock_step\<^sup>*\<^sup>* (lock_of clk a) (lock_of clk b)" if "world_inv clk ttl margin a" "wstep clk ttl a b" for a b
    using wstep_lock [OF that(1) assms(3) that(2)] by auto
qed auto

section \<open>Fencing tokens\<close>

text \<open>The lease of an earlier moment, seen later: its epoch has not gone back, and within an epoch it has one holder.\<close>

definition lease_grows :: "registry \<Rightarrow> registry \<Rightarrow> bool" where
  "lease_grows db db' = (\<forall>l. get_row (db_leases db) LeaderLease = Some l \<longrightarrow>
    (\<exists>l'. get_row (db_leases db') LeaderLease = Some l' \<and> l_epoch l \<le> l_epoch l' \<and> (l_epoch l = l_epoch l' \<longrightarrow> l_holder l = l_holder l')))"

lemma serve_grows: "lease_grows (w_db w) (w_db (serve ttl rq w))"
proof (cases rq)
  case (ReqAcquire i sent)
  obtain db' r where a: "AcquireLease (w_now w) LeaderLease i ttl (w_db w) = (db', r)" by fastforce
  then show ?thesis by (cases rule: AcquireLease_cases) (auto simp: ReqAcquire serve_def a lease_grows_def)
next
  case (ReqRenew i ep sent)
  obtain db' r where a: "RenewLease (w_now w) LeaderLease i ep ttl (w_db w) = (db', r)" by fastforce
  then show ?thesis by (cases rule: RenewLease_cases) (auto simp: ReqRenew serve_def a lease_grows_def)
next
  case (ReqRelease i ep)
  then show ?thesis
    by (cases rule: ReleaseLease_cases [of "w_now w" LeaderLease i ep "w_db w"]) (auto simp: serve_def lease_grows_def)
qed

lemma wstep_grows: "wstep clk ttl w w' \<Longrightarrow> lease_grows (w_db w) (w_db w')"
proof (induction rule: wstep.cases)
  case (serve rq w)
  then show ?case using serve_grows [of "w\<lparr>w_requests := remove1 rq (w_requests w)\<rparr>"] by simp
qed (auto simp: lease_grows_def)

lemma lease_grows_trans:
  assumes "lease_grows a b" "lease_grows b c"
  shows "lease_grows a c"
  unfolding lease_grows_def
proof (intro allI impI)
  fix l assume "get_row (db_leases a) LeaderLease = Some l"
  then obtain m where m: "get_row (db_leases b) LeaderLease = Some m" "l_epoch l \<le> l_epoch m" "l_epoch l = l_epoch m \<longrightarrow> l_holder l = l_holder m"
    using assms(1) by (auto simp: lease_grows_def)
  then obtain n where "get_row (db_leases c) LeaderLease = Some n" "l_epoch m \<le> l_epoch n" "l_epoch m = l_epoch n \<longrightarrow> l_holder m = l_holder n"
    using assms(2) by (auto simp: lease_grows_def)
  with m show "\<exists>n. get_row (db_leases c) LeaderLease = Some n \<and> l_epoch l \<le> l_epoch n \<and> (l_epoch l = l_epoch n \<longrightarrow> l_holder l = l_holder n)"
    by (intro exI [of _ n]) auto
qed

lemma run_grows: "(wstep clk ttl)\<^sup>*\<^sup>* w w' \<Longrightarrow> lease_grows (w_db w) (w_db w')"
proof (induction rule: rtranclp_induct)
  case base
  then show ?case by (simp add: lease_grows_def)
next
  case (step y z)
  then show ?case using lease_grows_trans wstep_grows by blast
qed

lemma Fence_passed:
  assumes "Fence clock now el db = None"
  obtains t l where "el_term el = Some t" "get_row (db_leases db) LeaderLease = Some l" "l_holder l = el_id el"
    "l_epoch l = te_epoch t"
  using assms by (auto simp: Fence_def FenceLease_def lease_held_def split: option.splits if_splits)

text \<open>C10: Fenced transactions are ordered by their epochs: after a transaction of one instance passed its fence, no
  transaction passes one in an older epoch, and one that passes in the same epoch is the same instance's. This holds
  whatever the clocks do.\<close>

theorem fencing_tokens:
  assumes "fresh_world ttl margin w0" "(wstep clk ttl)\<^sup>*\<^sup>* w0 w" "interval ttl = ttl"
    and "Fence (clk i (w_now w)) (w_now w) (w_electors w i) (w_db w) = None"
    and "(wstep clk ttl)\<^sup>*\<^sup>* w w'" and "Fence (clk j (w_now w')) (w_now w') (w_electors w' j) (w_db w') = None"
  shows "\<exists>t t'. el_term (w_electors w i) = Some t \<and> el_term (w_electors w' j) = Some t' \<and> te_epoch t \<le> te_epoch t'
    \<and> (te_epoch t = te_epoch t' \<longrightarrow> i = j)"
proof -
  have inv: "world_inv clk ttl margin w" using leading.reach_inv [OF assms(2) fresh_world_inv [OF assms(1,3)]] .
  have inv': "world_inv clk ttl margin w'" using leading.reach_inv [OF assms(5) inv] .
  obtain t l where t: "el_term (w_electors w i) = Some t" "get_row (db_leases (w_db w)) LeaderLease = Some l" "l_holder l = i"
    "l_epoch l = te_epoch t" using Fence_passed [OF assms(4)] elector_consts [OF inv, of i] by metis
  obtain t' l' where t': "el_term (w_electors w' j) = Some t'" "get_row (db_leases (w_db w')) LeaderLease = Some l'"
    "l_holder l' = j" "l_epoch l' = te_epoch t'" using Fence_passed [OF assms(6)] elector_consts [OF inv', of j] by metis
  show ?thesis using run_grows [OF assms(5)] t t' unfolding lease_grows_def by auto
qed

section \<open>A leader can always be had\<close>

text \<open>The acquisition of an expired lease by an elector that has not resigned: sent, served and received.\<close>

lemma acquire_expired:
  assumes el: "el_id (w_electors w j) = j" "el_ttl (w_electors w j) = ttl" "el_margin (w_electors w j) = margin"
      "el_term (w_electors w j) = None" "\<not> el_resigned (w_electors w j)"
    and ttl: "interval ttl = ttl" "margin < ttl" "0 < ttl"
    and row: "\<And>l. get_row (db_leases (w_db w)) LeaderLease = Some l \<Longrightarrow> l_expires_at l < w_now w"
  shows "\<exists>w'. (wstep clk ttl)\<^sup>*\<^sup>* w w' \<and> w_now w' = w_now w \<and> (\<forall>i. i \<noteq> j \<longrightarrow> w_electors w' i = w_electors w i)
    \<and> IsLeader (clk j (w_now w)) (w_electors w' j) \<and> Fence (clk j (w_now w)) (w_now w) (w_electors w' j) (w_db w') = None"
proof -
  let ?rq = "ReqAcquire j (clk j (w_now w))"
  define w1 where "w1 = w\<lparr>w_requests := ?rq # w_requests w\<rparr>"
  define w2 where "w2 = serve ttl ?rq (w1\<lparr>w_requests := remove1 ?rq (w_requests w1)\<rparr>)"
  have expired: "tryAcquire (w_now w) (w_db w)"
    using row by (auto simp: tryAcquire_def ReadLease_def split: option.splits)
  have s1: "wstep clk ttl w w1" unfolding w1_def by (rule acquire [OF el(4,5) expired])
  have s2: "wstep clk ttl w1 w2" unfolding w2_def by (rule wstep.serve) (simp add: w1_def)
  obtain db' r where a: "AcquireLease (w_now w) LeaderLease j ttl (w_db w) = (db', r)" by fastforce
  then obtain l' where l': "r = Some (l_epoch l')" "get_row (db_leases db') LeaderLease = Some l'" "l_holder l' = j"
    "l_expires_at l' = w_now w + ttl"
    by (cases rule: AcquireLease_cases) (use row ttl(1) in force)+
  have w2: "w2 = w\<lparr>w_db := db', w_answers := AnsAcquire j (clk j (w_now w)) r # w_answers w\<rparr>"
    by (simp add: w2_def w1_def serve_def a)
  let ?w3 = "set_elector j (fst (lead (l_epoch l') (clk j (w_now w)) (w_electors w2 j)))
    (w2\<lparr>w_answers := remove1 (AnsAcquire j (clk j (w_now w)) (Some (l_epoch l'))) (w_answers w2)\<rparr>)"
  have "wstep clk ttl w2 ?w3" by (rule acquired) (simp_all add: w2 l'(1) el(4))
  then have "(wstep clk ttl)\<^sup>*\<^sup>* w ?w3" using s1 s2 by (meson converse_rtranclp_into_rtranclp r_into_rtranclp)
  moreover have "IsLeader (clk j (w_now w)) (w_electors ?w3 j)"
    "Fence (clk j (w_now w)) (w_now w) (w_electors ?w3 j) (w_db ?w3) = None"
    using el ttl l' by (simp_all add: w2 lead_def Let_def IsLeader_def Fence_def FenceLease_def lease_held_def)
  ultimately show ?thesis by (intro exI [of _ ?w3]) (simp add: w2)
qed

text \<open>The next moment at which the lease can be had.\<close>

definition lease_over :: "world \<Rightarrow> gotime" where
  "lease_over w = (case get_row (db_leases (w_db w)) LeaderLease of None \<Rightarrow> w_now w | Some l \<Rightarrow> max (w_now w) (l_expires_at l + 1))"

lemma can_lead:
  assumes inv: "world_inv clk ttl margin w" and ttl: "margin < ttl" "0 < ttl" and on: "\<not> el_resigned (w_electors w j)"
  shows "\<exists>w'. (wstep clk ttl)\<^sup>*\<^sup>* w w' \<and> w_now w' = lease_over w \<and> (\<forall>i. i \<noteq> j \<longrightarrow> w_electors w' i = w_electors w i)
    \<and> IsLeader (clk j (w_now w')) (w_electors w' j) \<and> Fence (clk j (w_now w')) (w_now w') (w_electors w' j) (w_db w') = None"
proof -
  let ?w1 = "set_elector j (stepDown (w_electors w j)) w"
  let ?w2 = "?w1\<lparr>w_now := w_now ?w1 + (lease_over w - w_now w)\<rparr>"
  have "wstep clk ttl w ?w1" by (rule step_down)
  moreover have "wstep clk ttl ?w1 ?w2" by (rule tick) (simp add: lease_over_def split: option.splits)
  ultimately have run: "(wstep clk ttl)\<^sup>*\<^sup>* w ?w2" by (meson converse_rtranclp_into_rtranclp r_into_rtranclp)
  have "interval ttl = ttl" using inv by (simp add: world_inv_def)
  then have "\<exists>w'. (wstep clk ttl)\<^sup>*\<^sup>* ?w2 w' \<and> w_now w' = w_now ?w2 \<and> (\<forall>i. i \<noteq> j \<longrightarrow> w_electors w' i = w_electors ?w2 i)
    \<and> IsLeader (clk j (w_now ?w2)) (w_electors w' j) \<and> Fence (clk j (w_now ?w2)) (w_now ?w2) (w_electors w' j) (w_db w') = None"
    by (intro acquire_expired [where margin = margin])
      (use elector_consts [OF inv, of j] ttl on in \<open>auto simp: stepDown_def lease_over_def\<close>)
  then obtain w' where w': "(wstep clk ttl)\<^sup>*\<^sup>* ?w2 w'" "w_now w' = w_now ?w2" "\<forall>i. i \<noteq> j \<longrightarrow> w_electors w' i = w_electors ?w2 i"
    "IsLeader (clk j (w_now ?w2)) (w_electors w' j)" "Fence (clk j (w_now ?w2)) (w_now ?w2) (w_electors w' j) (w_db w') = None"
    by blast
  then show ?thesis using rtranclp_trans [OF run w'(1)] by (intro exI [of _ w']) simp
qed

text \<open>C11: Leadership is never lost for good: from every state of the electors, whatever instances have died, every
  instance that has not resigned can become the leader, and pass its fence, as soon as the lease is over, with no
  step of any other instance.\<close>

theorem leader_recovers:
  assumes "fresh_world ttl margin w0" "interval ttl = ttl" "margin < ttl" "0 < ttl" "(wstep clk ttl)\<^sup>*\<^sup>* w0 w"
    and "\<not> el_resigned (w_electors w j)"
  shows "\<exists>w'. (wstep clk ttl)\<^sup>*\<^sup>* w w' \<and> w_now w' = lease_over w \<and> (\<forall>i. i \<noteq> j \<longrightarrow> w_electors w' i = w_electors w i)
    \<and> IsLeader (clk j (w_now w')) (w_electors w' j) \<and> Fence (clk j (w_now w')) (w_now w') (w_electors w' j) (w_db w') = None"
  using can_lead leading.reach_inv [OF assms(5) fresh_world_inv [OF assms(1,2)]] assms(3,4,6) by blast

subsection \<open>Witnesses\<close>

definition sample_world :: world where
  "sample_world = \<lparr>w_now = 1000 * second, w_db = sample_db, w_electors = NewElector, w_requests = [], w_answers = []\<rparr>"

lemma sample_world_ok:
  "fresh_world LeaseTTL StepDownMargin sample_world" "interval LeaseTTL = LeaseTTL" "clocks_keep LeaseTTL StepDownMargin (\<lambda>_ t. t)"
  "StepDownMargin < LeaseTTL" "0 < LeaseTTL" "\<not> el_resigned (w_electors sample_world i)"
  by (simp_all add: fresh_world_def sample_world_def NewElector_def interval_def LeaseTTL_def StepDownMargin_def clocks_keep_def)

lemma sample_led:
  obtains w where "(wstep (\<lambda>_ t. t) LeaseTTL)\<^sup>*\<^sup>* sample_world w" "IsLeader (w_now w) (w_electors w ''i1'')"
    "Fence (w_now w) (w_now w) (w_electors w ''i1'') (w_db w) = None"
  using can_lead [OF fresh_world_inv [OF sample_world_ok(1,2)] sample_world_ok(4-6), of "\<lambda>_ t. t" "''i1''"] by blast

theorem one_leader_witness:
  "\<exists>w. (wstep (\<lambda>_ t. t) LeaseTTL)\<^sup>*\<^sup>* sample_world w \<and> IsLeader (w_now w) (w_electors w ''i1'')
    \<and> (\<exists>l t. get_row (db_leases (w_db w)) LeaderLease = Some l \<and> el_term (w_electors w ''i1'') = Some t \<and> l_holder l = ''i1''
        \<and> l_epoch l = te_epoch t \<and> w_now w \<le> l_expires_at l)"
proof -
  obtain w where w: "(wstep (\<lambda>_ t. t) LeaseTTL)\<^sup>*\<^sup>* sample_world w" "IsLeader (w_now w) (w_electors w ''i1'')" using sample_led .
  show ?thesis using one_leader [OF sample_world_ok(1-3) w(1), of "''i1''" "''i1''"] w by blast
qed

theorem lease_refines_lock_witness:
  "\<exists>w. (wstep (\<lambda>_ t. t) LeaseTTL)\<^sup>*\<^sup>* sample_world w \<and> IsLeader (w_now w) (w_electors w ''i1'')
    \<and> lock_step\<^sup>*\<^sup>* (lock_of (\<lambda>_ t. t) sample_world) (lock_of (\<lambda>_ t. t) w)"
proof -
  obtain w where w: "(wstep (\<lambda>_ t. t) LeaseTTL)\<^sup>*\<^sup>* sample_world w" "IsLeader (w_now w) (w_electors w ''i1'')" using sample_led .
  show ?thesis using lease_refines_lock [OF sample_world_ok(1-3) w(1)] w by blast
qed

theorem fencing_tokens_witness:
  "\<exists>w t. (wstep (\<lambda>_ t. t) LeaseTTL)\<^sup>*\<^sup>* sample_world w \<and> Fence (w_now w) (w_now w) (w_electors w ''i1'') (w_db w) = None
    \<and> el_term (w_electors w ''i1'') = Some t"
proof -
  obtain w where w: "(wstep (\<lambda>_ t. t) LeaseTTL)\<^sup>*\<^sup>* sample_world w"
    "Fence (w_now w) (w_now w) (w_electors w ''i1'') (w_db w) = None" using sample_led .
  show ?thesis using fencing_tokens [OF sample_world_ok(1) w(1) sample_world_ok(2) w(2) rtranclp.rtrancl_refl w(2)] w by blast
qed

theorem leader_recovers_witness:
  "\<exists>w'. (wstep (\<lambda>_ t. t) LeaseTTL)\<^sup>*\<^sup>* sample_world w' \<and> w_now w' = lease_over sample_world
    \<and> IsLeader (w_now w') (w_electors w' ''i2'')"
  using leader_recovers [OF sample_world_ok(1,2,4,5) rtranclp.rtrancl_refl [of "wstep (\<lambda>_ t. t) LeaseTTL"] sample_world_ok(6), of "''i2''"]
  by blast

end
