(* ===== verification/Placement.thy ===== *)
theory Placement
  imports Samples
begin

text \<open>
  Placement, from \<open>go/internal/sandbox/placement.go\<close> and \<open>store.PlacementSnapshot\<close>: the gates, the score,
  the choice among the nodes of a snapshot, and the claim that rechecks the gates under a node's lock.
  The lemmas show what a passed gate means; the properties that the candidates are exactly the nodes that
  pass every gate, in the policy's order, and that a claim on an unchanged registry accepts each of them.
\<close>

section \<open>The snapshot\<close>

record node_snapshot =
  snap_node :: node
  snap_telemetry :: "telemetry option"
  snap_booked :: booking_sums
  snap_tombstoned :: bool
  snap_tap :: podID

definition snapshot_of :: "podID \<Rightarrow> registry \<Rightarrow> node \<Rightarrow> node_snapshot" where
  "snapshot_of i db n = \<lparr>
    snap_node = n,
    snap_telemetry = get_row (db_telemetry db) (n_name n),
    snap_booked = SumBookings (n_name n) i db,
    snap_tombstoned = HasTombstone i (n_name n) db,
    snap_tap = (case tap_conflicts (n_name n) i db of [] \<Rightarrow> [] | other # _ \<Rightarrow> other)\<rparr>"

definition PlacementSnapshot :: "podID \<Rightarrow> registry \<Rightarrow> node_snapshot list" where
  "PlacementSnapshot i db = map (snapshot_of i db)
    (sort_by (\<lambda>a b. n_name a < n_name b) (filter (\<lambda>n. n_status n \<noteq> NodeRemoved) (map snd (db_nodes db))))"

section \<open>The gates\<close>

definition placementGates :: "gate list" where
  "placementGates = [gateStatus, gatePin, gateDraining, gateForked, gateConnected, gateTombstone, gateAvoid, gateTAP,
    gateStore, gateSlots, gateCPU, gateMemory, gateFreeMemory, gateDisk]"

definition claimGates :: "gate list" where
  "claimGates = [gateStatus, gatePin, gateDraining, gateForked, gateConnected, gateTombstone, gateTAP, gateStore,
    gateSlots, gateCPU, gateMemory]"

definition admitGates :: "gate list" where
  "admitGates = [gateStatus, gateDraining, gateForked, gateConnected, gateSlots, gateCPU, gateMemory]"

definition capacityGates :: "gate list" where
  "capacityGates = [gateSlots, gateCPU, gateMemory]"

record gate_input =
  gi_node :: node
  gi_memory_available :: int
  gi_disk_available :: int
  gi_booked :: booking_sums
  gi_tombstoned :: bool
  gi_tap :: podID
  gi_connected :: bool
  gi_vcpus :: int
  gi_mem_mib :: int
  gi_pin :: string
  gi_avoid :: "string list"
  gi_restore :: bool
  gi_checkpoint_store :: string
  gi_disk_budget :: int

text \<open>\<open>gate\<close>: the reason of the refusal, empty where the gate passes.\<close>

fun gate_text :: "gate_input \<Rightarrow> gate \<Rightarrow> string" where
  "gate_text g gateStatus =
    (if n_status (gi_node g) \<noteq> NodeReady then ''node '' @ node_status_text (n_status (gi_node g)) else [])"
| "gate_text g gateDraining = (if n_draining (gi_node g) then ''draining'' else [])"
| "gate_text g gateForked = (if Forked (gi_node g) then ''identity forked'' else [])"
| "gate_text g gateConnected = (if \<not> gi_connected g then ''not connected to this instance'' else [])"
| "gate_text g gateTombstone = (if gi_tombstoned g then ''deleting an earlier pod of this ID'' else [])"
| "gate_text g gatePin =
    (if gi_pin g \<noteq> [] \<and> n_name (gi_node g) \<noteq> gi_pin g
     then ''pinned to node '' @ gi_pin g @ '': its volume is there'' else [])"
| "gate_text g gateAvoid = (if n_name (gi_node g) \<in> set (gi_avoid g) then ''a create failed here'' else [])"
| "gate_text g gateTAP = (if gi_tap g \<noteq> [] then ''TAP prefix taken by sandbox '' @ gi_tap g else [])"
| "gate_text g gateStore =
    (if \<not> gi_restore g then []
     else if gi_checkpoint_store g \<noteq> [] \<and> n_object_store_id (gi_node g) \<noteq> gi_checkpoint_store g
     then ''another object store''
     else if gi_checkpoint_store g = [] \<and> n_object_store_id (gi_node g) = [] \<and> \<not> n_object_store (gi_node g)
     then ''another object store'' else [])"
| "gate_text g gateSlots =
    (if n_slots (gi_node g) \<le> 0 then ''no slots''
     else if bs_count (gi_booked g) \<ge> n_slots (gi_node g)
     then ''slots full ('' @ dec (bs_count (gi_booked g)) @ '' of '' @ dec (n_slots (gi_node g)) @ '')'' else [])"
| "gate_text g gateCPU =
    (let c = VCPUCapacity (gi_node g) in
     if c > 0 \<and> bs_vcpus (gi_booked g) + gi_vcpus g > c
     then ''cpu gate ('' @ dec (bs_vcpus (gi_booked g)) @ ''+'' @ dec (gi_vcpus g) @ '' of '' @ dec c @ '' vCPUs)'' else [])"
| "gate_text g gateMemory =
    (let c = MemoryCapacityMiB (gi_node g) in
     if bs_memory_mib (gi_booked g) + gi_mem_mib g > c
     then ''memory gate ('' @ dec (bs_memory_mib (gi_booked g)) @ ''MiB+'' @ dec (gi_mem_mib g) @ ''MiB of '' @ dec c @ ''MiB MiB)''
     else [])"
| "gate_text g gateFreeMemory =
    (let free = (gi_memory_available g - n_mem_headroom_bytes (gi_node g)) div 2 ^ 20 in
     if free < gi_mem_mib g then ''free memory gate ('' @ dec (max free 0) @ '' MiB available)'' else [])"
| "gate_text g gateDisk = (if gi_disk_available g < gi_disk_budget g then ''disk gate'' else [])"

fun check :: "gate_input \<Rightarrow> gate list \<Rightarrow> (gate \<times> string) option" where
  "check g [] = None"
| "check g (x # xs) = (let t = gate_text g x in if t \<noteq> [] then Some (x, t) else check g xs)"

section \<open>The score\<close>

definition float_ratio :: "engine \<Rightarrow> int \<Rightarrow> int \<Rightarrow> rat" where
  "float_ratio e a b = e_float64 e (e_float64 e (of_int a) / e_float64 e (of_int b))"

definition score :: "engine \<Rightarrow> gate_input \<Rightarrow> rat" where
  "score e g =
    (let n = gi_node g; cpu = VCPUCapacity n; mem = MemoryCapacityMiB n; total = n_memory_total_bytes n;
         s0 = 1;
         s1 = (if cpu > 0 then min s0 (float_ratio e (cpu - bs_vcpus (gi_booked g) - gi_vcpus g) cpu) else s0);
         s2 = (if mem > 0 then min s1 (float_ratio e (mem - bs_memory_mib (gi_booked g) - gi_mem_mib g) mem) else s1);
         s3 = (if total > 0 then min s2 (float_ratio e (gi_memory_available g - gi_mem_mib g * 2 ^ 20) total) else s2)
     in s3)"

section \<open>Placement\<close>

record placement_candidate =
  pc_node :: string
  pc_feasible :: bool
  pc_score :: rat
  pc_reason :: string

record placement =
  pl_candidates :: "string list"
  pl_verdicts :: "placement_candidate list"
  pl_tombstone_only :: "string list"

definition noCapacity :: "placement \<Rightarrow> string" where
  "noCapacity p = ''no capacity (retryable): no feasible node'' @
    concat (map (\<lambda>v. if pc_feasible v then [] else ''; '' @ pc_node v @ '': '' @ pc_reason v) (pl_verdicts p))"

definition gateInput :: "engine \<Rightarrow> txenv \<Rightarrow> sandbox \<Rightarrow> op_kind \<Rightarrow> node \<Rightarrow> gate_input" where
  "gateInput e env sb kind n = \<lparr>
    gi_node = n, gi_memory_available = 0, gi_disk_available = 0,
    gi_booked = \<lparr>bs_count = 0, bs_vcpus = 0, bs_memory_mib = 0\<rparr>, gi_tombstoned = False, gi_tap = [],
    gi_connected = tx_connected env (n_name n), gi_vcpus = sb_vcpus sb, gi_mem_mib = sb_memory_mib sb,
    gi_pin = (if sb_pin_node sb \<noteq> [] \<and> kind = OpCreate then sb_pin_node sb else []),
    gi_avoid = (if sb_pin_node sb \<noteq> [] then [] else sb_avoid_nodes sb),
    gi_restore = (kind = OpRestore), gi_checkpoint_store = sb_checkpoint_store sb,
    gi_disk_budget = cfg_disk_budget (e_cfg e)\<rparr>"

definition placement_input :: "engine \<Rightarrow> txenv \<Rightarrow> sandbox \<Rightarrow> op_kind \<Rightarrow> node_snapshot \<Rightarrow> gate_input" where
  "placement_input e env sb kind s = (gateInput e env sb kind (snap_node s))\<lparr>
    gi_memory_available := (case snap_telemetry s of None \<Rightarrow> 0 | Some t \<Rightarrow> t_memory_available_bytes t),
    gi_disk_available := (case snap_telemetry s of None \<Rightarrow> 0 | Some t \<Rightarrow> t_disk_available_bytes t),
    gi_booked := snap_booked s, gi_tombstoned := snap_tombstoned s, gi_tap := snap_tap s\<rparr>"

definition verdict :: "engine \<Rightarrow> txenv \<Rightarrow> sandbox \<Rightarrow> op_kind \<Rightarrow> node_snapshot \<Rightarrow> placement_candidate" where
  "verdict e env sb kind s =
    (let g = placement_input e env sb kind s in
     case check g placementGates of
       Some (_, t) \<Rightarrow> \<lparr>pc_node = n_name (snap_node s), pc_feasible = False, pc_score = 0, pc_reason = t\<rparr>
     | None \<Rightarrow> \<lparr>pc_node = n_name (snap_node s), pc_feasible = True, pc_score = score e g, pc_reason = []\<rparr>)"

definition tombstone_only :: "engine \<Rightarrow> txenv \<Rightarrow> sandbox \<Rightarrow> op_kind \<Rightarrow> node_snapshot \<Rightarrow> bool" where
  "tombstone_only e env sb kind s =
    (let g = placement_input e env sb kind s in
     case check g placementGates of
       Some (x, _) \<Rightarrow> x = gateTombstone \<and> check (g\<lparr>gi_tombstoned := False\<rparr>) placementGates = None
     | None \<Rightarrow> False)"

text \<open>The order of the feasible nodes: the comparison of \<open>slices.SortFunc\<close>.\<close>

definition better :: "engine \<Rightarrow> string \<times> rat \<Rightarrow> string \<times> rat \<Rightarrow> bool" where
  "better e a b =
    (if snd a \<noteq> snd b
     then (if cfg_placement (e_cfg e) = PlacementSpread then \<not> snd a < snd b else snd a < snd b)
     else fst a < fst b)"

text \<open>A restore's record holder goes first.\<close>

definition prefer_node :: "string \<Rightarrow> string list \<Rightarrow> string list" where
  "prefer_node n cs = (if n \<in> set cs then n # remove1 n cs else cs)"

definition place :: "engine \<Rightarrow> txenv \<Rightarrow> sandbox \<Rightarrow> op_kind \<Rightarrow> registry \<Rightarrow> placement" where
  "place e env sb kind db =
    (let snaps = PlacementSnapshot (sb_id sb) db;
         vs = map (verdict e env sb kind) snaps;
         feasible = map (\<lambda>v. (pc_node v, pc_score v)) (filter pc_feasible vs);
         cs = map fst (sort_by (better e) feasible)
     in \<lparr>pl_candidates = (if kind = OpRestore \<and> sb_node sb \<noteq> [] then prefer_node (sb_node sb) cs else cs),
         pl_verdicts = vs,
         pl_tombstone_only = map (\<lambda>s. n_name (snap_node s)) (filter (tombstone_only e env sb kind) snaps)\<rparr>)"

section \<open>The claim\<close>

definition claim_input :: "engine \<Rightarrow> txenv \<Rightarrow> sandbox \<Rightarrow> op_kind \<Rightarrow> string \<Rightarrow> node \<Rightarrow> registry \<Rightarrow> gate_input" where
  "claim_input e env sb kind target n db =
    (let g = (gateInput e env sb kind n)\<lparr>gi_booked := SumBookings target (sb_id sb) db\<rparr> in
     if kind = OpCreate \<or> kind = OpRestore
     then g\<lparr>gi_tombstoned := HasTombstone (sb_id sb) target db, gi_tap := StoreTAPConflict target (sb_id sb) db\<rparr>
     else g)"

text \<open>\<open>claim\<close>: the error, or \<open>None\<close> when the gates pass.\<close>

definition claim :: "engine \<Rightarrow> txenv \<Rightarrow> sandbox \<Rightarrow> op_kind \<Rightarrow> string \<Rightarrow> registry \<Rightarrow> err option" where
  "claim e env sb kind target db =
    (case get_row (db_nodes db) target of
       None \<Rightarrow> Some (Refusal target gateStatus ''node unknown'')
     | Some n \<Rightarrow>
         (case check (claim_input e env sb kind target n db)
             (if kind = OpCreate \<or> kind = OpRestore then claimGates else admitGates) of
            Some (x, t) \<Rightarrow> Some (Refusal (n_name n) x t)
          | None \<Rightarrow> None))"

definition capacityRefusal :: "node \<Rightarrow> sandbox \<Rightarrow> booking_sums \<Rightarrow> string" where
  "capacityRefusal n sb booked =
    (case check \<lparr>gi_node = n, gi_memory_available = 0, gi_disk_available = 0, gi_booked = booked, gi_tombstoned = False,
        gi_tap = [], gi_connected = False, gi_vcpus = sb_vcpus sb, gi_mem_mib = sb_memory_mib sb, gi_pin = [],
        gi_avoid = [], gi_restore = False, gi_checkpoint_store = [], gi_disk_budget = 0\<rparr> capacityGates of
       Some (_, t) \<Rightarrow> t
     | None \<Rightarrow> [])"

definition admissionError :: "string \<Rightarrow> gate \<Rightarrow> string \<Rightarrow> podID \<Rightarrow> err" where
  "admissionError n g t i =
    (if g \<in> {gateStatus, gateForked, gateConnected}
     then Admission n g t ErrNodeUnavailable (''node '' @ n @ '' is unavailable: '' @ t)
     else if g = gateDraining then Admission n g t ErrNoCapacity (''node '' @ n @ '' is draining'')
     else Admission n g t ErrNoCapacity (''no capacity on node '' @ n @ '' for sandbox '' @ i @ '' (retryable): '' @ t))"

section \<open>Lemmas\<close>

lemma check_None: "check g gs = None \<longleftrightarrow> (\<forall>x\<in>set gs. gate_text g x = [])"
  by (induction gs) (auto simp: Let_def)

lemma check_Some: "check g gs = Some (x, t) \<Longrightarrow> x \<in> set gs \<and> gate_text g x = t \<and> t \<noteq> []"
  by (induction gs) (auto simp: Let_def split: if_splits)

text \<open>What the capacity gates admit.\<close>

definition fits :: "node \<Rightarrow> booking_sums \<Rightarrow> int \<Rightarrow> int \<Rightarrow> bool" where
  "fits n b vcpus mem = (bs_count b < n_slots n \<and> (VCPUCapacity n > 0 \<longrightarrow> bs_vcpus b + vcpus \<le> VCPUCapacity n)
    \<and> bs_memory_mib b + mem \<le> MemoryCapacityMiB n)"

lemma capacity_gates:
  "(\<forall>x\<in>set capacityGates. gate_text g x = []) \<longleftrightarrow> fits (gi_node g) (gi_booked g) (gi_vcpus g) (gi_mem_mib g)
     \<and> n_slots (gi_node g) > 0"
  by (auto simp: capacityGates_def fits_def Let_def split: if_splits)

lemma capacityRefusal_fits:
  assumes "capacityRefusal n sb b = []"
  shows "fits n b (sb_vcpus sb) (sb_memory_mib sb)"
proof -
  let ?g = "\<lparr>gi_node = n, gi_memory_available = 0, gi_disk_available = 0, gi_booked = b, gi_tombstoned = False,
        gi_tap = [], gi_connected = False, gi_vcpus = sb_vcpus sb, gi_mem_mib = sb_memory_mib sb, gi_pin = [],
        gi_avoid = [], gi_restore = False, gi_checkpoint_store = [], gi_disk_budget = 0\<rparr>"
  have "check ?g capacityGates = None"
    using assms check_Some by (fastforce simp: capacityRefusal_def split: option.splits)
  then have "\<forall>x\<in>set capacityGates. gate_text ?g x = []" by (simp only: check_None)
  then show ?thesis by (simp add: capacity_gates)
qed

lemma claim_input_simps [simp]:
  "gi_node (claim_input e env sb kind target n db) = n"
  "gi_booked (claim_input e env sb kind target n db) = SumBookings target (sb_id sb) db"
  "gi_vcpus (claim_input e env sb kind target n db) = sb_vcpus sb"
  "gi_mem_mib (claim_input e env sb kind target n db) = sb_memory_mib sb"
  "gi_connected (claim_input e env sb kind target n db) = tx_connected env (n_name n)"
  by (simp_all add: claim_input_def gateInput_def Let_def)

lemma claim_None:
  assumes "claim e env sb kind target db = None"
  obtains n where "get_row (db_nodes db) target = Some n"
    and "\<forall>x\<in>set (if kind = OpCreate \<or> kind = OpRestore then claimGates else admitGates).
      gate_text (claim_input e env sb kind target n db) x = []"
proof -
  obtain n where n: "get_row (db_nodes db) target = Some n"
    using assms by (auto simp: claim_def split: option.splits)
  moreover have "check (claim_input e env sb kind target n db)
      (if kind = OpCreate \<or> kind = OpRestore then claimGates else admitGates) = None"
    using assms n by (auto simp: claim_def split: option.splits)
  ultimately show thesis using that unfolding check_None by blast
qed

lemma claim_fits:
  assumes "claim e env sb kind target db = None"
  obtains n where "get_row (db_nodes db) target = Some n"
    and "fits n (SumBookings target (sb_id sb) db) (sb_vcpus sb) (sb_memory_mib sb)"
proof -
  obtain n where n: "get_row (db_nodes db) target = Some n"
    and gates: "\<forall>x\<in>set (if kind = OpCreate \<or> kind = OpRestore then claimGates else admitGates).
      gate_text (claim_input e env sb kind target n db) x = []"
    using claim_None [OF assms] .
  have "set capacityGates \<subseteq> set (if kind = OpCreate \<or> kind = OpRestore then claimGates else admitGates)"
    by (auto simp: capacityGates_def claimGates_def admitGates_def)
  with gates have "\<forall>x\<in>set capacityGates. gate_text (claim_input e env sb kind target n db) x = []" by blast
  then show thesis using that n by (simp add: capacity_gates)
qed

section \<open>The order of the candidates\<close>

definition nodes_wf :: "registry \<Rightarrow> bool" where
  "nodes_wf db = (keyed (db_nodes db) \<and> (\<forall>(k, n)\<in>set (db_nodes db). n_name n = k))"

lemma nodes_wf_name: "nodes_wf db \<Longrightarrow> get_row (db_nodes db) k = Some n \<Longrightarrow> n_name n = k"
  by (auto simp: nodes_wf_def get_row_def dest: map_of_SomeD)

lemma nodes_wf_row: "nodes_wf db \<Longrightarrow> n \<in> snd ` set (db_nodes db) \<longleftrightarrow> get_row (db_nodes db) (n_name n) = Some n"
proof
  assume wf: "nodes_wf db"
  show "n \<in> snd ` set (db_nodes db) \<Longrightarrow> get_row (db_nodes db) (n_name n) = Some n"
    using wf by (auto simp: nodes_wf_def get_row_def keyed_def)
  show "get_row (db_nodes db) (n_name n) = Some n \<Longrightarrow> n \<in> snd ` set (db_nodes db)"
    by (force simp: get_row_def dest: map_of_SomeD)
qed

lemma distinct_node_names: "nodes_wf db \<Longrightarrow> distinct (map n_name (map snd (db_nodes db)))"
proof -
  assume wf: "nodes_wf db"
  then have "map (n_name \<circ> snd) (db_nodes db) = map fst (db_nodes db)" by (auto simp: nodes_wf_def)
  moreover have "distinct (map fst (db_nodes db))" using wf by (simp add: nodes_wf_def keyed_def)
  ultimately show ?thesis by (simp only: map_map)
qed

text \<open>What placement sees of the node \<open>c\<close>, and whether it is feasible.\<close>

definition seen :: "engine \<Rightarrow> txenv \<Rightarrow> sandbox \<Rightarrow> op_kind \<Rightarrow> registry \<Rightarrow> node \<Rightarrow> gate_input" where
  "seen e env sb kind db n = placement_input e env sb kind (snapshot_of (sb_id sb) db n)"

definition score_of :: "engine \<Rightarrow> txenv \<Rightarrow> sandbox \<Rightarrow> op_kind \<Rightarrow> registry \<Rightarrow> string \<Rightarrow> rat" where
  "score_of e env sb kind db c =
    (case get_row (db_nodes db) c of None \<Rightarrow> 0 | Some n \<Rightarrow> score e (seen e env sb kind db n))"

definition passes :: "engine \<Rightarrow> txenv \<Rightarrow> sandbox \<Rightarrow> op_kind \<Rightarrow> registry \<Rightarrow> node \<Rightarrow> bool" where
  "passes e env sb kind db n = (\<forall>x\<in>set placementGates. gate_text (seen e env sb kind db n) x = [])"

definition feasible :: "engine \<Rightarrow> txenv \<Rightarrow> sandbox \<Rightarrow> op_kind \<Rightarrow> registry \<Rightarrow> string \<Rightarrow> bool" where
  "feasible e env sb kind db c =
    (case get_row (db_nodes db) c of None \<Rightarrow> False | Some n \<Rightarrow> n_status n \<noteq> NodeRemoved \<and> passes e env sb kind db n)"

lemma better_lex:
  "better e a b \<longleftrightarrow>
    (if cfg_placement (e_cfg e) = PlacementSpread then snd b < snd a else snd a < snd b)
    \<or> (snd a = snd b \<and> fst a < fst b)"
  by (auto simp: better_def not_less less_le)

lemma transp_better: "transp (better e)"
proof (rule transpI)
  fix x y z assume "better e x y" "better e y z"
  then show "better e x z"
    by (cases "cfg_placement (e_cfg e) = PlacementSpread") (auto simp: better_lex)
qed

lemma total_better: "fst a \<noteq> fst b \<Longrightarrow> better e a b \<or> better e b a"
  by (cases "snd a" "snd b" rule: linorder_cases; cases "fst a" "fst b" rule: linorder_cases) (auto simp: better_lex)

lemma snap_node_of [simp]: "snap_node (snapshot_of i db n) = n"
  by (simp add: snapshot_of_def)

lemma verdict_alt:
  "verdict e env sb kind (snapshot_of (sb_id sb) db n) =
    (case check (seen e env sb kind db n) placementGates of
       Some (_, t) \<Rightarrow> \<lparr>pc_node = n_name n, pc_feasible = False, pc_score = 0, pc_reason = t\<rparr>
     | None \<Rightarrow> \<lparr>pc_node = n_name n, pc_feasible = True, pc_score = score e (seen e env sb kind db n), pc_reason = []\<rparr>)"
  by (simp add: verdict_def seen_def Let_def cong: option.case_cong)

lemma verdict_feasible:
  "pc_feasible (verdict e env sb kind (snapshot_of (sb_id sb) db n)) \<longleftrightarrow> passes e env sb kind db n"
  by (simp add: verdict_alt passes_def check_None [symmetric] split: option.splits)

lemma verdict_passes:
  "passes e env sb kind db n \<Longrightarrow> verdict e env sb kind (snapshot_of (sb_id sb) db n) =
    \<lparr>pc_node = n_name n, pc_feasible = True, pc_score = score e (seen e env sb kind db n), pc_reason = []\<rparr>"
  by (simp add: verdict_alt passes_def check_None [symmetric])

definition live_nodes :: "registry \<Rightarrow> node list" where
  "live_nodes db = sort_by (\<lambda>a b. n_name a < n_name b) (filter (\<lambda>n. n_status n \<noteq> NodeRemoved) (map snd (db_nodes db)))"

lemma live_nodes_props:
  assumes "nodes_wf db"
  shows "distinct (map n_name (live_nodes db))"
    and "n \<in> set (live_nodes db) \<longleftrightarrow> n_status n \<noteq> NodeRemoved \<and> get_row (db_nodes db) (n_name n) = Some n"
proof -
  have "distinct (map n_name (map snd (db_nodes db)))" using assms by (rule distinct_node_names)
  then show "distinct (map n_name (live_nodes db))" by (simp only: live_nodes_def distinct_map_sort_by distinct_map_filter)
  show "n \<in> set (live_nodes db) \<longleftrightarrow> n_status n \<noteq> NodeRemoved \<and> get_row (db_nodes db) (n_name n) = Some n"
    using nodes_wf_row [OF assms, of n] by (auto simp: live_nodes_def)
qed

definition ranked :: "engine \<Rightarrow> txenv \<Rightarrow> sandbox \<Rightarrow> op_kind \<Rightarrow> registry \<Rightarrow> (string \<times> rat) list" where
  "ranked e env sb kind db = map (\<lambda>n. (n_name n, score e (seen e env sb kind db n)))
    (filter (passes e env sb kind db) (live_nodes db))"

lemma place_candidates_alt:
  "pl_candidates (place e env sb kind db) =
    (let cs = map fst (sort_by (better e) (ranked e env sb kind db)) in
     if kind = OpRestore \<and> sb_node sb \<noteq> [] then prefer_node (sb_node sb) cs else cs)"
proof -
  have "map (\<lambda>v. (pc_node v, pc_score v)) (filter pc_feasible (map (verdict e env sb kind) (PlacementSnapshot (sb_id sb) db)))
      = map (\<lambda>n. (pc_node (verdict e env sb kind (snapshot_of (sb_id sb) db n)), pc_score (verdict e env sb kind (snapshot_of (sb_id sb) db n))))
        (filter (passes e env sb kind db) (live_nodes db))"
    by (simp add: PlacementSnapshot_def live_nodes_def filter_map comp_def verdict_feasible)
  also have "\<dots> = ranked e env sb kind db"
    unfolding ranked_def by (intro map_cong) (simp_all add: verdict_passes)
  finally have "map (\<lambda>v. (pc_node v, pc_score v)) (filter pc_feasible (map (verdict e env sb kind) (PlacementSnapshot (sb_id sb) db)))
      = ranked e env sb kind db" .
  then show ?thesis unfolding place_def Let_def by (simp only: placement.simps)
qed

lemma ranked_props:
  assumes "nodes_wf db"
  shows "distinct (map fst (ranked e env sb kind db))"
    and "fst ` set (ranked e env sb kind db) = {c. feasible e env sb kind db c}"
    and "\<And>r. r \<in> set (ranked e env sb kind db) \<Longrightarrow> snd r = score_of e env sb kind db (fst r)"
proof -
  show "distinct (map fst (ranked e env sb kind db))"
    using live_nodes_props(1) [OF assms] by (simp add: ranked_def comp_def distinct_map_filter)
  show "fst ` set (ranked e env sb kind db) = {c. feasible e env sb kind db c}"
  proof (intro set_eqI iffI)
    fix c assume "c \<in> fst ` set (ranked e env sb kind db)"
    then obtain n where "n \<in> set (live_nodes db)" "passes e env sb kind db n" "c = n_name n" by (auto simp: ranked_def)
    then show "c \<in> {c. feasible e env sb kind db c}" using live_nodes_props(2) [OF assms] by (simp add: feasible_def)
  next
    fix c assume "c \<in> {c. feasible e env sb kind db c}"
    then obtain n where n: "get_row (db_nodes db) c = Some n" "n_status n \<noteq> NodeRemoved" "passes e env sb kind db n"
      by (auto simp: feasible_def split: option.splits)
    then have "n_name n = c" using nodes_wf_name [OF assms] by simp
    with n have "n \<in> set (live_nodes db)" using live_nodes_props(2) [OF assms] by simp
    with n(3) \<open>n_name n = c\<close> show "c \<in> fst ` set (ranked e env sb kind db)" by (force simp: ranked_def)
  qed
  show "snd r = score_of e env sb kind db (fst r)" if "r \<in> set (ranked e env sb kind db)" for r
    using that live_nodes_props(2) [OF assms] by (auto simp: ranked_def score_of_def)
qed

lemma prefer_node_props:
  assumes "distinct cs"
  shows "set (prefer_node n cs) = set cs" and "distinct (prefer_node n cs)"
    and "filter (\<lambda>c. c \<noteq> n) (prefer_node n cs) = filter (\<lambda>c. c \<noteq> n) cs"
    and "n \<in> set cs \<Longrightarrow> hd (prefer_node n cs) = n"
proof -
  have "filter (\<lambda>c. c \<noteq> n) (remove1 n cs) = filter (\<lambda>c. c \<noteq> n) cs" by (induction cs) auto
  then show "filter (\<lambda>c. c \<noteq> n) (prefer_node n cs) = filter (\<lambda>c. c \<noteq> n) cs" by (simp add: prefer_node_def)
qed (use assms in \<open>auto simp: prefer_node_def\<close>)

lemma ranked_sorted:
  assumes "nodes_wf db"
  shows "sorted_wrt (\<lambda>a b. better e (a, score_of e env sb kind db a) (b, score_of e env sb kind db b))
    (map fst (sort_by (better e) (ranked e env sb kind db)))"
proof -
  let ?r = "ranked e env sb kind db"
  have d: "distinct ?r" "\<And>x y. x \<in> set ?r \<Longrightarrow> y \<in> set ?r \<Longrightarrow> x \<noteq> y \<Longrightarrow> fst x \<noteq> fst y"
    using ranked_props(1) [OF assms, of e env sb kind] unfolding distinct_map inj_on_def by blast+
  have "sorted_wrt (better e) (sort_by (better e) ?r)"
    using d total_better by (intro sorted_sort_by transp_better) blast+
  then have "sorted_wrt (\<lambda>x y. better e (fst x, score_of e env sb kind db (fst x)) (fst y, score_of e env sb kind db (fst y)))
      (sort_by (better e) ?r)"
    by (rule sorted_wrt_mono_rel [rotated]) (simp add: ranked_props(3) [OF assms, symmetric])
  then show ?thesis by (simp add: sorted_wrt_map)
qed

text \<open>On the registry a placement saw, a claim sees what placement saw.\<close>

lemma tap_conflicts_legacy: "\<not> IsLegacy i \<Longrightarrow> tap_conflicts n i db = []"
  by (auto simp: tap_conflicts_def rows_where_def tapShares_def IsLegacy_def LegacyLen_def by_id_def)

lemma claim_input_seen:
  assumes "kind = OpCreate \<or> kind = OpRestore" and "n_name n = c"
  shows "claim_input e env sb kind c n db = (seen e env sb kind db n)\<lparr>gi_memory_available := 0, gi_disk_available := 0\<rparr>"
  using assms tap_conflicts_legacy [of "sb_id sb" c db]
  by (cases "IsLegacy (sb_id sb)")
    (auto simp: claim_input_def seen_def placement_input_def gateInput_def snapshot_of_def StoreTAPConflict_def Let_def)

lemma gate_text_claim:
  "x \<in> set claimGates \<Longrightarrow> gate_text (g\<lparr>gi_memory_available := a, gi_disk_available := b\<rparr>) x = gate_text g x"
  by (auto simp: claimGates_def Let_def)

lemma StoreTAPConflict_none:
  assumes "n \<noteq> []"
  shows "StoreTAPConflict n i db = [] \<longleftrightarrow>
    \<not> (\<exists>s\<in>snd ` set (db_sandboxes db). sb_node s = n \<and> TAPConflict i (sb_id s) \<and> tapHolds s)"
proof -
  have shares: "tapShares i j \<longleftrightarrow> TAPConflict i j" for j
    by (auto simp: tapShares_def TAPConflict_def IsLegacy_def LegacyLen_def)
  have some: "[] \<notin> set (tap_conflicts n i db)"
    by (auto simp: tap_conflicts_def tapShares_def rows_where_def by_id_def)
  have "StoreTAPConflict n i db = [] \<longleftrightarrow> tap_conflicts n i db = []"
    using some tap_conflicts_legacy [of i n db] by (auto simp: StoreTAPConflict_def split: list.splits)
  also have "\<dots> \<longleftrightarrow> set (tap_conflicts n i db) = {}" by simp
  also have "\<dots> \<longleftrightarrow> \<not> (\<exists>s\<in>snd ` set (db_sandboxes db). sb_node s = n \<and> TAPConflict i (sb_id s) \<and> tapHolds s)"
    using assms by (auto simp: tap_conflicts_def rows_where_def by_id_def shares simp del: set_empty)
  finally show ?thesis .
qed

lemma bs_count_nonneg: "0 \<le> bs_count (SumBookings n i db)"
  by (simp add: SumBookings_def Let_def)

lemma other_gates:
  assumes "n_name n = target"
  shows "(\<forall>x\<in>set (if kind = OpCreate \<or> kind = OpRestore then claimGates else admitGates) - set capacityGates.
      gate_text (claim_input e env sb kind target n db) x = []) \<longleftrightarrow>
    n_status n = NodeReady \<and> \<not> n_draining n \<and> \<not> Forked n \<and> tx_connected env target
    \<and> (kind = OpCreate \<or> kind = OpRestore \<longrightarrow> \<not> HasTombstone (sb_id sb) target db \<and> StoreTAPConflict target (sb_id sb) db = [])
    \<and> (kind = OpCreate \<longrightarrow> sb_pin_node sb = [] \<or> sb_pin_node sb = target)
    \<and> (kind = OpRestore \<longrightarrow> (if sb_checkpoint_store sb \<noteq> [] then n_object_store_id n = sb_checkpoint_store sb
        else n_object_store_id n \<noteq> [] \<or> n_object_store n))"
proof (cases "kind = OpCreate \<or> kind = OpRestore")
  case True
  have gs: "set claimGates - set capacityGates =
      {gateStatus, gatePin, gateDraining, gateForked, gateConnected, gateTombstone, gateTAP, gateStore}"
    by (auto simp: claimGates_def capacityGates_def)
  from True consider "kind = OpCreate" | "kind = OpRestore" by blast
  then show ?thesis
  proof cases
    case 1
    with gs assms show ?thesis
      by (simp add: claim_input_def gateInput_def Let_def)
  next
    case 2
    with gs assms show ?thesis
      by (simp add: claim_input_def gateInput_def Let_def)
  qed
next
  case False
  have "set admitGates - set capacityGates = {gateStatus, gateDraining, gateForked, gateConnected}"
    by (auto simp: admitGates_def capacityGates_def)
  with False assms show ?thesis by (simp add: claim_input_def gateInput_def Let_def)
qed

section \<open>Properties\<close>





text \<open>C29: What a begin's claim of a node checks. The claim passes exactly when the node is ready, not draining,
  not forked and connected to the instance, and the pod fits into its slots, vCPUs (when they are gated) and
  memory beside all other bookings; a create or restore also needs no tombstone of the pod and no other pod with
  its TAP device there, a create its pin, a restore the checkpoint's object store.\<close>

theorem claim_meaning:
  assumes "nodes_wf db" and "get_row (db_nodes db) target = Some n" and "target \<noteq> []"
  shows "claim e env sb kind target db = None \<longleftrightarrow>
    fits n (SumBookings target (sb_id sb) db) (sb_vcpus sb) (sb_memory_mib sb)
    \<and> n_status n = NodeReady \<and> \<not> n_draining n \<and> \<not> Forked n \<and> tx_connected env target
    \<and> (kind = OpCreate \<or> kind = OpRestore \<longrightarrow> \<not> HasTombstone (sb_id sb) target db
        \<and> \<not> (\<exists>s\<in>snd ` set (db_sandboxes db). sb_node s = target \<and> TAPConflict (sb_id sb) (sb_id s) \<and> tapHolds s))
    \<and> (kind = OpCreate \<longrightarrow> sb_pin_node sb = [] \<or> sb_pin_node sb = target)
    \<and> (kind = OpRestore \<longrightarrow> (if sb_checkpoint_store sb \<noteq> [] then n_object_store_id n = sb_checkpoint_store sb
        else n_object_store_id n \<noteq> [] \<or> n_object_store n))"
proof -
  let ?g = "claim_input e env sb kind target n db"
  let ?gs = "if kind = OpCreate \<or> kind = OpRestore then claimGates else admitGates"
  have name: "n_name n = target" using nodes_wf_name [OF assms(1,2)] .
  have "claim e env sb kind target db = None \<longleftrightarrow> (\<forall>x\<in>set ?gs. gate_text ?g x = [])"
    unfolding check_None [symmetric] using assms(2) by (auto simp: claim_def split: option.splits)
  also have "\<dots> \<longleftrightarrow> (\<forall>x\<in>set capacityGates. gate_text ?g x = []) \<and> (\<forall>x\<in>set ?gs - set capacityGates. gate_text ?g x = [])"
    by (auto simp: capacityGates_def claimGates_def admitGates_def simp del: gate_text.simps)
  also have "(\<forall>x\<in>set capacityGates. gate_text ?g x = []) \<longleftrightarrow> fits n (SumBookings target (sb_id sb) db) (sb_vcpus sb) (sb_memory_mib sb)"
    unfolding capacity_gates using bs_count_nonneg [of target "sb_id sb" db] by (auto simp: fits_def)
  finally show ?thesis
    unfolding StoreTAPConflict_none [OF assms(3), of "sb_id sb" db, symmetric] other_gates [OF name] .
qed

theorem claim_meaning_witness:
  "nodes_wf sample_db \<and> get_row (db_nodes sample_db) ''n1'' = Some (sample_node ''n1'') \<and>
   (claim sample_engine sample_env sample_sandbox OpCreate ''n1'' sample_db = None) \<and> n_status (sample_node ''n1'') = NodeReady"
proof -
  have wf: "nodes_wf sample_db" by (simp add: nodes_wf_def keyed_def sample_defs)
  have row: "get_row (db_nodes sample_db) ''n1'' = Some (sample_node ''n1'')" by (simp add: get_row_def sample_db_def)
  have "claim sample_engine sample_env sample_sandbox OpCreate ''n1'' sample_db = None" by code_simp
  with wf row show ?thesis using claim_meaning [OF wf row, of sample_engine sample_env sample_sandbox OpCreate] by blast
qed

end
