(* ===== verification/Change.thy ===== *)
theory Change
  imports Placement
begin

text \<open>
  One transaction's lifecycle write of a row, from \<open>go/internal/sandbox/change.go\<close> and the observations of
  \<open>pod.go\<close>: the change and what goes with it (tombstones, the booking that follows the state, the end of
  processes, run spans), the application of an observation, and the commit.

  A \<open>PodInfo\<close> and a \<open>Checkpoint\<close> are the protobuf messages of feosd, with the fields the engine reads; an
  absent message is \<^term>\<open>None\<close>, which Go's getters read as the zero message.
\<close>

section \<open>What a node says of a pod\<close>

datatype pod_state =
    POD_STATE_UNSPECIFIED | POD_STATE_PENDING | POD_STATE_RUNNING | POD_STATE_STOPPED | POD_STATE_SUSPENDED
  | POD_STATE_FAILED | POD_STATE_HIBERNATED

fun pod_state_text :: "pod_state \<Rightarrow> string" where
  "pod_state_text POD_STATE_UNSPECIFIED = ''POD_STATE_UNSPECIFIED''"
| "pod_state_text POD_STATE_PENDING = ''POD_STATE_PENDING''"
| "pod_state_text POD_STATE_RUNNING = ''POD_STATE_RUNNING''"
| "pod_state_text POD_STATE_STOPPED = ''POD_STATE_STOPPED''"
| "pod_state_text POD_STATE_SUSPENDED = ''POD_STATE_SUSPENDED''"
| "pod_state_text POD_STATE_FAILED = ''POD_STATE_FAILED''"
| "pod_state_text POD_STATE_HIBERNATED = ''POD_STATE_HIBERNATED''"

record checkpoint =
  cp_head_key :: string
  cp_epoch :: "64 word"
  cp_memory :: bool

record hibernation =
  hb_abandonable :: bool
  hb_request_ids :: "string list"

record pod_info =
  pi_labels :: "(string \<times> string) list"
  pi_state :: pod_state
  pi_reason :: string
  pi_ipv6_address :: string
  pi_checkpoint :: "checkpoint option"
  pi_hibernation :: "hibernation option"

definition LabelSandbox :: string where "LabelSandbox = ''ferun.sandbox''"
definition LabelIncarnation :: string where "LabelIncarnation = ''ferun.incarnation''"

definition podIncarnation :: "engine \<Rightarrow> pod_info \<Rightarrow> uuid" where
  "podIncarnation e p =
    (case map_of (pi_labels p) LabelIncarnation of
       None \<Rightarrow> uuid_nil
     | Some s \<Rightarrow> (case e_parse_uuid e s of None \<Rightarrow> uuid_nil | Some u \<Rightarrow> u))"

definition isFerunPod :: "pod_info \<Rightarrow> bool" where
  "isFerunPod p = (map_of (pi_labels p) LabelSandbox \<noteq> None)"

record observation =
  obs_answered :: bool
  obs_info :: "pod_info option"

definition found :: "observation \<Rightarrow> bool" where
  "found o' = (obs_answered o' \<and> obs_info o' \<noteq> None)"

definition ours :: "engine \<Rightarrow> uuid \<Rightarrow> observation \<Rightarrow> bool" where
  "ours e inc o' = (obs_answered o' \<and> (case obs_info o' of None \<Rightarrow> False | Some p \<Rightarrow> podIncarnation e p = inc))"

definition stale :: "engine \<Rightarrow> uuid \<Rightarrow> observation \<Rightarrow> bool" where
  "stale e inc o' = (obs_answered o' \<and> (case obs_info o' of None \<Rightarrow> False | Some p \<Rightarrow> podIncarnation e p \<noteq> inc))"

definition podAddress :: "pod_info \<Rightarrow> string" where
  "podAddress p = (if pi_state p = POD_STATE_HIBERNATED then [] else pi_ipv6_address p)"

section \<open>The change\<close>

record change =
  ch_before :: sandbox
  ch_after :: sandbox
  ch_ends_processes :: bool
  ch_open_run :: string
  ch_close_run :: string
  ch_tombstones :: "(tombstone_key \<times> string) list"
  ch_events :: "event list"

definition newChange :: "sandbox \<Rightarrow> change" where
  "newChange row = \<lparr>ch_before = row, ch_after = row, ch_ends_processes = False, ch_open_run = [], ch_close_run = [],
    ch_tombstones = [], ch_events = []\<rparr>"

text \<open>\<open>upd f c\<close> is an assignment through \<open>a := &c.after\<close>.\<close>

definition upd :: "(sandbox \<Rightarrow> sandbox) \<Rightarrow> change \<Rightarrow> change" where
  "upd f c = c\<lparr>ch_after := f (ch_after c)\<rparr>"

definition change_tombstone :: "string \<Rightarrow> uuid \<Rightarrow> string \<Rightarrow> change \<Rightarrow> change" where
  "change_tombstone n inc reason c = c\<lparr>ch_tombstones := ch_tombstones c @ [((sb_id (ch_before c), n, inc), reason)]\<rparr>"

definition tombstoneKeys :: "change \<Rightarrow> tombstone_key list" where
  "tombstoneKeys c = map fst (ch_tombstones c)"

subsection \<open>Checkpoints\<close>

text \<open>\<open>int64(min(epoch, 1<<63-1))\<close>.\<close>

definition epoch64 :: "64 word \<Rightarrow> int" where
  "epoch64 w = min (uint w) (2 ^ 63 - 1)"

definition objectStoreOf :: "string \<Rightarrow> registry \<Rightarrow> string" where
  "objectStoreOf n db = (case get_row (db_nodes db) n of None \<Rightarrow> [] | Some nd \<Rightarrow> n_object_store_id nd)"

definition merge_row :: "gotime \<Rightarrow> checkpoint option \<Rightarrow> string \<Rightarrow> registry \<Rightarrow> sandbox \<Rightarrow> sandbox" where
  "merge_row now cp n db a =
    (case cp of
       None \<Rightarrow> a
     | Some p \<Rightarrow>
         if cp_head_key p = [] then a
         else if epoch64 (cp_epoch p) < sb_checkpoint_epoch a then a
         else if epoch64 (cp_epoch p) = sb_checkpoint_epoch a \<and> cp_head_key p = sb_checkpoint_head a then a
         else a\<lparr>sb_checkpoint_head := cp_head_key p, sb_checkpoint_epoch := epoch64 (cp_epoch p),
             sb_checkpoint_memory := cp_memory p, sb_checkpoint_at := now, sb_checkpoint_store := objectStoreOf n db\<rparr>)"

definition mergeCheckpoint :: "gotime \<Rightarrow> checkpoint option \<Rightarrow> string \<Rightarrow> registry \<Rightarrow> change \<Rightarrow> change" where
  "mergeCheckpoint now cp n db c = upd (merge_row now cp n db) c"

subsection \<open>Observations\<close>

definition observeOurs :: "gotime \<Rightarrow> string \<Rightarrow> pod_info \<Rightarrow> registry \<Rightarrow> change \<Rightarrow> change" where
  "observeOurs now n p db c0 =
    (let was = sb_client_state (ch_before c0);
         c = mergeCheckpoint now (pi_checkpoint p) n db
           (upd (\<lambda>a. a\<lparr>sb_node := n, sb_materialised := True, sb_lost_from := [], sb_address := podAddress p\<rparr>) c0);
         settle = upd (\<lambda>a. a\<lparr>sb_pending_since := 0\<rparr>);
         undescribe = (\<lambda>st a. a\<lparr>sb_client_state := st,
           sb_status_description := (if was \<noteq> st then [] else sb_status_description a)\<rparr>)
     in case pi_state p of
          POD_STATE_PENDING \<Rightarrow> upd (\<lambda>a. a\<lparr>sb_client_state := StateCreating,
            sb_pending_since := (if sb_pending_since a = 0 then now else sb_pending_since a)\<rparr>) c
        | POD_STATE_RUNNING \<Rightarrow> settle (upd (undescribe StateRunning) c)
        | POD_STATE_SUSPENDED \<Rightarrow> settle ((upd (\<lambda>a. undescribe StatePaused (a\<lparr>
            sb_paused_at := (if sb_paused_at a = 0 \<or> was \<noteq> StatePaused then now else sb_paused_at a)\<rparr>)) c)
            \<lparr>ch_close_run := ''paused''\<rparr>)
        | POD_STATE_HIBERNATED \<Rightarrow> settle ((upd (undescribe StateHibernated) c)\<lparr>ch_close_run := ''hibernated''\<rparr>)
        | POD_STATE_STOPPED \<Rightarrow> settle ((upd (\<lambda>a. a\<lparr>sb_client_state := StateStopped,
            sb_status_description := pi_reason p\<rparr>) c)\<lparr>ch_close_run := ''stopped''\<rparr>)
        | POD_STATE_FAILED \<Rightarrow> settle ((upd (\<lambda>a. a\<lparr>sb_client_state := StateFailed,
            sb_status_description := pi_reason p\<rparr>) c)\<lparr>ch_close_run := ''failed''\<rparr>)
        | POD_STATE_UNSPECIFIED \<Rightarrow> c)"

definition notFound :: "engine \<Rightarrow> string \<Rightarrow> string \<Rightarrow> change \<Rightarrow> change" where
  "notFound e n why c0 =
    (let c = upd (\<lambda>a. a\<lparr>sb_address := []\<rparr>) c0; a0 = ch_after c in
     upd (\<lambda>a. a\<lparr>sb_pending_since := 0\<rparr>)
       (if HasCheckpoint a0 then
          (upd (\<lambda>a. a\<lparr>sb_client_state := StateHibernated, sb_node := [], sb_materialised := False,
             sb_status_description := (if sb_client_state (ch_before c) \<noteq> StateHibernated
               then ''not on node '' @ n @ ''; restored from the checkpoint of '' @ rfc3339 e (sb_checkpoint_at a0) @ '' on the next use''
               else sb_status_description a)\<rparr>) c)\<lparr>ch_close_run := ''hibernated''\<rparr>
        else if sb_materialised a0 then
          (upd (\<lambda>a. a\<lparr>sb_client_state := StateLost, sb_status_description := ''not on node '' @ n\<rparr>) c)\<lparr>ch_close_run := ''lost''\<rparr>
        else
          (upd (\<lambda>a. a\<lparr>sb_client_state := StatePending, sb_node := [], sb_materialised := False,
             sb_status_description := (if why = [] then ''not on node '' @ n @ ''; created on the next use'' else why)\<rparr>) c)
             \<lparr>ch_close_run := ''lost''\<rparr>))"

definition staleReason :: "engine \<Rightarrow> uuid \<Rightarrow> string" where
  "staleReason e inc = ''stale record of incarnation '' @ e_uuid_text e inc"

definition observe :: "engine \<Rightarrow> gotime \<Rightarrow> string \<Rightarrow> observation \<Rightarrow> registry \<Rightarrow> change \<Rightarrow> change" where
  "observe e now n o' db c =
    (case obs_info o' of
       Some p \<Rightarrow>
         if ours e (sb_incarnation (ch_before c)) o' then observeOurs now n p db c
         else if stale e (sb_incarnation (ch_before c)) o'
         then notFound e n [] (change_tombstone n (podIncarnation e p) (staleReason e (podIncarnation e p)) c)
         else notFound e n [] c
     | None \<Rightarrow> notFound e n [] c)"

subsection \<open>Bookings follow the state\<close>

datatype booking_rule = bookNone | bookMust | bookUnchanged

definition bookingOf :: "client_state \<Rightarrow> booking_rule" where
  "bookingOf s =
    (if s \<in> {StateCreating, StateRunning, StatePausing, StateResuming} then bookMust
     else if s \<in> {StateHibernating, StateUnknown} then bookUnchanged
     else bookNone)"

definition endsProcesses :: "client_state \<Rightarrow> bool" where
  "endsProcesses s = (s \<in> {StateStopped, StateFailed, StateHibernated, StateLost, StatePending})"

definition overbooked :: "sandbox \<Rightarrow> string \<Rightarrow> event" where
  "overbooked a gate = \<lparr>ev_sandbox = sb_id a, ev_tenant = sb_owner a, ev_node = sb_node a, ev_kind = KindOverbooked,
    ev_span = [], ev_parent = [],
    ev_name = ''node '' @ sb_node a @ '' overbooked by sandbox '' @ sb_id a @ '': '' @ gate\<rparr>"

definition sync_must :: "gotime \<Rightarrow> sandbox \<Rightarrow> registry \<Rightarrow> err + registry \<times> event list" where
  "sync_must now after db =
    (if sb_node after = [] then Inr (db, [])
     else if (case GetBooking (sb_id after) db of Inr b \<Rightarrow> b_node b = sb_node after | Inl _ \<Rightarrow> False) then Inr (db, [])
     else case get_row (db_nodes db) (sb_node after) of
       None \<Rightarrow> Inl ErrNoRow
     | Some n \<Rightarrow>
         let gate = capacityRefusal n after (SumBookings (sb_node after) (sb_id after) db) in
         bindE (UpsertBooking now (sb_id after) (sb_node after) (sb_vcpus after) (sb_memory_mib after) (gate = []) db)
           (\<lambda>db'. Inr (db', if gate = [] then [] else [overbooked after gate])))"

definition syncBooking :: "gotime \<Rightarrow> sandbox \<Rightarrow> sandbox \<Rightarrow> bool \<Rightarrow> registry \<Rightarrow> err + registry \<times> event list" where
  "syncBooking now before after ends db =
    bindE (case bookingOf (sb_client_state after) of
             bookNone \<Rightarrow> Inr (fst (DeleteBooking (sb_id after) db), [])
           | bookMust \<Rightarrow> sync_must now after db
           | bookUnchanged \<Rightarrow> Inr (db, []))
      (\<lambda>(db', evs).
        Inr (if ends \<or> (endsProcesses (sb_client_state after) \<and> sb_client_state before \<noteq> sb_client_state after)
             then DeleteProcessHolds (sb_id after) db' else db', evs))"

subsection \<open>Run spans\<close>

definition runStart :: "change \<Rightarrow> string \<Rightarrow> string \<Rightarrow> event" where
  "runStart c run origin =
    (let a = ch_after c in
     \<lparr>ev_sandbox = sb_id a, ev_tenant = sb_owner a, ev_node = sb_node a, ev_kind = KindRunStart, ev_span = run, ev_parent = [],
      ev_name = ''run on '' @ sb_node a @
        (if origin = ''image'' then '' from image '' @ sb_image_ref a
         else if origin = ''checkpoint'' then '' restored from checkpoint''
         else if origin = ''snapshot'' then '' resumed from its snapshot''
         else if origin = ''disk'' then '' booted on its disk''
         else '' ('' @ origin @ '')'')\<rparr>)"

definition runEnd :: "change \<Rightarrow> string \<Rightarrow> string \<Rightarrow> event" where
  "runEnd c run reason =
    (let b = ch_before c in
     \<lparr>ev_sandbox = sb_id b, ev_tenant = sb_owner b, ev_node = sb_node b, ev_kind = KindRunEnd, ev_span = run, ev_parent = [],
      ev_name = ''ended: '' @ reason\<rparr>)"

text \<open>The first part of \<open>commit\<close>: a running row without a run adopts one, the open run is closed, a new one
  opened.\<close>

definition adopt_run :: "change \<Rightarrow> change" where
  "adopt_run c = (if sb_client_state (ch_after c) = StateRunning \<and> sb_run_id (ch_after c) = [] \<and> ch_open_run c = []
    then c\<lparr>ch_open_run := ''adopted''\<rparr> else c)"

definition end_run :: "change \<Rightarrow> change" where
  "end_run c = (if ch_close_run c \<noteq> [] \<and> sb_run_id (ch_after c) \<noteq> []
    then (upd (\<lambda>a. a\<lparr>sb_run_id := []\<rparr>) c)
      \<lparr>ch_events := ch_events c @ [runEnd c (sb_run_id (ch_after c)) (ch_close_run c)]\<rparr>
    else c)"

definition begin_run :: "txenv \<Rightarrow> change \<Rightarrow> change" where
  "begin_run env c0 = (if sb_client_state (ch_after c0) = StateRunning \<and> sb_run_id (ch_after c0) = [] \<and> ch_open_run c0 \<noteq> []
    then (let c = upd (\<lambda>a. a\<lparr>sb_run_id := tx_run_id env\<rparr>) c0 in
          c\<lparr>ch_events := ch_events c @ [runStart c (tx_run_id env) (ch_open_run c)]\<rparr>)
    else c0)"

definition commit_runs :: "txenv \<Rightarrow> change \<Rightarrow> change" where
  "commit_runs env c = begin_run env (end_run (adopt_run c))"

section \<open>The commit\<close>

definition tombstone_event :: "podID \<Rightarrow> string \<Rightarrow> string \<Rightarrow> string \<Rightarrow> event" where
  "tombstone_event i owner n reason = \<lparr>ev_sandbox = i, ev_tenant = owner, ev_node = n, ev_kind = KindTombstone,
    ev_span = [], ev_parent = [], ev_name = ''tombstone on node '' @ n @ '': '' @ reason\<rparr>"

fun commit_tombstones :: "gotime \<Rightarrow> (tombstone_key \<times> string) list \<Rightarrow> registry \<Rightarrow> err + registry" where
  "commit_tombstones now [] db = Inr db"
| "commit_tombstones now ((k, reason) # ts) db =
    bindE (UpsertTombstone now k reason 0 db) (commit_tombstones now ts)"

definition state_event :: "sandbox \<Rightarrow> sandbox \<Rightarrow> event" where
  "state_event before w = \<lparr>ev_sandbox = sb_id w, ev_tenant = sb_owner w, ev_node = sb_node w, ev_kind = KindSandboxState,
    ev_span = [], ev_parent = (if sb_run_id w = [] then sb_run_id before else sb_run_id w),
    ev_name = state_text (sb_client_state before) @ arrow @ state_text (sb_client_state w)\<rparr>"

text \<open>\<open>commit\<close>: the registry, the row as written, and the activity rows.\<close>

definition commit :: "txenv \<Rightarrow> change \<Rightarrow> registry \<Rightarrow> err + registry \<times> sandbox \<times> event list" where
  "commit env c0 db =
    (let c = commit_runs env c0; now = tx_now env; before = ch_before c in
     bindE (commit_tombstones now (ch_tombstones c) db) (\<lambda>db1.
     bindE (UpdateSandbox now before (ch_after c) db1) (\<lambda>(db2, w).
     let db3 = (if sb_address w \<noteq> sb_address before \<and> (IsInstance w \<or> HasGroups w)
                then Notify ChanLeader HintEnvGroups db2 else db2) in
     bindE (syncBooking now before w (ch_ends_processes c) db3) (\<lambda>(db4, evs).
     Inr (db4, w, ch_events c
       @ map (\<lambda>((i, n, _), reason). tombstone_event i (sb_owner before) n reason) (ch_tombstones c)
       @ evs
       @ (if sb_client_state before \<noteq> sb_client_state w then [state_event before w] else []))))))"

end
