(* ===== verification/Invariant.thy ===== *)
theory Invariant
  imports Change
begin

text \<open>
  The invariant of the registry, which every transaction of the engine keeps: what a sandbox's row says in
  each state, that the booking of a sandbox follows its state, and that the bookings the gates admitted to a
  node stay within its slots, vCPUs and memory. The lemmas lift it from one row to the registry: a write of a
  row with the booking that follows it (\<^const>\<open>UpdateSandbox\<close> then \<^const>\<open>syncBooking\<close>), and \<^const>\<open>commit\<close>.
\<close>

section \<open>Rows\<close>

text \<open>The state an op holds its sandbox in, from \<open>begin.go\<close>.\<close>

definition transitional :: "op_kind \<Rightarrow> client_state" where
  "transitional k = (case k of OpResume \<Rightarrow> StateResuming | OpPause \<Rightarrow> StatePausing | OpHibernate \<Rightarrow> StateHibernating
    | _ \<Rightarrow> StateCreating)"

text \<open>A row with no op is in none of the states of an op alone; a row without a node is pending or
  hibernated; a pending row has no node and no pod.\<close>

definition place_ok :: "client_state \<Rightarrow> string \<Rightarrow> bool \<Rightarrow> bool" where
  "place_ok s n mat = ((n = [] \<longrightarrow> s = StatePending \<or> s = StateHibernated) \<and> (s = StatePending \<longrightarrow> n = [] \<and> \<not> mat))"

definition row_ok :: "sandbox \<Rightarrow> bool" where
  "row_ok r = (place_ok (sb_client_state r) (sb_node r) (sb_materialised r)
    \<and> (case sb_op r of
         None \<Rightarrow> sb_op_id r = uuid_nil \<and> sb_op_target r = [] \<and> sb_op_from_state r = None
           \<and> sb_client_state r \<notin> {StatePausing, StateResuming, StateHibernating}
       | Some k \<Rightarrow> sb_op_id r \<noteq> uuid_nil \<and> sb_client_state r = transitional k \<and> sb_node r \<noteq> []
           \<and> sb_op_target r = sb_node r \<and> sb_op_from_state r \<noteq> None)
    \<and> 0 \<le> sb_vcpus r \<and> 0 \<le> sb_memory_mib r)"

text \<open>The booking of a row: on its node and of its size, there in the states that must be booked, absent in
  those that are not.\<close>

definition book_ok :: "booking option \<Rightarrow> sandbox \<Rightarrow> bool" where
  "book_ok b r =
    (case b of
       None \<Rightarrow> bookingOf (sb_client_state r) \<noteq> bookMust
     | Some b \<Rightarrow> bookingOf (sb_client_state r) \<noteq> bookNone \<and> b_node b = sb_node r
         \<and> b_vcpus b = sb_vcpus r \<and> b_memory_mib b = sb_memory_mib r)"

section \<open>Capacity\<close>

text \<open>A sum over the bookings of a node: those the gates admitted, and those \<^const>\<open>SumBookings\<close> counts.\<close>

definition gated_sum :: "(booking \<Rightarrow> int) \<Rightarrow> string \<Rightarrow> (podID, booking) tbl \<Rightarrow> int" where
  "gated_sum f n t = (\<Sum>r\<leftarrow>all_rows t. if b_node (snd r) = n \<and> b_gated (snd r) then f (snd r) else 0)"

definition within_capacity :: "node \<Rightarrow> string \<Rightarrow> (podID, booking) tbl \<Rightarrow> bool" where
  "within_capacity nd n t = (gated_sum (\<lambda>_. 1) n t \<le> max 0 (n_slots nd)
    \<and> (VCPUCapacity nd > 0 \<longrightarrow> gated_sum b_vcpus n t \<le> VCPUCapacity nd)
    \<and> gated_sum b_memory_mib n t \<le> MemoryCapacityMiB nd)"

section \<open>The registry\<close>

definition rows_ok :: "podID set \<Rightarrow> registry \<Rightarrow> bool" where
  "rows_ok X db = (\<forall>i r. get_row (db_sandboxes db) i = Some r \<longrightarrow>
    sb_id r = i \<and> row_ok r \<and> (i \<notin> X \<longrightarrow> book_ok (get_row (db_bookings db) i) r))"

definition books_ok :: "registry \<Rightarrow> bool" where
  "books_ok db = (\<forall>i b. get_row (db_bookings db) i = Some b \<longrightarrow>
    (\<exists>r. get_row (db_sandboxes db) i = Some r \<and> b_vcpus b = sb_vcpus r \<and> b_memory_mib b = sb_memory_mib r))"

definition tables_ok :: "registry \<Rightarrow> bool" where
  "tables_ok db = (keyed (db_sandboxes db) \<and> keyed (db_bookings db) \<and> keyed (db_tombstones db) \<and> keyed (db_holds db)
    \<and> nodes_wf db \<and> get_row (db_nodes db) [] = None)"

definition capacity_ok :: "registry \<Rightarrow> bool" where
  "capacity_ok db = (\<forall>n nd. get_row (db_nodes db) n = Some nd \<longrightarrow> within_capacity nd n (db_bookings db))"

text \<open>\<open>inv_but X\<close>: the invariant, but for the bookings of the sandboxes of \<open>X\<close>, whose rows a transaction has
  written and whose bookings it has yet to follow.\<close>

definition inv_but :: "podID set \<Rightarrow> registry \<Rightarrow> bool" where
  "inv_but X db = (tables_ok db \<and> rows_ok X db \<and> books_ok db \<and> capacity_ok db)"

abbreviation db_inv :: "registry \<Rightarrow> bool" where "db_inv \<equiv> inv_but {}"

section \<open>Sums of bookings\<close>

lemma sum_filter_rows:
  fixes f :: "'b \<Rightarrow> int"
  shows "sum_list (map (f \<circ> snd) (filter P xs)) = (\<Sum>r\<leftarrow>xs. if P r then f (snd r) else 0)"
  by (induction xs) auto

lemma length_filter_rows: "int (length (filter P xs)) = (\<Sum>r\<leftarrow>xs. if P r then 1 else 0)"
  by (induction xs) auto

lemma SumBookings_sums:
  "bs_count (SumBookings n x db) = (\<Sum>r\<leftarrow>all_rows (db_bookings db). if b_node (snd r) = n \<and> fst r \<noteq> x then 1 else 0)"
  "bs_vcpus (SumBookings n x db) = (\<Sum>r\<leftarrow>all_rows (db_bookings db). if b_node (snd r) = n \<and> fst r \<noteq> x then b_vcpus (snd r) else 0)"
  "bs_memory_mib (SumBookings n x db) =
    (\<Sum>r\<leftarrow>all_rows (db_bookings db). if b_node (snd r) = n \<and> fst r \<noteq> x then b_memory_mib (snd r) else 0)"
  by (simp_all add: SumBookings_def sum_filter_rows length_filter_rows case_prod_beta')

lemma sum_list_le:
  fixes f g :: "'a \<Rightarrow> int"
  assumes "\<And>x. x \<in> set xs \<Longrightarrow> f x \<le> g x"
  shows "(\<Sum>x\<leftarrow>xs. f x) \<le> (\<Sum>x\<leftarrow>xs. g x)"
  using assms by (induction xs) (auto intro: add_mono)

text \<open>The gated sum after a booking is written: at most what \<^const>\<open>SumBookings\<close> gives without it, and its own
  size if it is gated; unchanged or smaller if it is not.\<close>

lemma gated_put_le:
  assumes k: "keyed t" and nonneg: "\<And>r. r \<in> set (all_rows t) \<Longrightarrow> 0 \<le> f (snd r)"
  shows "gated_sum f n (put_row i b t) \<le>
    (\<Sum>r\<leftarrow>all_rows t. if b_node (snd r) = n \<and> fst r \<noteq> i then f (snd r) else 0) + (if b_node b = n \<and> b_gated b then f b else 0)"
proof -
  have "gated_sum f n (put_row i b t) =
    (\<Sum>r\<leftarrow>all_rows t. if fst r = i then 0 else if b_node (snd r) = n \<and> b_gated (snd r) then f (snd r) else 0) +
    (if b_node b = n \<and> b_gated b then f b else 0)"
    unfolding gated_sum_def by (subst tbl.sum_rows_upsert [OF k]) simp
  also have "(\<Sum>r\<leftarrow>all_rows t. if fst r = i then 0 else if b_node (snd r) = n \<and> b_gated (snd r) then f (snd r) else 0)
    \<le> (\<Sum>r\<leftarrow>all_rows t. if b_node (snd r) = n \<and> fst r \<noteq> i then f (snd r) else 0)"
    by (rule sum_list_le) (use nonneg in auto)
  finally show ?thesis by simp
qed

lemma gated_put_other:
  assumes k: "keyed t" and nonneg: "\<And>r. r \<in> set (all_rows t) \<Longrightarrow> 0 \<le> f (snd r)"
    and "\<not> (b_node b = n \<and> b_gated b)"
  shows "gated_sum f n (put_row i b t) \<le> gated_sum f n t"
proof -
  have "gated_sum f n (put_row i b t) =
    (\<Sum>r\<leftarrow>all_rows t. if fst r = i then 0 else if b_node (snd r) = n \<and> b_gated (snd r) then f (snd r) else 0)"
    unfolding gated_sum_def using assms(3) by (subst tbl.sum_rows_upsert [OF k]) auto
  also have "\<dots> \<le> gated_sum f n t"
    unfolding gated_sum_def by (rule sum_list_le) (use nonneg in auto)
  finally show ?thesis .
qed

lemma gated_filter:
  assumes "\<And>r. r \<in> set t \<Longrightarrow> 0 \<le> f (snd r)"
  shows "gated_sum f n (filter P t) \<le> gated_sum f n t"
  using assms by (induction t) (auto simp: gated_sum_def all_rows_def intro: add_mono add_increasing)

lemma within_capacity_le:
  assumes "within_capacity nd n t"
    and "\<And>f. f \<in> {\<lambda>_. 1, b_vcpus, b_memory_mib} \<Longrightarrow> gated_sum f n t' \<le> gated_sum f n t"
  shows "within_capacity nd n t'"
  using assms(1) assms(2) [of "\<lambda>_. 1"] assms(2) [of b_vcpus] assms(2) [of b_memory_mib]
  unfolding within_capacity_def by auto

definition books_nonneg :: "(podID, booking) tbl \<Rightarrow> bool" where
  "books_nonneg t = (\<forall>(i, b)\<in>set t. 0 \<le> b_vcpus b \<and> 0 \<le> b_memory_mib b)"

lemma books_nonneg_sizes:
  "books_nonneg t \<Longrightarrow> f \<in> {\<lambda>_. 1, b_vcpus, b_memory_mib} \<Longrightarrow> r \<in> set t \<Longrightarrow> 0 \<le> f (snd r)"
  by (auto simp: books_nonneg_def)

lemma inv_books_nonneg:
  assumes "inv_but X db"
  shows "books_nonneg (db_bookings db)"
proof -
  have "0 \<le> b_vcpus b \<and> 0 \<le> b_memory_mib b" if "(i, b) \<in> set (db_bookings db)" for i b
  proof -
    have "get_row (db_bookings db) i = Some b"
      using that assms by (simp add: in_rows inv_but_def tables_ok_def)
    then show ?thesis using assms by (fastforce simp: inv_but_def books_ok_def rows_ok_def row_ok_def)
  qed
  then show ?thesis by (auto simp: books_nonneg_def)
qed

text \<open>Dropping bookings keeps the capacities; so does one that is not gated, and a gated one that fits.\<close>

lemma within_capacity_filter:
  assumes "within_capacity nd n t" "books_nonneg t"
  shows "within_capacity nd n (filter P t)"
  by (rule within_capacity_le [OF assms(1)]) (rule gated_filter, rule books_nonneg_sizes [OF assms(2)])

lemma within_capacity_del:
  assumes "within_capacity nd n t" "books_nonneg t"
  shows "within_capacity nd n (del_row i t)"
proof -
  have "del_row i t = filter (\<lambda>(k, _). k \<noteq> i) t" by (auto simp: del_row_def AList.delete_eq intro: filter_cong)
  then show ?thesis using within_capacity_filter [OF assms] by simp
qed

lemma within_capacity_put:
  assumes "within_capacity nd n (db_bookings db)" "keyed (db_bookings db)" "books_nonneg (db_bookings db)"
    and "b_node b = n \<and> b_gated b \<Longrightarrow> fits nd (SumBookings n i db) (b_vcpus b) (b_memory_mib b)"
  shows "within_capacity nd n (put_row i b (db_bookings db))"
proof (cases "b_node b = n \<and> b_gated b")
  case False
  show ?thesis
    by (rule within_capacity_le [OF assms(1)], rule gated_put_other [OF assms(2) _ False])
      (use books_nonneg_sizes [OF assms(3)] in \<open>auto simp: all_rows_def\<close>)
next
  case True
  let ?t = "db_bookings db"
  have le: "gated_sum f n (put_row i b ?t) \<le>
      (\<Sum>r\<leftarrow>all_rows ?t. if b_node (snd r) = n \<and> fst r \<noteq> i then f (snd r) else 0) + f b"
    if "f \<in> {\<lambda>_. 1, b_vcpus, b_memory_mib}" for f
    using gated_put_le [OF assms(2), of f n i b] books_nonneg_sizes [OF assms(3) that] True
    by (simp add: all_rows_def)
  have "fits nd (SumBookings n i db) (b_vcpus b) (b_memory_mib b)" using assms(4) True by blast
  then show ?thesis
    using le [of "\<lambda>_. 1"] le [of b_vcpus] le [of b_memory_mib]
    unfolding within_capacity_def fits_def SumBookings_sums by auto
qed

section \<open>One row and its booking\<close>

lemma inv_book_ok:
  "inv_but X db \<Longrightarrow> get_row (db_sandboxes db) i = Some r \<Longrightarrow> i \<notin> X \<Longrightarrow> book_ok (get_row (db_bookings db) i) r"
  by (simp add: inv_but_def rows_ok_def)

lemma inv_booking_size:
  assumes "inv_but X db" "get_row (db_bookings db) i = Some b" "get_row (db_sandboxes db) i = Some r"
  shows "b_vcpus b = sb_vcpus r" "b_memory_mib b = sb_memory_mib r"
  using assms by (auto simp: inv_but_def books_ok_def dest!: spec [of _ i])

text \<open>A write of the row \<open>i\<close>, as \<^const>\<open>UpdateSandbox\<close> makes it.\<close>

lemma inv_put_row:
  assumes inv: "inv_but X db" and r: "get_row (db_sandboxes db) i = Some r"
    and t: "get_row t = (get_row (db_sandboxes db))(i \<mapsto> w)" "keyed t"
    and w: "sb_id w = i" "row_ok w" "sb_vcpus w = sb_vcpus r" "sb_memory_mib w = sb_memory_mib r"
  shows "inv_but (insert i X) (db\<lparr>db_sandboxes := t, db_notified := ns\<rparr>)"
proof -
  let ?db = "db\<lparr>db_sandboxes := t, db_notified := ns\<rparr>"
  have "books_ok ?db"
    using inv t(1) w(3,4) inv_booking_size [OF inv _ r] unfolding inv_but_def books_ok_def
    by (metis (no_types, lifting) fun_upd_apply registry.select_convs(1,4) registry.surjective registry.update_convs(1,13))
  moreover have "rows_ok (insert i X) ?db" using inv t w by (auto simp: inv_but_def rows_ok_def)
  moreover have "tables_ok ?db" "capacity_ok ?db"
    using inv t(2) by (auto simp: inv_but_def tables_ok_def capacity_ok_def nodes_wf_def)
  ultimately show ?thesis by (simp add: inv_but_def)
qed

lemma inv_booked:
  assumes inv: "inv_but (insert i X) db" and r: "get_row (db_sandboxes db) i = Some r"
    and b: "book_ok (get_row (db_bookings db) i) r"
  shows "inv_but X db"
proof -
  have "book_ok (get_row (db_bookings db) j) s" if "get_row (db_sandboxes db) j = Some s" "j \<notin> X" for j s
    using inv r b that by (cases "j = i") (auto simp: inv_but_def rows_ok_def)
  then show ?thesis using inv by (auto simp: inv_but_def rows_ok_def)
qed

lemma inv_mono: "inv_but X db \<Longrightarrow> X \<subseteq> Y \<Longrightarrow> inv_but Y db"
  unfolding inv_but_def rows_ok_def by auto

text \<open>The booking of the row \<open>i\<close> is dropped, or written.\<close>

lemma inv_del_booking:
  assumes inv: "inv_but (insert i X) db" and r: "get_row (db_sandboxes db) i = Some r"
    and s: "bookingOf (sb_client_state r) = bookNone"
  shows "inv_but X (fst (DeleteBooking i db))"
proof -
  have "capacity_ok (fst (DeleteBooking i db))"
    using inv inv_books_nonneg [OF inv]
    by (auto simp: inv_but_def capacity_ok_def DeleteBooking_def intro: within_capacity_del)
  then show ?thesis
    using inv r s unfolding inv_but_def tables_ok_def rows_ok_def books_ok_def nodes_wf_def
    by (auto simp: DeleteBooking_def book_ok_def)
qed

lemma inv_UpsertBooking:
  assumes inv: "inv_but X db" and r: "get_row (db_sandboxes db) i = Some r"
    and up: "UpsertBooking now i n (sb_vcpus r) (sb_memory_mib r) g db = Inr db'"
    and fit: "\<And>nd. g \<Longrightarrow> get_row (db_nodes db) n = Some nd \<Longrightarrow> fits nd (SumBookings n i db) (sb_vcpus r) (sb_memory_mib r)"
  shows "inv_but (insert i X) db'"
proof -
  let ?b = "\<lparr>b_node = n, b_vcpus = sb_vcpus r, b_memory_mib = sb_memory_mib r, b_gated = g, b_booked_at = now\<rparr>"
  have db': "db' = db\<lparr>db_bookings := put_row i ?b (db_bookings db)\<rparr>"
    using up by (auto simp: UpsertBooking_def split: if_splits)
  have "within_capacity nd m (put_row i ?b (db_bookings db))" if "get_row (db_nodes db) m = Some nd" for m nd
  proof (rule within_capacity_put)
    show "within_capacity nd m (db_bookings db)" "keyed (db_bookings db)"
      using inv that by (auto simp: inv_but_def capacity_ok_def tables_ok_def)
    show "books_nonneg (db_bookings db)" by (rule inv_books_nonneg [OF inv])
    show "b_node ?b = m \<and> b_gated ?b \<Longrightarrow> fits nd (SumBookings m i db) (b_vcpus ?b) (b_memory_mib ?b)"
      using fit that by auto
  qed
  then have "capacity_ok db'" by (simp add: capacity_ok_def db')
  then show ?thesis
    using inv r unfolding inv_but_def tables_ok_def rows_ok_def books_ok_def nodes_wf_def by (auto simp: db')
qed

lemma UpsertBooking_booked:
  "UpsertBooking now i n v m g db = Inr db' \<Longrightarrow>
    get_row (db_bookings db') i = Some \<lparr>b_node = n, b_vcpus = v, b_memory_mib = m, b_gated = g, b_booked_at = now\<rparr>
    \<and> db' = db\<lparr>db_bookings := db_bookings db'\<rparr>"
  by (auto simp: UpsertBooking_def split: if_splits)

lemma inv_holds: "inv_but X db \<Longrightarrow> keyed t \<Longrightarrow> inv_but X (db\<lparr>db_holds := t\<rparr>)"
  unfolding inv_but_def tables_ok_def rows_ok_def books_ok_def capacity_ok_def nodes_wf_def by simp

lemma inv_tombstones: "inv_but X db \<Longrightarrow> keyed t \<Longrightarrow> inv_but X (db\<lparr>db_tombstones := t\<rparr>)"
  unfolding inv_but_def tables_ok_def rows_ok_def books_ok_def capacity_ok_def nodes_wf_def by simp

lemma inv_keyed:
  assumes "inv_but X db"
  shows "keyed (db_sandboxes db)" "keyed (db_bookings db)" "keyed (db_tombstones db)" "keyed (db_holds db)"
  using assms by (simp_all add: inv_but_def tables_ok_def)

lemma inv_notified [simp]: "inv_but X (db\<lparr>db_notified := ns\<rparr>) = inv_but X db"
  unfolding inv_but_def tables_ok_def rows_ok_def books_ok_def capacity_ok_def nodes_wf_def by simp

lemma inv_Notify [simp]: "inv_but X (Notify c p db) = inv_but X db"
  by (simp add: Notify_def)

section \<open>The booking follows the state\<close>

lemma sync_must_inv:
  assumes inv: "inv_but (insert i X) db" and r: "get_row (db_sandboxes db) i = Some w"
    and s: "bookingOf (sb_client_state w) = bookMust"
    and sync: "sync_must now w db = Inr (db', evs)"
  shows "inv_but X db'"
proof -
  have w: "sb_id w = i" "row_ok w" using inv r by (auto simp: inv_but_def rows_ok_def)
  have node: "sb_node w \<noteq> []" using w(2) s by (auto simp: row_ok_def place_ok_def bookingOf_def)
  show ?thesis
  proof (cases "\<exists>b. get_row (db_bookings db) i = Some b \<and> b_node b = sb_node w")
    case True
    then obtain b where b: "get_row (db_bookings db) i = Some b" "b_node b = sb_node w" by blast
    then have "db' = db" using sync w(1) node by (auto simp: sync_must_def GetBooking_def)
    moreover have "book_ok (Some b) w" using inv_booking_size [OF inv b(1) r] b(2) s by (simp add: book_ok_def)
    ultimately show ?thesis using inv_booked [OF inv r] b by simp
  next
    case False
    then obtain nd gate where nd: "get_row (db_nodes db) (sb_node w) = Some nd"
      and gate: "gate = capacityRefusal nd w (SumBookings (sb_node w) i db)"
      and up: "UpsertBooking now i (sb_node w) (sb_vcpus w) (sb_memory_mib w) (gate = []) db = Inr db'"
      using sync w(1) node
      by (auto simp: sync_must_def GetBooking_def Let_def split: option.splits if_splits)
    have "inv_but (insert i (insert i X)) db'"
      by (rule inv_UpsertBooking [OF inv r up]) (use nd gate capacityRefusal_fits in auto)
    then have "inv_but (insert i X) db'" by simp
    moreover have "book_ok (get_row (db_bookings db') i) w"
      using UpsertBooking_booked [OF up] s by (simp add: book_ok_def)
    moreover have "get_row (db_sandboxes db') i = Some w"
      using UpsertBooking_booked [OF up] r by (metis registry.select_convs(1) registry.surjective registry.update_convs(4))
    ultimately show ?thesis using inv_booked by blast
  qed
qed

lemma syncBooking_inv:
  assumes inv: "inv_but (insert i X) db" and r: "get_row (db_sandboxes db) i = Some w"
    and s: "bookingOf (sb_client_state w) = bookUnchanged \<Longrightarrow> book_ok (get_row (db_bookings db) i) w"
    and sync: "syncBooking now b w ends db = Inr (db', evs)"
  shows "inv_but X db'"
proof -
  have i: "sb_id w = i" using inv r by (auto simp: inv_but_def rows_ok_def)
  obtain db1 where follow: "(case bookingOf (sb_client_state w) of bookNone \<Rightarrow> Inr (fst (DeleteBooking i db), [])
      | bookMust \<Rightarrow> sync_must now w db | bookUnchanged \<Rightarrow> Inr (db, [])) = Inr (db1, evs)"
    and db': "db' = (if ends \<or> (endsProcesses (sb_client_state w) \<and> sb_client_state b \<noteq> sb_client_state w)
      then DeleteProcessHolds i db1 else db1)"
    using sync i by (auto simp: syncBooking_def bindE_Inr_iff)
  have "inv_but X db1"
  proof (cases "bookingOf (sb_client_state w)")
    case bookNone
    then show ?thesis using follow inv_del_booking [OF inv r] by simp
  next
    case bookMust
    then show ?thesis using follow sync_must_inv [OF inv r] by simp
  next
    case bookUnchanged
    then show ?thesis using follow inv_booked [OF inv r] s by simp
  qed
  moreover from this have "keyed (db_holds db1)" by (simp add: inv_but_def tables_ok_def)
  ultimately show ?thesis unfolding db' by (auto simp: DeleteProcessHolds_def intro: inv_holds)
qed

text \<open>What a write of the row keeps.\<close>

lemma row_ok_written:
  "fixed_diff b a = None \<Longrightarrow> row_ok (written_row now b a b) = row_ok a"
  by (simp add: row_ok_def fixed_diff_None cong: option.case_cong)

lemma book_ok_written:
  "fixed_diff b a = None \<Longrightarrow> book_ok x (written_row now b a b) = book_ok x a"
  by (simp add: book_ok_def fixed_diff_None cong: option.case_cong)

lemma UpdateSandbox_inv:
  assumes inv: "inv_but X db" and b: "get_row (db_sandboxes db) (sb_id b) = Some b" and a: "row_ok a"
    and up: "UpdateSandbox now b a db = Inr (db', w)"
  shows "inv_but (insert (sb_id b) X) db'" and "get_row (db_sandboxes db') (sb_id b) = Some w"
    and "db_bookings db' = db_bookings db" and "db_nodes db' = db_nodes db"
proof -
  note cur = UpdateSandbox_current [OF up b]
  obtain t ns where db': "db' = db\<lparr>db_sandboxes := t, db_notified := ns\<rparr>"
    and t: "get_row t = (get_row (db_sandboxes db))(sb_id b \<mapsto> w)" "keyed t"
    using cur(4) inv by (auto simp: inv_but_def tables_ok_def)
  show "get_row (db_sandboxes db') (sb_id b) = Some w" "db_bookings db' = db_bookings db" "db_nodes db' = db_nodes db"
    using db' t by simp_all
  show "inv_but (insert (sb_id b) X) db'"
    unfolding db' using cur a by (intro inv_put_row [OF inv b t]) (simp_all add: row_ok_written)
qed

text \<open>A row written and its booking following: the tail of \<open>beginOn\<close>, \<open>preemptHibernate\<close> and \<open>commit\<close>.\<close>

lemma write_and_book_inv:
  assumes inv: "inv_but (insert (sb_id b) X) db" and b: "get_row (db_sandboxes db) (sb_id b) = Some b" and a: "row_ok a"
    and up: "UpdateSandbox now b a db = Inr (db1, w)"
    and u: "bookingOf (sb_client_state a) = bookUnchanged \<Longrightarrow> book_ok (get_row (db_bookings db) (sb_id b)) a"
    and sync: "syncBooking now b w ends (if c then Notify x y db1 else db1) = Inr (db', evs)"
  shows "inv_but X db'"
proof (rule syncBooking_inv [OF _ _ _ sync])
  note cur = UpdateSandbox_current [OF up b] and new = UpdateSandbox_inv [OF inv b a up]
  show "inv_but (insert (sb_id b) X) (if c then Notify x y db1 else db1)" using new(1) by simp
  show "get_row (db_sandboxes (if c then Notify x y db1 else db1)) (sb_id b) = Some w"
    using new(2) by (simp add: Notify_def)
  show "bookingOf (sb_client_state w) = bookUnchanged \<Longrightarrow>
    book_ok (get_row (db_bookings (if c then Notify x y db1 else db1)) (sb_id b)) w"
    using u cur(1,2) new(3) by (simp add: Notify_def book_ok_written)
qed

text \<open>A row that keeps its node keeps its booking.\<close>

lemma book_ok_same_node:
  assumes inv: "inv_but X db" "i \<notin> X" and b: "get_row (db_sandboxes db) i = Some b"
    and a: "sb_node a = sb_node b" "sb_vcpus a = sb_vcpus b" "sb_memory_mib a = sb_memory_mib b"
    and s: "bookingOf (sb_client_state a) = bookUnchanged"
  shows "book_ok (get_row (db_bookings db) i) a"
  using assms by (auto simp: inv_but_def rows_ok_def book_ok_def split: option.splits)

section \<open>The commit keeps the invariant\<close>

lemma UpsertTombstone_only:
  assumes "UpsertTombstone now k reason nb db = Inr db'"
  shows "db' = db\<lparr>db_tombstones := db_tombstones db'\<rparr>" and "keyed (db_tombstones db) \<Longrightarrow> keyed (db_tombstones db')"
  using assms by (auto simp: UpsertTombstone_def Let_def split: prod.splits if_splits)

lemma commit_tombstones_only:
  "commit_tombstones now ts db = Inr db' \<Longrightarrow>
    db' = db\<lparr>db_tombstones := db_tombstones db'\<rparr> \<and> (keyed (db_tombstones db) \<longrightarrow> keyed (db_tombstones db'))"
proof (induction ts arbitrary: db)
  case (Cons kr ts)
  obtain k reason where kr: "kr = (k, reason)" by (cases kr)
  then obtain db1 where up: "UpsertTombstone now k reason 0 db = Inr db1" and rest: "commit_tombstones now ts db1 = Inr db'"
    using Cons.prems by auto
  have "db' = db1\<lparr>db_tombstones := db_tombstones db'\<rparr>" using Cons.IH [OF rest] by blast
  also have "\<dots> = db\<lparr>db_tombstones := db_tombstones db'\<rparr>"
    by (subst UpsertTombstone_only(1) [OF up]) simp
  finally show ?case using Cons.IH [OF rest] UpsertTombstone_only(2) [OF up] by blast
qed simp

lemma run_steps [simp]:
  "ch_before (adopt_run c) = ch_before c" "ch_before (end_run c) = ch_before c" "ch_before (begin_run env c) = ch_before c"
  "ch_tombstones (adopt_run c) = ch_tombstones c" "ch_tombstones (end_run c) = ch_tombstones c"
  "ch_tombstones (begin_run env c) = ch_tombstones c"
  "ch_ends_processes (adopt_run c) = ch_ends_processes c" "ch_ends_processes (end_run c) = ch_ends_processes c"
  "ch_ends_processes (begin_run env c) = ch_ends_processes c"
  "ch_after (adopt_run c) = ch_after c"
  by (simp_all add: adopt_run_def end_run_def begin_run_def upd_def Let_def)

lemma run_steps_after:
  "\<exists>x. ch_after (end_run c) = (ch_after c)\<lparr>sb_run_id := x\<rparr>"
  "\<exists>x. ch_after (begin_run env c) = (ch_after c)\<lparr>sb_run_id := x\<rparr>"
  by (auto simp: end_run_def begin_run_def upd_def Let_def intro: exI [of _ "sb_run_id (ch_after c)"])

lemma commit_runs_simps [simp]:
  "ch_before (commit_runs env c) = ch_before c"
  "ch_tombstones (commit_runs env c) = ch_tombstones c"
  "ch_ends_processes (commit_runs env c) = ch_ends_processes c"
  by (simp_all add: commit_runs_def)

lemma commit_runs_after: "\<exists>x. ch_after (commit_runs env c) = (ch_after c)\<lparr>sb_run_id := x\<rparr>"
proof -
  obtain x where x: "ch_after (end_run (adopt_run c)) = (ch_after c)\<lparr>sb_run_id := x\<rparr>"
    using run_steps_after(1) [of "adopt_run c"] by auto
  obtain y where "ch_after (begin_run env (end_run (adopt_run c))) = (ch_after (end_run (adopt_run c)))\<lparr>sb_run_id := y\<rparr>"
    using run_steps_after(2) by blast
  then show ?thesis by (auto simp: x commit_runs_def)
qed

lemma row_ok_run_id [simp]: "row_ok (a\<lparr>sb_run_id := x\<rparr>) = row_ok a"
  by (simp add: row_ok_def cong: option.case_cong)

lemma commit_steps:
  assumes "commit env c db = Inr (db', w, evs)"
  obtains db1 db2 ev where "commit_tombstones (tx_now env) (ch_tombstones c) db = Inr db1"
    "UpdateSandbox (tx_now env) (ch_before c) (ch_after (commit_runs env c)) db1 = Inr (db2, w)"
    "syncBooking (tx_now env) (ch_before c) w (ch_ends_processes c)
      (if sb_address w \<noteq> sb_address (ch_before c) \<and> (IsInstance w \<or> HasGroups w) then Notify ChanLeader HintEnvGroups db2 else db2)
      = Inr (db', ev)"
  using assms by (auto simp: commit_def Let_def bindE_Inr_iff)

lemma commit_inv [inv_intros]:
  assumes inv: "db_inv db" and b: "get_row (db_sandboxes db) i = Some (ch_before c)" and a: "row_ok (ch_after c)"
    and u: "bookingOf (sb_client_state (ch_after c)) = bookUnchanged \<Longrightarrow> sb_node (ch_after c) = sb_node (ch_before c)"
    and com: "commit env c db = Inr (db', w, evs)"
  shows "db_inv db'"
proof -
  obtain x where after: "ch_after (commit_runs env c) = (ch_after c)\<lparr>sb_run_id := x\<rparr>" using commit_runs_after by blast
  have i: "sb_id (ch_before c) = i" using inv b by (auto simp: inv_but_def rows_ok_def)
  obtain db1 db2 ev where ts: "commit_tombstones (tx_now env) (ch_tombstones c) db = Inr db1"
    and up: "UpdateSandbox (tx_now env) (ch_before c) ((ch_after c)\<lparr>sb_run_id := x\<rparr>) db1 = Inr (db2, w)"
    and sync: "syncBooking (tx_now env) (ch_before c) w (ch_ends_processes c)
      (if sb_address w \<noteq> sb_address (ch_before c) \<and> (IsInstance w \<or> HasGroups w) then Notify ChanLeader HintEnvGroups db2 else db2)
      = Inr (db', ev)"
    using commit_steps [OF com] unfolding after .
  have same: "db1 = db\<lparr>db_tombstones := db_tombstones db1\<rparr>" and k: "keyed (db_tombstones db1)"
    using commit_tombstones_only [OF ts] inv by (auto simp: inv_but_def tables_ok_def)
  have inv1: "db_inv db1" by (subst same) (rule inv_tombstones [OF inv k])
  have b1: "get_row (db_sandboxes db1) (sb_id (ch_before c)) = Some (ch_before c)" by (subst same) (simp add: b i)
  have fixed: "fixed_diff (ch_before c) ((ch_after c)\<lparr>sb_run_id := x\<rparr>) = None" by (rule UpdateSandbox_current(2) [OF up b1])
  show ?thesis
    by (rule write_and_book_inv [OF inv_mono [OF inv1] b1 _ up _ sync])
      (use a u fixed book_ok_same_node [OF inv1 _ b1] in \<open>auto simp: fixed_diff_None\<close>)
qed

section \<open>What a transaction leaves alone\<close>

text \<open>\<open>only_row i db db'\<close>: but for the row, the booking and the process holds of the sandbox \<open>i\<close>, tombstones and
  notifications, \<open>db'\<close> is \<open>db\<close>.\<close>

definition only_row :: "podID \<Rightarrow> registry \<Rightarrow> registry \<Rightarrow> bool" where
  "only_row i db db' = ((\<forall>j. j \<noteq> i \<longrightarrow> get_row (db_sandboxes db') j = get_row (db_sandboxes db) j
      \<and> get_row (db_bookings db') j = get_row (db_bookings db) j)
    \<and> db_nodes db' = db_nodes db \<and> db_telemetry db' = db_telemetry db \<and> db_instances db' = db_instances db
    \<and> db_leases db' = db_leases db \<and> db_tenants db' = db_tenants db)"

lemma only_row_refl [simp, intro]: "only_row i db db"
  by (simp add: only_row_def)

lemma only_row_trans [trans]: "only_row i a b \<Longrightarrow> only_row i b c \<Longrightarrow> only_row i a c"
  by (simp add: only_row_def)

lemma only_row_simps [simp]:
  "only_row i a (Notify x y b) = only_row i a b"
  "only_row i a (b\<lparr>db_holds := t\<rparr>) = only_row i a b"
  "only_row i a (b\<lparr>db_tombstones := ts\<rparr>) = only_row i a b"
  "only_row i a (b\<lparr>db_notified := ns\<rparr>) = only_row i a b"
  by (simp_all add: only_row_def Notify_def)

lemma only_row_DeleteBooking [simp]: "only_row i db (fst (DeleteBooking i db))"
  by (simp add: only_row_def DeleteBooking_def)

lemma UpsertBooking_only: "UpsertBooking now i n v m g db = Inr db' \<Longrightarrow> only_row i db db' \<and> db_sandboxes db' = db_sandboxes db"
  by (auto simp: UpsertBooking_def only_row_def split: if_splits)

lemma sync_must_only:
  assumes "sync_must now w db = Inr (db', evs)"
  shows "only_row (sb_id w) db db'" and "db_sandboxes db' = db_sandboxes db"
  using assms UpsertBooking_only
  by (fastforce simp: sync_must_def Let_def bindE_Inr_iff split: if_splits option.splits)+

lemma syncBooking_only:
  assumes "syncBooking now b w ends db = Inr (db', evs)"
  shows "only_row (sb_id w) db db'" and "db_sandboxes db' = db_sandboxes db"
proof -
  obtain db1 where follow: "(case bookingOf (sb_client_state w) of bookNone \<Rightarrow> Inr (fst (DeleteBooking (sb_id w) db), [])
      | bookMust \<Rightarrow> sync_must now w db | bookUnchanged \<Rightarrow> Inr (db, [])) = Inr (db1, evs)"
    and db': "db' = db1 \<or> db' = DeleteProcessHolds (sb_id w) db1"
    using assms by (auto simp: syncBooking_def bindE_Inr_iff split: if_splits)
  have "only_row (sb_id w) db db1 \<and> db_sandboxes db1 = db_sandboxes db"
    using follow sync_must_only [of now w db db1 evs]
    by (cases "bookingOf (sb_client_state w)") (auto simp: DeleteBooking_def only_row_def)
  then show "only_row (sb_id w) db db'" "db_sandboxes db' = db_sandboxes db"
    using db' by (auto simp: DeleteProcessHolds_def)
qed

lemma UpdateSandbox_only:
  assumes "UpdateSandbox now b a db = Inr (db', w)" "get_row (db_sandboxes db) (sb_id b) = Some b"
  shows "only_row (sb_id b) db db'"
  using UpdateSandbox_current(4) [OF assms] by (auto simp: only_row_def)

text \<open>The row written and its booking following, as the transaction leaves them.\<close>

lemma write_and_book_row:
  assumes b: "get_row (db_sandboxes db) (sb_id b) = Some b"
    and up: "UpdateSandbox now b a db = Inr (db1, w)"
    and sync: "syncBooking now b w ends (if c then Notify x y db1 else db1) = Inr (db', evs)"
  shows "get_row (db_sandboxes db') (sb_id b) = Some w" and "w = written_row now b a b" and "only_row (sb_id b) db db'"
proof -
  show w: "w = written_row now b a b" by (rule UpdateSandbox_current(1) [OF up b])
  note so = syncBooking_only [OF sync]
  obtain t ns where db1: "db1 = db\<lparr>db_sandboxes := t, db_notified := ns\<rparr>"
    "get_row t = (get_row (db_sandboxes db))(sb_id b \<mapsto> w)" using UpdateSandbox_current(4) [OF up b] by auto
  then show "get_row (db_sandboxes db') (sb_id b) = Some w" using so(2) by (simp add: Notify_def)
  have "only_row (sb_id b) db (if c then Notify x y db1 else db1)" using UpdateSandbox_only [OF up b] by simp
  then show "only_row (sb_id b) db db'" using so(1) w by (auto intro: only_row_trans)
qed

lemmas write_book_inv = write_and_book_inv [where c = False, unfolded if_False]
lemmas write_book_row = write_and_book_row [where c = False, unfolded if_False]

lemma commit_written:
  assumes b: "get_row (db_sandboxes db) (sb_id (ch_before c)) = Some (ch_before c)"
    and com: "commit env c db = Inr (db', w, evs)"
  shows "get_row (db_sandboxes db') (sb_id (ch_before c)) = Some w" and "only_row (sb_id (ch_before c)) db db'"
    and "w = written_row (tx_now env) (ch_before c) (ch_after (commit_runs env c)) (ch_before c)"
    and "fixed_diff (ch_before c) (ch_after (commit_runs env c)) = None"
proof -
  obtain db1 db2 ev where ts: "commit_tombstones (tx_now env) (ch_tombstones c) db = Inr db1"
    and up: "UpdateSandbox (tx_now env) (ch_before c) (ch_after (commit_runs env c)) db1 = Inr (db2, w)"
    and sync: "syncBooking (tx_now env) (ch_before c) w (ch_ends_processes c)
      (if sb_address w \<noteq> sb_address (ch_before c) \<and> (IsInstance w \<or> HasGroups w) then Notify ChanLeader HintEnvGroups db2 else db2)
      = Inr (db', ev)" using commit_steps [OF com] .
  have same: "db1 = db\<lparr>db_tombstones := db_tombstones db1\<rparr>" using commit_tombstones_only [OF ts] by blast
  have b1: "get_row (db_sandboxes db1) (sb_id (ch_before c)) = Some (ch_before c)" by (subst same) (simp add: b)
  note wb = write_and_book_row [OF b1 up sync]
  show "get_row (db_sandboxes db') (sb_id (ch_before c)) = Some w" by (rule wb(1))
  have "only_row (sb_id (ch_before c)) db db1" by (subst same) simp
  then show "only_row (sb_id (ch_before c)) db db'" using wb(3) by (rule only_row_trans)
  show "w = written_row (tx_now env) (ch_before c) (ch_after (commit_runs env c)) (ch_before c)" by (rule wb(2))
  show "fixed_diff (ch_before c) (ch_after (commit_runs env c)) = None" by (rule UpdateSandbox_current(2) [OF up b1])
qed

lemma commit_row:
  assumes "get_row (db_sandboxes db) (sb_id (ch_before c)) = Some (ch_before c)" "commit env c db = Inr (db', w, evs)"
  shows "get_row (db_sandboxes db') (sb_id (ch_before c)) = Some w" and "only_row (sb_id (ch_before c)) db db'"
    and "\<exists>x. w = written_row (tx_now env) (ch_before c) ((ch_after c)\<lparr>sb_run_id := x\<rparr>) (ch_before c)
      \<and> fixed_diff (ch_before c) ((ch_after c)\<lparr>sb_run_id := x\<rparr>) = None"
  using commit_written [OF assms] commit_runs_after [of env c] by auto

lemma UpdateSandbox_tombstones: "UpdateSandbox now b a db = Inr (db', w) \<Longrightarrow> db_tombstones db' = db_tombstones db"
  by (auto simp: UpdateSandbox_def Let_def Notify_def split: if_splits option.splits)

lemma syncBooking_tombstones:
  assumes "syncBooking now b w ends db = Inr (db', evs)"
  shows "db_tombstones db' = db_tombstones db"
proof -
  have "db_tombstones db1 = db_tombstones db" if "sync_must now w db = Inr (db1, ev)" for db1 ev
    using that by (auto simp: sync_must_def UpsertBooking_def Let_def bindE_Inr_iff split: if_splits option.splits)
  then show ?thesis using assms
    by (auto simp: syncBooking_def bindE_Inr_iff DeleteProcessHolds_def DeleteBooking_def split: booking_rule.splits if_splits)
qed

lemma commit_tombstone_rows:
  assumes "commit env c db = Inr (db', w, evs)"
  shows "commit_tombstones (tx_now env) (ch_tombstones c) db = Inr (db\<lparr>db_tombstones := db_tombstones db'\<rparr>)"
proof -
  obtain db1 db2 ev where ts: "commit_tombstones (tx_now env) (ch_tombstones c) db = Inr db1"
    and up: "UpdateSandbox (tx_now env) (ch_before c) (ch_after (commit_runs env c)) db1 = Inr (db2, w)"
    and sync: "syncBooking (tx_now env) (ch_before c) w (ch_ends_processes c)
      (if sb_address w \<noteq> sb_address (ch_before c) \<and> (IsInstance w \<or> HasGroups w) then Notify ChanLeader HintEnvGroups db2 else db2)
      = Inr (db', ev)" using commit_steps [OF assms] .
  have "db_tombstones db' = db_tombstones db1"
    using UpdateSandbox_tombstones [OF up] syncBooking_tombstones [OF sync] by (simp add: Notify_def split: if_splits)
  then show ?thesis using ts commit_tombstones_only [OF ts] by simp
qed

lemma commit_no_tombstones:
  assumes "commit env c db = Inr (db', w, evs)" "ch_tombstones c = []"
  shows "db_tombstones db' = db_tombstones db"
proof -
  have "Inr db = (Inr (db\<lparr>db_tombstones := db_tombstones db'\<rparr>) :: err + registry)"
    using commit_tombstone_rows [OF assms(1)] by (simp add: assms(2))
  then have "db = db\<lparr>db_tombstones := db_tombstones db'\<rparr>" by simp
  then show ?thesis by (metis registry.select_convs(5) registry.surjective registry.update_convs(5))
qed

section \<open>The invariant of a concrete registry\<close>

text \<open>The invariant as a check of the tables' rows.\<close>

definition inv_check :: "registry \<Rightarrow> bool" where
  "inv_check db = (keyed (db_sandboxes db) \<and> keyed (db_bookings db) \<and> keyed (db_tombstones db) \<and> keyed (db_holds db)
    \<and> keyed (db_nodes db) \<and> list_all (\<lambda>(k, n). n_name n = k \<and> k \<noteq> []) (db_nodes db)
    \<and> list_all (\<lambda>(i, r). sb_id r = i \<and> row_ok r \<and> book_ok (get_row (db_bookings db) i) r) (db_sandboxes db)
    \<and> list_all (\<lambda>(i, b). case get_row (db_sandboxes db) i of None \<Rightarrow> False
        | Some r \<Rightarrow> b_vcpus b = sb_vcpus r \<and> b_memory_mib b = sb_memory_mib r) (db_bookings db)
    \<and> list_all (\<lambda>(n, nd). within_capacity nd n (db_bookings db)) (db_nodes db))"

lemma get_row_in: "get_row t k = Some v \<Longrightarrow> (k, v) \<in> set t"
  by (simp add: get_row_def map_of_SomeD)

lemma inv_check_inv:
  assumes "inv_check db"
  shows "db_inv db"
proof -
  have "tables_ok db"
    using assms by (auto simp: inv_check_def tables_ok_def nodes_wf_def list_all_iff get_row_def map_of_eq_None_iff)
  moreover have "rows_ok {} db" using assms by (auto simp: inv_check_def rows_ok_def list_all_iff dest: get_row_in)
  moreover have "books_ok db"
    using assms by (fastforce simp: inv_check_def books_ok_def list_all_iff dest: get_row_in split: option.splits)
  moreover have "capacity_ok db" using assms by (auto simp: inv_check_def capacity_ok_def list_all_iff dest: get_row_in)
  ultimately show ?thesis by (simp add: inv_but_def)
qed

lemma sample_inv: "db_inv sample_db" "db_inv sample_running_db"
  by (rule inv_check_inv, code_simp)+

end
