(* ===== verification/Begin.thy ===== *)
theory Begin
  imports Invariant
begin

text \<open>
  The begin of an op, from \<open>go/internal/sandbox/begin.go\<close> and the data of \<open>op.go\<close>: the intent, the handle, the
  preconditions and rechecks, the begin transaction towards one target with its three ways (a fresh op, the
  takeover of an op whose owner is gone, the resume in the place of a hibernate), and the begin over the
  candidates of a placement.

  A transaction is a function of the registry, since it holds the row of the sandbox locked from its first
  statement. The commit whose answer is lost is the same function: the row decides, as \<open>committed\<close> reads it.
\<close>

section \<open>Intents and handles\<close>

record op_intent =
  it_kind :: op_kind
  it_trigger :: op_trigger
  it_candidates :: "string list"
  it_target :: string
  it_incarnation :: uuid
  it_image_ref :: string
  it_reason :: string
  it_verdicts :: "placement_candidate list"
  it_takeover :: uuid
  it_preempt :: uuid

text \<open>What the begin read, for a rollback.\<close>

record op_read =
  rd_state :: "client_state option"
  rd_node :: string
  rd_lost_from :: string
  rd_materialised :: bool

record op_handle =
  h_id :: podID
  h_op_id :: uuid
  h_inc :: uuid
  h_kind :: op_kind
  h_trigger :: op_trigger
  h_target :: string
  h_takeover :: bool
  h_preempted :: uuid
  h_from :: string
  h_no_abandon :: bool
  h_deadline :: gotime
  h_started :: gotime
  h_row :: sandbox
  h_read :: op_read
  h_tombstones :: "tombstone_key list"
  h_span :: string
  h_parent :: string

text \<open>The runner of one instance: the op in flight per sandbox, whether it refuses ops, and the begins in
  progress, with whether a stop waits for them.\<close>

record runner =
  r_ops :: "(podID, op_handle) tbl"
  r_refusing :: bool
  r_beginning :: int
  r_begun :: bool

definition Running :: "runner \<Rightarrow> podID \<Rightarrow> op_handle option" where
  "Running r i = get_row (r_ops r) i"

definition runs :: "runner \<Rightarrow> sandbox \<Rightarrow> bool" where
  "runs r row = (case Running r (sb_id row) of None \<Rightarrow> False | Some h \<Rightarrow> h_op_id h = sb_op_id row)"

definition newHandle :: "engine \<Rightarrow> txenv \<Rightarrow> sandbox \<Rightarrow> op_kind \<Rightarrow> op_trigger \<Rightarrow> string \<Rightarrow> duration \<Rightarrow> op_handle" where
  "newHandle e env row kind trigger target d = \<lparr>
    h_id = sb_id row, h_op_id = sb_op_id row, h_inc = sb_incarnation row, h_kind = kind, h_trigger = trigger,
    h_target = target, h_takeover = False, h_preempted = uuid_nil, h_from = [], h_no_abandon = False,
    h_deadline = tx_clock env + d, h_started = tx_clock env, h_row = row,
    h_read = \<lparr>rd_state = None, rd_node = [], rd_lost_from = [], rd_materialised = False\<rparr>,
    h_tombstones = [], h_span = ''op-'' @ e_uuid_text e (sb_op_id row), h_parent = sb_run_id row\<rparr>"

definition startEvent :: "op_handle \<Rightarrow> sandbox \<Rightarrow> event" where
  "startEvent h before = \<lparr>ev_sandbox = h_id h, ev_tenant = sb_owner before, ev_node = h_target h,
    ev_kind = KindLifecycleStart, ev_span = h_span h, ev_parent = h_parent h,
    ev_name = op_text (h_kind h) @ '' on node '' @ h_target h\<rparr>"

definition containsKey :: "tombstone_key list \<Rightarrow> string \<Rightarrow> bool" where
  "containsKey ks n = list_ex (\<lambda>(_, m, _). m = n) ks"

definition admits :: "op_kind \<Rightarrow> bool" where
  "admits k = (k = OpCreate \<or> k = OpStart \<or> k = OpResume \<or> k = OpRestore)"

section \<open>Preconditions\<close>

definition drainHibernate :: "op_trigger \<Rightarrow> string \<Rightarrow> registry \<Rightarrow> bool" where
  "drainHibernate trigger target db =
    (case trigger of
       TriggerDrain \<Rightarrow> True
     | TriggerDrainForced \<Rightarrow> True
     | TriggerEnsure \<Rightarrow> (case get_row (db_nodes db) target of None \<Rightarrow> False | Some n \<Rightarrow> n_draining n)
     | _ \<Rightarrow> False)"

definition noAbandon :: "op_trigger \<Rightarrow> string \<Rightarrow> registry \<Rightarrow> bool" where
  "noAbandon trigger target db = (trigger = TriggerExplicit \<or> drainHibernate trigger target db)"

definition recheckFailed :: "podID \<Rightarrow> string \<Rightarrow> err" where
  "recheckFailed i why = Kind ErrPrecondition (''sandbox '' @ i @ '' changed: '' @ why)"

definition preemptEnded :: "podID \<Rightarrow> err" where
  "preemptEnded i = Kind ErrPrecondition (''sandbox '' @ i @ '': the hibernate to preempt ended'')"

definition takeoverEnded :: "podID \<Rightarrow> err" where
  "takeoverEnded i = Kind ErrPrecondition (''sandbox '' @ i @ '': the op to take over ended'')"

text \<open>The first switch of \<open>precheck\<close>: whether the op may begin in the row's state, and whether it is pinned
  to the row's node.\<close>

definition state_allows :: "sandbox \<Rightarrow> op_intent \<Rightarrow> string \<Rightarrow> registry \<Rightarrow> bool" where
  "state_allows row it target db =
    (let st = sb_client_state row in
     case it_kind it of
       OpCreate \<Rightarrow> st = StatePending
     | OpStart \<Rightarrow> st = StateStopped \<or> st = StateFailed
     | OpResume \<Rightarrow> st = StatePaused
     | OpRestore \<Rightarrow> st = StateHibernated \<and> HasCheckpoint row
     | OpPause \<Rightarrow> st = StateRunning
     | OpHibernate \<Rightarrow> st = StatePaused
         \<or> ((st = StateStopped \<or> st = StateFailed \<or> st = StateRunning) \<and> drainHibernate (it_trigger it) target db)
     | OpRepair \<Rightarrow> (st = StateCreating \<and> sb_pending_since row \<noteq> 0)
         \<or> (st = StateRunning \<and> sb_unreachable_since row \<noteq> 0)
         \<or> (st = StateRunning \<and> it_trigger it = TriggerRestart))"

definition pinned_kind :: "op_kind \<Rightarrow> bool" where
  "pinned_kind k = (k \<noteq> OpCreate \<and> k \<noteq> OpRestore)"

text \<open>The rechecks of a repair, and of a pause or hibernate per trigger.\<close>

definition op_rechecks :: "engine \<Rightarrow> gotime \<Rightarrow> sandbox \<Rightarrow> op_intent \<Rightarrow> registry \<Rightarrow> err option" where
  "op_rechecks e now row it db =
    (let i = sb_id row; cfg = e_cfg e in
     if it_kind it = OpRepair then
       (if it_trigger it \<noteq> TriggerRepair \<and> it_trigger it \<noteq> TriggerEnsure then None
        else if RepairRecheck now i (cfg_pending_repair_after cfg) (cfg_unreachable_repair_after cfg) db then None
        else Some (recheckFailed i ''it is no longer stuck''))
     else if it_kind it \<noteq> OpPause \<and> it_kind it \<noteq> OpHibernate then None
     else case it_trigger it of
       TriggerIdle \<Rightarrow>
         if it_kind it \<noteq> OpPause then None
         else if \<not> IdleRecheck now i (cfg_idle_pause cfg) db
         then Some (recheckFailed i ''it was active since, or a failed idle pause backs it off'')
         else if HasLiveHold now i [] db then Some (recheckFailed i ''it is held'')
         else None
     | TriggerHibernateAfter \<Rightarrow>
         if it_kind it \<noteq> OpHibernate then None
         else if \<not> HibernateAfterRecheck now i (cfg_hibernate_after cfg) db
         then Some (recheckFailed i ''it was resumed since, or a failed hibernation backs it off'')
         else None
     | TriggerDrain \<Rightarrow> if HasLiveHold now i [HoldExec] db then Some (recheckFailed i ''an exec holds it'') else None
     | TriggerEnsure \<Rightarrow> if HasLiveHold now i [HoldExec] db then Some (recheckFailed i ''an exec holds it'') else None
     | _ \<Rightarrow> None)"

text \<open>\<open>precheck\<close>: the error, or \<^term>\<open>None\<close>. A node's name has no character \<open>%q\<close> would escape.\<close>

definition precheck :: "engine \<Rightarrow> gotime \<Rightarrow> sandbox \<Rightarrow> op_intent \<Rightarrow> string \<Rightarrow> registry \<Rightarrow> err option" where
  "precheck e now row it target db =
    (if \<not> state_allows row it target db
     then Some (Kind ErrPrecondition (''sandbox '' @ sb_id row @ '' is '' @ state_text (sb_client_state row)
       @ '': no '' @ op_text (it_kind it)))
     else if pinned_kind (it_kind it) \<and> target \<noteq> sb_node row
     then Some (Kind ErrPrecondition (''sandbox '' @ sb_id row @ '' is on node '' @ CHR 0x22 # sb_node row
       @ CHR 0x22 # '', not '' @ target))
     else op_rechecks e now row it db)"

section \<open>A takeover\<close>

definition takeover :: "engine \<Rightarrow> runner \<Rightarrow> txenv \<Rightarrow> sandbox \<Rightarrow> op_trigger \<Rightarrow> registry \<Rightarrow> err + registry \<times> op_handle \<times> event list" where
  "takeover e r env row trigger db =
    (case sb_op row of
       None \<Rightarrow> Inl (takeoverEnded (sb_id row))
     | Some kind \<Rightarrow>
         if (if sb_op_owner row \<noteq> e_id e then InstanceLive (tx_now env) (sb_op_owner row) db else runs r row)
         then Inl (Kind ErrBusy (''an op '' @ op_text kind @ '' of instance '' @ sb_op_owner row @ '' is in flight''))
         else let na = (kind = OpHibernate \<and>
                    (case get_row (db_nodes db) (sb_op_target row) of None \<Rightarrow> False | Some n \<Rightarrow> n_draining n));
                  d = tm_op_deadline (e_t e) kind (sb_memory_mib row);
                  after = row\<lparr>sb_op_id := tx_uuid env, sb_op_owner := e_id e, sb_op_deadline := tx_now env + d\<rparr> in
              bindE (UpdateSandbox (tx_now env) row after db) (\<lambda>(db', written).
                let h = (newHandle e env written kind trigger (sb_op_target row) d)
                      \<lparr>h_takeover := True, h_from := sb_op_owner row, h_no_abandon := na,
                       h_read := \<lparr>rd_state = sb_op_from_state row, rd_node = sb_node row,
                         rd_lost_from = sb_lost_from row, rd_materialised = sb_materialised row\<rparr>\<rparr>
                in Inr (db', h, [(startEvent h row)\<lparr>ev_name := op_text kind @ '' on node '' @ sb_op_target row
                     @ '' (taken over from instance '' @ sb_op_owner row @ '')''\<rparr>])))"

section \<open>A resume in the place of a hibernate\<close>

definition preemptHibernate :: "engine \<Rightarrow> txenv \<Rightarrow> sandbox \<Rightarrow> op_intent \<Rightarrow> string \<Rightarrow> registry \<Rightarrow> err + registry \<times> op_handle \<times> event list" where
  "preemptHibernate e env row it target db =
    (if sb_op_id row \<noteq> it_preempt it \<or> sb_op row \<noteq> Some OpHibernate \<or> sb_client_state row \<noteq> StateHibernating
        \<or> sb_op_from_state row \<noteq> Some StatePaused \<or> sb_node row \<noteq> target \<or> sb_op_target row \<noteq> target
     then Inl (preemptEnded (sb_id row))
     else case claim e env row OpResume target db of
       Some er \<Rightarrow> Inl er
     | None \<Rightarrow>
         bindE (UpsertBooking (tx_now env) (sb_id row) target (sb_vcpus row) (sb_memory_mib row) True db) (\<lambda>db1.
         let d = tm_op_deadline (e_t e) OpResume (sb_memory_mib row);
             after = row\<lparr>sb_op := Some OpResume, sb_op_id := tx_uuid env, sb_op_owner := e_id e,
               sb_op_deadline := tx_now env + d, sb_op_target := target, sb_op_from_state := Some StatePaused,
               sb_client_state := transitional OpResume, sb_status_description := []\<rparr> in
         bindE (UpdateSandbox (tx_now env) row after db1) (\<lambda>(db2, written).
         bindE (syncBooking (tx_now env) row written False db2) (\<lambda>(db3, _).
         let h = (newHandle e env written OpResume (it_trigger it) target d)
               \<lparr>h_preempted := sb_op_id row, h_from := sb_op_owner row,
                h_read := \<lparr>rd_state = Some StatePaused, rd_node = sb_node row, rd_lost_from = sb_lost_from row,
                  rd_materialised = sb_materialised row\<rparr>\<rparr>
         in Inr (db3, h, [(startEvent h row)\<lparr>ev_name := op_text OpResume @ '' on node '' @ target
              @ '' (abandons the hibernate of instance '' @ sb_op_owner row @ '')''\<rparr>])))))"

section \<open>A fresh op\<close>

text \<open>The row as the begin of a fresh op writes it.\<close>

definition begin_row :: "engine \<Rightarrow> txenv \<Rightarrow> op_intent \<Rightarrow> string \<Rightarrow> sandbox \<Rightarrow> sandbox" where
  "begin_row e env it target row =
    (let kind = it_kind it;
         moves = (kind = OpCreate \<or> kind = OpRestore) \<and> target \<noteq> sb_node row;
         a = row\<lparr>sb_op := Some kind, sb_op_id := tx_uuid env, sb_op_owner := e_id e,
           sb_op_deadline := tx_now env + tm_op_deadline (e_t e) kind (sb_memory_mib row),
           sb_op_target := target, sb_op_from_state := Some (sb_client_state row),
           sb_client_state := transitional kind, sb_status_description := it_reason it,
           sb_node := (if kind = OpCreate \<or> kind = OpRestore then target else sb_node row)\<rparr>;
         b = (if moves then a\<lparr>sb_materialised := False, sb_lost_from := [], sb_policy_failed := PolicyNone,
                sb_policy_failures := 0, sb_policy_not_before := 0\<rparr> else a)
     in if kind = OpCreate \<and> sb_image_ref row = [] then b\<lparr>sb_image_ref := it_image_ref it\<rparr> else b)"

text \<open>The tombstones of a restore on another node, on the nodes of \<open>olds\<close>; a tombstone that is there is an
  earlier decision's, which a rollback leaves.\<close>

fun restore_tombstones :: "gotime \<Rightarrow> sandbox \<Rightarrow> string \<Rightarrow> string list \<Rightarrow> tombstone_key list \<Rightarrow> registry
    \<Rightarrow> err + registry \<times> tombstone_key list" where
  "restore_tombstones now row target [] tombs db = Inr (db, tombs)"
| "restore_tombstones now row target (old # olds) tombs db =
    (if old = [] \<or> old = target \<or> containsKey tombs old then restore_tombstones now row target olds tombs db
     else let k = (sb_id row, old, sb_incarnation row) in
       case GetTombstone k db of
         Inr _ \<Rightarrow> restore_tombstones now row target olds tombs db
       | Inl _ \<Rightarrow> bindE (UpsertTombstone now k (''restored on '' @ target) 0 db)
           (restore_tombstones now row target olds (tombs @ [k])))"

definition placementEvent :: "sandbox \<Rightarrow> op_kind \<Rightarrow> string \<Rightarrow> event" where
  "placementEvent row kind target = \<lparr>ev_sandbox = sb_id row, ev_tenant = sb_owner row, ev_node = target,
    ev_kind = KindPlacement, ev_span = [], ev_parent = [],
    ev_name = ''placed on '' @ target @ '' ('' @ op_text kind @ '')''\<rparr>"

definition begin_booked :: "engine \<Rightarrow> txenv \<Rightarrow> op_intent \<Rightarrow> string \<Rightarrow> sandbox \<Rightarrow> registry \<Rightarrow> err + registry" where
  "begin_booked e env it target row db =
    (if \<not> admits (it_kind it) then Inr db
     else case claim e env row (it_kind it) target db of
       Some er \<Rightarrow> Inl er
     | None \<Rightarrow> UpsertBooking (tx_now env) (sb_id row) target (sb_vcpus row) (sb_memory_mib row) True db)"

definition begin_fresh :: "engine \<Rightarrow> txenv \<Rightarrow> op_intent \<Rightarrow> string \<Rightarrow> sandbox \<Rightarrow> registry \<Rightarrow> err + registry \<times> op_handle \<times> event list" where
  "begin_fresh e env it target row db =
    (case precheck e (tx_now env) row it target db of
       Some er \<Rightarrow> Inl er
     | None \<Rightarrow>
         let na = (it_kind it = OpHibernate \<and> noAbandon (it_trigger it) target db);
             kind = it_kind it;
             d = tm_op_deadline (e_t e) kind (sb_memory_mib row);
             after = begin_row e env it target row in
         bindE (begin_booked e env it target row db) (\<lambda>db1.
         bindE (if kind = OpRestore then restore_tombstones (tx_now env) row target [sb_node row, sb_lost_from row] [] db1
                else Inr (db1, [])) (\<lambda>(db2, tombs).
         bindE (UpdateSandbox (tx_now env) row after db2) (\<lambda>(db3, written).
         bindE (syncBooking (tx_now env) row written False db3) (\<lambda>(db4, _).
         let h = (newHandle e env written kind (it_trigger it) target d)
               \<lparr>h_read := \<lparr>rd_state = Some (sb_client_state row), rd_node = sb_node row,
                  rd_lost_from = sb_lost_from row, rd_materialised = sb_materialised row\<rparr>,
                h_tombstones := tombs, h_no_abandon := na\<rparr>
         in Inr (db4, h, (if kind = OpCreate \<or> kind = OpRestore then [placementEvent row kind target] else [])
              @ [startEvent h row]))))))"

section \<open>The begin transaction\<close>

definition beginOn :: "engine \<Rightarrow> runner \<Rightarrow> txenv \<Rightarrow> podID \<Rightarrow> op_intent \<Rightarrow> string \<Rightarrow> registry
    \<Rightarrow> err + registry \<times> op_handle \<times> event list" where
  "beginOn e r env i it target db =
    bindE (LockSandbox i db) (\<lambda>row.
      if it_incarnation it \<noteq> uuid_nil \<and> sb_incarnation row \<noteq> it_incarnation it
      then Inl (Kind ErrNotFound ''no such sandbox'')
      else if sb_op row \<noteq> None then
        (if it_preempt it \<noteq> uuid_nil then preemptHibernate e env row it target db
         else if it_takeover it \<noteq> uuid_nil \<and> sb_op_id row \<noteq> it_takeover it then Inl (takeoverEnded i)
         else takeover e r env row (it_trigger it) db)
      else if it_takeover it \<noteq> uuid_nil then Inl (takeoverEnded i)
      else if it_preempt it \<noteq> uuid_nil then Inl (preemptEnded i)
      else begin_fresh e env it target row db)"

text \<open>\<open>committed\<close>: the op of a begin whose commit got no answer is the row's.\<close>

definition committed :: "op_handle \<Rightarrow> registry \<Rightarrow> bool" where
  "committed h db = (case GetSandbox (h_id h) db of Inl _ \<Rightarrow> False
    | Inr row \<Rightarrow> sb_incarnation row = h_inc h \<and> sb_op_id row = h_op_id h)"

section \<open>Candidates\<close>

definition pinnedTarget :: "op_intent \<Rightarrow> string" where
  "pinnedTarget it = (if (it_kind it = OpCreate \<or> it_kind it = OpRestore) \<and> it_candidates it \<noteq> [] then [] else it_target it)"

definition refuseVerdict :: "placement_candidate list \<Rightarrow> string \<Rightarrow> string \<Rightarrow> placement_candidate list" where
  "refuseVerdict vs n reason = map (\<lambda>v. if pc_node v = n then v\<lparr>pc_feasible := False, pc_reason := reason\<rparr> else v) vs"

text \<open>\<open>begin\<close>: for a create or restore with candidates the loop over them, each a transaction of its own, else
  one transaction on the target. \<open>txs k\<close> is what the \<open>k\<close>th transaction meets: its environment, the registry, which
  others may have changed since the one before, and whether the caller is gone before it. The registry of the
  result is that of the transaction that began the op; a transaction that failed left none.\<close>

type_synonym tx_meets = "txenv \<times> registry \<times> bool"

fun begin_candidates :: "engine \<Rightarrow> runner \<Rightarrow> podID \<Rightarrow> op_intent \<Rightarrow> (nat \<Rightarrow> tx_meets) \<Rightarrow> nat \<Rightarrow> string list \<Rightarrow> string list
    \<Rightarrow> err + registry \<times> op_handle \<times> event list" where
  "begin_candidates e r i it txs k [] refused =
    Inl (Kind ErrNoCapacity (''no capacity (retryable): no feasible node; '' @ join ''; '' refused))"
| "begin_candidates e r i it txs k (c # cs) refused =
    (case txs k of (env, db, gone) \<Rightarrow>
      if gone then Inl ErrCanceled
      else case beginOn e r env i it c db of
        Inl (Refusal _ _ t) \<Rightarrow>
          begin_candidates e r i (it\<lparr>it_verdicts := refuseVerdict (it_verdicts it) c t\<rparr>) txs (Suc k) cs (refused @ [c @ '': '' @ t])
      | res \<Rightarrow> res)"

definition begin_op :: "engine \<Rightarrow> runner \<Rightarrow> podID \<Rightarrow> op_intent \<Rightarrow> (nat \<Rightarrow> tx_meets) \<Rightarrow> err + registry \<times> op_handle \<times> event list" where
  "begin_op e r i it txs =
    (if pinnedTarget it = [] then begin_candidates e r i it txs 0 (it_candidates it) []
     else if it_target it = [] then Inl ErrNoTarget
     else case txs 0 of (env, db, _) \<Rightarrow>
       (case beginOn e r env i it (it_target it) db of
          Inl (Refusal n g t) \<Rightarrow> Inl (admissionError n g t i)
        | res \<Rightarrow> res))"

section \<open>Lemmas\<close>

lemma LockSandbox_Inr [simp]: "LockSandbox i db = Inr row \<longleftrightarrow> get_row (db_sandboxes db) i = Some row"
  by (auto simp: LockSandbox_def GetSandbox_def split: option.splits)

lemma inv_row:
  assumes "inv_but X db" "get_row (db_sandboxes db) i = Some row"
  shows "sb_id row = i" "row_ok row"
  using assms by (auto simp: inv_but_def rows_ok_def)

lemma inv_no_node: "inv_but X db \<Longrightarrow> get_row (db_nodes db) n = Some nd \<Longrightarrow> n \<noteq> []"
  by (auto simp: inv_but_def tables_ok_def)

lemma claim_target:
  assumes "db_inv db" "claim e env row kind target db = None"
  shows "target \<noteq> []"
  using claim_None [OF assms(2)] inv_no_node [OF assms(1)] by blast

text \<open>The row of a fresh op.\<close>

lemma begin_row_simps [simp]:
  "sb_id (begin_row e env it target row) = sb_id row"
  "sb_op (begin_row e env it target row) = Some (it_kind it)"
  "sb_op_id (begin_row e env it target row) = tx_uuid env"
  "sb_op_owner (begin_row e env it target row) = e_id e"
  "sb_op_target (begin_row e env it target row) = target"
  "sb_op_from_state (begin_row e env it target row) = Some (sb_client_state row)"
  "sb_client_state (begin_row e env it target row) = transitional (it_kind it)"
  "sb_incarnation (begin_row e env it target row) = sb_incarnation row"
  "sb_vcpus (begin_row e env it target row) = sb_vcpus row"
  "sb_memory_mib (begin_row e env it target row) = sb_memory_mib row"
  "sb_checkpoint_epoch (begin_row e env it target row) = sb_checkpoint_epoch row"
  "sb_checkpoint_head (begin_row e env it target row) = sb_checkpoint_head row"
  "sb_node (begin_row e env it target row) = (if it_kind it = OpCreate \<or> it_kind it = OpRestore then target else sb_node row)"
  by (simp_all add: begin_row_def Let_def)

lemma precheck_None:
  assumes "precheck e now row it target db = None"
  shows "state_allows row it target db" and "pinned_kind (it_kind it) \<Longrightarrow> target = sb_node row"
    and "op_rechecks e now row it db = None"
  using assms by (auto simp: precheck_def split: if_splits)

text \<open>The states a fresh op begins in: none of an op's alone, and not unknown or lost.\<close>

lemma state_allows_states:
  assumes "state_allows row it target db"
  shows "sb_client_state row \<in> {StatePending, StateStopped, StateFailed, StatePaused, StateHibernated, StateRunning, StateCreating}"
    and "pinned_kind (it_kind it) \<Longrightarrow> sb_client_state row \<notin> {StatePending, StateHibernated}"
  using assms by (auto simp: state_allows_def Let_def pinned_kind_def split: op_kind.splits)

lemma begin_row_ok:
  assumes "row_ok row" "sb_op row = None" "tx_uuid env \<noteq> uuid_nil" "target \<noteq> []"
    and "pinned_kind (it_kind it) \<Longrightarrow> target = sb_node row"
  shows "row_ok (begin_row e env it target row)"
  using assms
  by (cases "it_kind it") (auto simp: row_ok_def place_ok_def transitional_def pinned_kind_def)

lemma begin_target:
  assumes "row_ok row" "precheck e now row it target db = None" "admits (it_kind it) \<Longrightarrow> target \<noteq> []"
  shows "target \<noteq> []"
proof (cases "pinned_kind (it_kind it)")
  case True
  then have "sb_client_state row \<notin> {StatePending, StateHibernated}" "target = sb_node row"
    using precheck_None [OF assms(2)] state_allows_states(2) by blast+
  then show ?thesis using assms(1) by (auto simp: row_ok_def place_ok_def)
next
  case False
  then show ?thesis using assms(3) by (auto simp: pinned_kind_def admits_def)
qed

text \<open>A booking on a node whose claim passed.\<close>

lemma claim_booked_inv:
  assumes inv: "db_inv db" and row: "get_row (db_sandboxes db) (sb_id row) = Some row"
    and cl: "claim e env row kind target db = None"
    and up: "UpsertBooking now (sb_id row) target (sb_vcpus row) (sb_memory_mib row) True db = Inr db1"
  shows "inv_but {sb_id row} db1"
proof -
  obtain n where n: "get_row (db_nodes db) target = Some n"
      "fits n (SumBookings target (sb_id row) db) (sb_vcpus row) (sb_memory_mib row)"
    using claim_fits [OF cl] by blast
  show ?thesis by (rule inv_UpsertBooking [OF inv row up]) (use n in auto)
qed

lemma begin_booked_inv:
  assumes inv: "db_inv db" and row: "get_row (db_sandboxes db) i = Some row"
    and bk: "begin_booked e env it target row db = Inr db1"
  shows "inv_but {i} db1" and "db1 = db\<lparr>db_bookings := db_bookings db1\<rparr>"
    and "admits (it_kind it) \<Longrightarrow> target \<noteq> []" and "\<not> admits (it_kind it) \<Longrightarrow> db1 = db"
proof -
  have i: "sb_id row = i" using inv_row [OF inv row] by simp
  show "\<not> admits (it_kind it) \<Longrightarrow> db1 = db" using bk by (simp add: begin_booked_def)
  show "db1 = db\<lparr>db_bookings := db_bookings db1\<rparr>"
    using bk UpsertBooking_booked by (fastforce simp: begin_booked_def split: if_splits option.splits)
  show "admits (it_kind it) \<Longrightarrow> target \<noteq> []"
    using bk claim_target [OF inv] by (auto simp: begin_booked_def split: option.splits)
  show "inv_but {i} db1"
  proof (cases "admits (it_kind it)")
    case False
    then show ?thesis using bk inv by (auto simp: begin_booked_def intro: inv_mono)
  next
    case True
    then have cl: "claim e env row (it_kind it) target db = None"
      and up: "UpsertBooking (tx_now env) i target (sb_vcpus row) (sb_memory_mib row) True db = Inr db1"
      using bk i by (auto simp: begin_booked_def split: option.splits)
    show ?thesis using claim_booked_inv [OF inv _ cl] row up i by blast
  qed
qed

lemma restore_tombstones_only:
  assumes "restore_tombstones now row target olds tombs db = Inr (db', ks)" "keyed (db_tombstones db)"
  shows "db' = db\<lparr>db_tombstones := db_tombstones db'\<rparr> \<and> keyed (db_tombstones db')"
  using assms
proof (induction olds arbitrary: tombs db)
  case (Cons old olds)
  let ?k = "(sb_id row, old, sb_incarnation row)"
  show ?case
  proof (cases "old = [] \<or> old = target \<or> containsKey tombs old \<or> (\<exists>t. GetTombstone ?k db = Inr t)")
    case True
    then have "restore_tombstones now row target olds tombs db = Inr (db', ks)"
      using Cons.prems(1) by (auto split: if_splits)
    then show ?thesis by (rule Cons.IH) (rule Cons.prems(2))
  next
    case False
    then obtain e where "GetTombstone ?k db = Inl e" by (cases "GetTombstone ?k db") auto
    then obtain db1 where up: "UpsertTombstone now ?k (''restored on '' @ target) 0 db = Inr db1"
      and rest: "restore_tombstones now row target olds (tombs @ [?k]) db1 = Inr (db', ks)"
      using False Cons.prems(1) by (auto simp: bindE_Inr_iff Let_def)
    have "db' = db1\<lparr>db_tombstones := db_tombstones db'\<rparr>" and k: "keyed (db_tombstones db')"
      using Cons.IH [OF rest] UpsertTombstone_only(2) [OF up] Cons.prems(2) by blast+
    then have "db' = db\<lparr>db_tombstones := db_tombstones db'\<rparr>"
      by (metis (no_types, lifting) UpsertTombstone_only(1) [OF up] registry.surjective registry.update_convs(5))
    with k show ?thesis by blast
  qed
qed simp

section \<open>What a begin promises\<close>

text \<open>The handle of an op names a node; one of a fresh op keeps what a rollback may write back.\<close>

definition read_ok :: "op_read \<Rightarrow> bool" where
  "read_ok rd = (case rd_state rd of
      None \<Rightarrow> False
    | Some s \<Rightarrow> s \<in> {StatePending, StateStopped, StateFailed, StatePaused, StateHibernated, StateRunning, StateCreating}
        \<and> place_ok s (rd_node rd) (rd_materialised rd))"

definition handle_ok :: "op_handle \<Rightarrow> bool" where
  "handle_ok h = (h_target h \<noteq> [] \<and> h_op_id h \<noteq> uuid_nil
    \<and> (\<not> h_takeover h \<and> h_preempted h = uuid_nil \<longrightarrow> read_ok (h_read h)))"

text \<open>The row of a begun op: the op of the handle, on its target.\<close>

definition op_of :: "op_handle \<Rightarrow> sandbox \<Rightarrow> bool" where
  "op_of h row = (sb_id row = h_id h \<and> sb_incarnation row = h_inc h \<and> sb_op row = Some (h_kind h)
    \<and> sb_op_id row = h_op_id h \<and> sb_op_target row = h_target h)"

text \<open>The begin of the op of \<open>h\<close>, from \<open>db\<close> to \<open>db'\<close>.\<close>

definition begun :: "engine \<Rightarrow> txenv \<Rightarrow> podID \<Rightarrow> registry \<Rightarrow> registry \<Rightarrow> op_handle \<Rightarrow> bool" where
  "begun e env i db db' h = (db_inv db' \<and> handle_ok h \<and> h_id h = i \<and> h_op_id h = tx_uuid env \<and> only_row i db db'
    \<and> (\<exists>row'. get_row (db_sandboxes db') i = Some row' \<and> op_of h row' \<and> sb_op_owner row' = e_id e))"

lemma newHandle_simps [simp]:
  "h_id (newHandle e env w k t n d) = sb_id w" "h_op_id (newHandle e env w k t n d) = sb_op_id w"
  "h_inc (newHandle e env w k t n d) = sb_incarnation w" "h_kind (newHandle e env w k t n d) = k"
  "h_trigger (newHandle e env w k t n d) = t" "h_target (newHandle e env w k t n d) = n"
  "h_takeover (newHandle e env w k t n d) = False" "h_preempted (newHandle e env w k t n d) = uuid_nil"
  "h_row (newHandle e env w k t n d) = w" "h_tombstones (newHandle e env w k t n d) = []"
  by (simp_all add: newHandle_def)

lemma begin_fresh_steps:
  assumes "begin_fresh e env it target row db = Inr (db', h, evs)"
  obtains db1 db2 db3 tombs w es where
    "precheck e (tx_now env) row it target db = None"
    "begin_booked e env it target row db = Inr db1"
    "(if it_kind it = OpRestore then restore_tombstones (tx_now env) row target [sb_node row, sb_lost_from row] [] db1
      else Inr (db1, [])) = Inr (db2, tombs)"
    "UpdateSandbox (tx_now env) row (begin_row e env it target row) db2 = Inr (db3, w)"
    "syncBooking (tx_now env) row w False db3 = Inr (db', es)"
    "h = (newHandle e env w (it_kind it) (it_trigger it) target (tm_op_deadline (e_t e) (it_kind it) (sb_memory_mib row)))
      \<lparr>h_read := \<lparr>rd_state = Some (sb_client_state row), rd_node = sb_node row, rd_lost_from = sb_lost_from row,
         rd_materialised = sb_materialised row\<rparr>, h_tombstones := tombs,
       h_no_abandon := it_kind it = OpHibernate \<and> noAbandon (it_trigger it) target db\<rparr>"
proof -
  have pre: "precheck e (tx_now env) row it target db = None"
    using assms by (auto simp: begin_fresh_def split: option.splits)
  show thesis
    using assms unfolding begin_fresh_def pre option.case Let_def
    by (clarsimp simp: bindE_Inr_iff split_paired_Ex simp del: if_split) (rule that [OF pre], assumption+)
qed

lemma begin_fresh_begun:
  assumes inv: "db_inv db" and row: "get_row (db_sandboxes db) i = Some row" and op: "sb_op row = None"
    and new: "tx_uuid env \<noteq> uuid_nil"
    and ok: "begin_fresh e env it target row db = Inr (db', h, evs)"
  shows "begun e env i db db' h"
proof -
  obtain db1 db2 db3 tombs w es where pre: "precheck e (tx_now env) row it target db = None"
    and bk: "begin_booked e env it target row db = Inr db1"
    and ts: "(if it_kind it = OpRestore then restore_tombstones (tx_now env) row target [sb_node row, sb_lost_from row] [] db1
      else Inr (db1, [])) = Inr (db2, tombs)"
    and up: "UpdateSandbox (tx_now env) row (begin_row e env it target row) db2 = Inr (db3, w)"
    and sync: "syncBooking (tx_now env) row w False db3 = Inr (db', es)"
    and h: "h = (newHandle e env w (it_kind it) (it_trigger it) target (tm_op_deadline (e_t e) (it_kind it) (sb_memory_mib row)))
      \<lparr>h_read := \<lparr>rd_state = Some (sb_client_state row), rd_node = sb_node row, rd_lost_from = sb_lost_from row,
         rd_materialised = sb_materialised row\<rparr>, h_tombstones := tombs,
       h_no_abandon := it_kind it = OpHibernate \<and> noAbandon (it_trigger it) target db\<rparr>"
    using begin_fresh_steps [OF ok] .
  have i: "sb_id row = i" and rok: "row_ok row" using inv_row [OF inv row] by auto
  note b1 = begin_booked_inv [OF inv row bk]
  have "keyed (db_tombstones db1)" using b1(1) by (simp add: inv_but_def tables_ok_def)
  then have same: "db2 = db1\<lparr>db_tombstones := db_tombstones db2\<rparr> \<and> keyed (db_tombstones db2)"
    using ts restore_tombstones_only by (auto split: if_splits simp del: restore_tombstones.simps)
  have inv2: "inv_but {i} db2" using inv_tombstones [OF b1(1)] same by metis
  have row2: "get_row (db_sandboxes db2) (sb_id row) = Some row"
    using same b1(2) row i by (metis registry.select_convs(1) registry.surjective registry.update_convs(4,5))
  have books: "\<not> admits (it_kind it) \<Longrightarrow> db_bookings db2 = db_bookings db"
    using same b1(4) by (metis registry.select_convs(4) registry.surjective registry.update_convs(5))
  note pin = precheck_None(2) [OF pre]
  have target: "target \<noteq> []" by (rule begin_target [OF rok pre b1(3)])
  have aok: "row_ok (begin_row e env it target row)" by (rule begin_row_ok [OF rok op new target pin])
  have hib: "book_ok (get_row (db_bookings db2) (sb_id row)) (begin_row e env it target row)"
    if u: "bookingOf (sb_client_state (begin_row e env it target row)) = bookUnchanged"
  proof -
    have k: "it_kind it = OpHibernate" using u by (cases "it_kind it") (auto simp: bookingOf_def transitional_def)
    have "book_ok (get_row (db_bookings db) i) (begin_row e env it target row)"
      by (rule book_ok_same_node [OF inv _ row]) (use k u in auto)
    then show ?thesis using books k i by (simp add: admits_def)
  qed
  have inv2': "inv_but (insert (sb_id row) {}) db2" using inv2 i by simp
  have "only_row i db db1"
    using bk i UpsertBooking_only [of _ i] by (auto simp: begin_booked_def split: if_splits option.splits)
  then have "only_row i db db2" using same by (metis only_row_simps(3))
  moreover have "db_inv db'" by (rule write_book_inv [OF inv2' row2 aok up hib sync])
  moreover note wb = write_book_row [OF row2 up sync]
  ultimately show ?thesis
    using i new target state_allows_states(1) [OF precheck_None(1) [OF pre]] rok h
    unfolding begun_def handle_ok_def op_of_def read_ok_def
    by (auto intro: only_row_trans simp: row_ok_def)
qed

lemma takeover_steps:
  assumes "takeover e r env row trigger db = Inr (db', h, evs)"
  obtains kind w na where "sb_op row = Some kind"
    "\<not> (if sb_op_owner row \<noteq> e_id e then InstanceLive (tx_now env) (sb_op_owner row) db else runs r row)"
    "UpdateSandbox (tx_now env) row (row\<lparr>sb_op_id := tx_uuid env, sb_op_owner := e_id e,
      sb_op_deadline := tx_now env + tm_op_deadline (e_t e) kind (sb_memory_mib row)\<rparr>) db = Inr (db', w)"
    "h = (newHandle e env w kind trigger (sb_op_target row) (tm_op_deadline (e_t e) kind (sb_memory_mib row)))
      \<lparr>h_takeover := True, h_from := sb_op_owner row, h_no_abandon := na,
       h_read := \<lparr>rd_state = sb_op_from_state row, rd_node = sb_node row,
         rd_lost_from = sb_lost_from row, rd_materialised = sb_materialised row\<rparr>\<rparr>"
proof -
  obtain kind where op: "sb_op row = Some kind" using assms by (auto simp: takeover_def split: option.splits)
  moreover have free: "\<not> (if sb_op_owner row \<noteq> e_id e then InstanceLive (tx_now env) (sb_op_owner row) db else runs r row)"
    using assms op by (auto simp: takeover_def split: if_splits)
  ultimately show thesis
    using assms unfolding takeover_def op option.case Let_def if_not_P [OF free]
    by (clarsimp simp: bindE_Inr_iff split_paired_Ex simp del: if_split) (rule that [OF op free], assumption+)
qed

lemma takeover_begun:
  assumes inv: "db_inv db" and row: "get_row (db_sandboxes db) i = Some row" and new: "tx_uuid env \<noteq> uuid_nil"
    and ok: "takeover e r env row trigger db = Inr (db', h, evs)"
  shows "begun e env i db db' h"
proof -
  obtain kind w na where op: "sb_op row = Some kind"
    and up: "UpdateSandbox (tx_now env) row (row\<lparr>sb_op_id := tx_uuid env, sb_op_owner := e_id e,
      sb_op_deadline := tx_now env + tm_op_deadline (e_t e) kind (sb_memory_mib row)\<rparr>) db = Inr (db', w)"
    (is "UpdateSandbox _ _ ?after _ = _")
    and h: "h = (newHandle e env w kind trigger (sb_op_target row) (tm_op_deadline (e_t e) kind (sb_memory_mib row)))
      \<lparr>h_takeover := True, h_from := sb_op_owner row, h_no_abandon := na,
       h_read := \<lparr>rd_state = sb_op_from_state row, rd_node = sb_node row,
         rd_lost_from = sb_lost_from row, rd_materialised = sb_materialised row\<rparr>\<rparr>"
    using takeover_steps [OF ok] .
  have i: "sb_id row = i" and rok: "row_ok row" using inv_row [OF inv row] by auto
  have row': "get_row (db_sandboxes db) (sb_id row) = Some row" using row i by simp
  have aok: "row_ok ?after" using rok op new by (auto simp: row_ok_def)
  note u = UpdateSandbox_inv [OF inv row' aok up] and cur = UpdateSandbox_current [OF up row']
  have "book_ok (get_row (db_bookings db) i) row" using inv_book_ok [OF inv] row by blast
  then have "book_ok (get_row (db_bookings db') i) w"
    using u(3) cur(1,2) book_ok_written [OF cur(2)] by (auto simp: book_ok_def split: option.splits)
  then have "db_inv db'" using inv_booked u(1,2) i by blast
  moreover have "h_target h \<noteq> []" using rok op h by (simp add: row_ok_def)
  ultimately show ?thesis
    using UpdateSandbox_only [OF up row'] u(2) cur(1) i new h op
    unfolding begun_def handle_ok_def op_of_def by auto
qed

lemma preemptHibernate_steps:
  assumes "preemptHibernate e env row it target db = Inr (db', h, evs)"
  obtains db1 db2 w es where
    "sb_op_id row = it_preempt it" "sb_op row = Some OpHibernate" "sb_op_from_state row = Some StatePaused"
    "sb_node row = target" "sb_op_target row = target"
    "claim e env row OpResume target db = None"
    "UpsertBooking (tx_now env) (sb_id row) target (sb_vcpus row) (sb_memory_mib row) True db = Inr db1"
    "UpdateSandbox (tx_now env) row (row\<lparr>sb_op := Some OpResume, sb_op_id := tx_uuid env, sb_op_owner := e_id e,
      sb_op_deadline := tx_now env + tm_op_deadline (e_t e) OpResume (sb_memory_mib row), sb_op_target := target,
      sb_op_from_state := Some StatePaused, sb_client_state := transitional OpResume, sb_status_description := []\<rparr>) db1
      = Inr (db2, w)"
    "syncBooking (tx_now env) row w False db2 = Inr (db', es)"
    "h = (newHandle e env w OpResume (it_trigger it) target (tm_op_deadline (e_t e) OpResume (sb_memory_mib row)))
      \<lparr>h_preempted := sb_op_id row, h_from := sb_op_owner row,
       h_read := \<lparr>rd_state = Some StatePaused, rd_node = sb_node row, rd_lost_from = sb_lost_from row,
         rd_materialised = sb_materialised row\<rparr>\<rparr>"
proof -
  have cond: "sb_op_id row = it_preempt it" "sb_op row = Some OpHibernate" "sb_op_from_state row = Some StatePaused"
    "sb_node row = target" "sb_op_target row = target" "sb_client_state row = StateHibernating"
    and cl: "claim e env row OpResume target db = None"
    using assms by (auto simp: preemptHibernate_def split: if_splits option.splits)
  show thesis
    using assms unfolding preemptHibernate_def cl option.case Let_def
    by (clarsimp simp: bindE_Inr_iff split_paired_Ex cond simp del: if_split)
      (rule that [OF cond(1-5) cl], (simp add: cond)+)
qed

lemma preemptHibernate_begun:
  assumes inv: "db_inv db" and row: "get_row (db_sandboxes db) i = Some row" and new: "tx_uuid env \<noteq> uuid_nil"
    and ok: "preemptHibernate e env row it target db = Inr (db', h, evs)"
  shows "begun e env i db db' h"
proof -
  obtain db1 db2 w es where
    op: "sb_op row = Some OpHibernate" and node: "sb_node row = target"
    and cl: "claim e env row OpResume target db = None"
    and bk: "UpsertBooking (tx_now env) (sb_id row) target (sb_vcpus row) (sb_memory_mib row) True db = Inr db1"
    and up: "UpdateSandbox (tx_now env) row (row\<lparr>sb_op := Some OpResume, sb_op_id := tx_uuid env, sb_op_owner := e_id e,
      sb_op_deadline := tx_now env + tm_op_deadline (e_t e) OpResume (sb_memory_mib row), sb_op_target := target,
      sb_op_from_state := Some StatePaused, sb_client_state := transitional OpResume, sb_status_description := []\<rparr>) db1
      = Inr (db2, w)" (is "UpdateSandbox _ _ ?after _ = _")
    and sync: "syncBooking (tx_now env) row w False db2 = Inr (db', es)"
    and h: "h = (newHandle e env w OpResume (it_trigger it) target (tm_op_deadline (e_t e) OpResume (sb_memory_mib row)))
      \<lparr>h_preempted := sb_op_id row, h_from := sb_op_owner row,
       h_read := \<lparr>rd_state = Some StatePaused, rd_node = sb_node row, rd_lost_from = sb_lost_from row,
         rd_materialised = sb_materialised row\<rparr>\<rparr>"
    using preemptHibernate_steps [OF ok] .
  have i: "sb_id row = i" and rok: "row_ok row" using inv_row [OF inv row] by auto
  have inv1: "inv_but (insert (sb_id row) {}) db1"
    using claim_booked_inv [OF inv _ cl bk] row i by simp
  have only1: "only_row i db db1" and row1: "get_row (db_sandboxes db1) (sb_id row) = Some row"
    using UpsertBooking_only [OF bk] row i by auto
  have aok: "row_ok ?after" using rok op new node by (auto simp: row_ok_def place_ok_def transitional_def)
  have "db_inv db'"
    by (rule write_book_inv [OF inv1 row1 aok up _ sync]) (simp add: bookingOf_def transitional_def)
  then show ?thesis
    using write_book_row [OF row1 up sync] only1 i new h op rok node
    unfolding begun_def handle_ok_def op_of_def by (auto simp: row_ok_def intro: only_row_trans)
qed

lemma beginOn_cases:
  assumes "beginOn e r env i it target db = Inr (db', h, evs)"
  obtains (fresh) row where "get_row (db_sandboxes db) i = Some row" "sb_op row = None"
      "it_takeover it = uuid_nil" "it_preempt it = uuid_nil" "begin_fresh e env it target row db = Inr (db', h, evs)"
  | (takeover) row where "get_row (db_sandboxes db) i = Some row" "sb_op row \<noteq> None" "it_preempt it = uuid_nil"
      "it_takeover it = uuid_nil \<or> sb_op_id row = it_takeover it" "takeover e r env row (it_trigger it) db = Inr (db', h, evs)"
  | (preempt) row where "get_row (db_sandboxes db) i = Some row" "sb_op row \<noteq> None" "it_preempt it \<noteq> uuid_nil"
      "preemptHibernate e env row it target db = Inr (db', h, evs)"
proof -
  obtain row where row: "get_row (db_sandboxes db) i = Some row"
    using assms by (auto simp: beginOn_def bindE_Inr_iff)
  then have "LockSandbox i db = Inr row" by simp
  then show thesis using assms row that unfolding beginOn_def by (auto split: if_splits)
qed

lemma beginOn_begun [inv_intros]:
  assumes "db_inv db" "tx_uuid env \<noteq> uuid_nil" "beginOn e r env i it target db = Inr (db', h, evs)"
  shows "begun e env i db db' h"
  using assms(3)
proof (cases rule: beginOn_cases)
  case (fresh row)
  then show ?thesis using begin_fresh_begun assms(1,2) by blast
next
  case (takeover row)
  then show ?thesis using takeover_begun assms(1,2) by blast
next
  case (preempt row)
  then show ?thesis using preemptHibernate_begun assms(1,2) by blast
qed

section \<open>Properties\<close>

definition sample_intent :: "op_kind \<Rightarrow> string \<Rightarrow> op_intent" where
  "sample_intent k target = \<lparr>it_kind = k, it_trigger = TriggerExplicit, it_candidates = [], it_target = target,
    it_incarnation = 5, it_image_ref = ''img@1'', it_reason = [], it_verdicts = [], it_takeover = 0, it_preempt = 0\<rparr>"

definition sample_runner :: runner where
  "sample_runner = \<lparr>r_ops = [], r_refusing = False, r_beginning = 0, r_begun = False\<rparr>"

text \<open>The running sample sandbox with a pause in flight, of an instance that is gone.\<close>

definition sample_pausing_db :: registry where
  "sample_pausing_db = sample_running_db\<lparr>db_sandboxes := [(sample_pod, sample_running\<lparr>sb_op := Some OpPause, sb_op_id := 9,
    sb_op_owner := ''i2'', sb_op_deadline := 900 * second, sb_op_target := ''n1'', sb_op_from_state := Some StateRunning,
    sb_client_state := StatePausing\<rparr>)]\<rparr>"

lemma takeover_row:
  assumes row: "get_row (db_sandboxes db) (sb_id row) = Some row"
    and ok: "takeover e r env row trigger db = Inr (db', h, evs)"
  shows "\<exists>w. get_row (db_sandboxes db') (sb_id row) = Some w \<and> h_takeover h \<and> Some (h_kind h) = sb_op row
    \<and> h_target h = sb_op_target row \<and> db_bookings db' = db_bookings db
    \<and> \<not> (if sb_op_owner row \<noteq> e_id e then InstanceLive (tx_now env) (sb_op_owner row) db else runs r row)
    \<and> (\<exists>d g t. w = row\<lparr>sb_op_id := tx_uuid env, sb_op_owner := e_id e, sb_op_deadline := d, sb_gen := g, sb_updated_at := t\<rparr>)"
proof -
  obtain kind w na where op: "sb_op row = Some kind"
    and free: "\<not> (if sb_op_owner row \<noteq> e_id e then InstanceLive (tx_now env) (sb_op_owner row) db else runs r row)"
    and up: "UpdateSandbox (tx_now env) row (row\<lparr>sb_op_id := tx_uuid env, sb_op_owner := e_id e,
      sb_op_deadline := tx_now env + tm_op_deadline (e_t e) kind (sb_memory_mib row)\<rparr>) db = Inr (db', w)"
    (is "UpdateSandbox _ _ ?after _ = _")
    and h: "h = (newHandle e env w kind trigger (sb_op_target row) (tm_op_deadline (e_t e) kind (sb_memory_mib row)))
      \<lparr>h_takeover := True, h_from := sb_op_owner row, h_no_abandon := na,
       h_read := \<lparr>rd_state = sb_op_from_state row, rd_node = sb_node row,
         rd_lost_from = sb_lost_from row, rd_materialised = sb_materialised row\<rparr>\<rparr>"
    using takeover_steps [OF ok] .
  have "\<exists>g t. written_row (tx_now env) row ?after row = ?after\<lparr>sb_gen := g, sb_updated_at := t\<rparr>"
    by (rule exI [of _ "sb_gen (written_row (tx_now env) row ?after row)"],
        rule exI [of _ "sb_updated_at (written_row (tx_now env) row ?after row)"])
      (simp add: written_row_def Let_def write_columns_def pick_def)
  then have "\<exists>d g t. w = row\<lparr>sb_op_id := tx_uuid env, sb_op_owner := e_id e, sb_op_deadline := d, sb_gen := g, sb_updated_at := t\<rparr>"
    using UpdateSandbox_current(1) [OF up row] by blast
  moreover have "get_row (db_sandboxes db') (sb_id row) = Some w" "db_bookings db' = db_bookings db"
    using UpdateSandbox_current(4) [OF up row] by auto
  moreover have "h_takeover h \<and> Some (h_kind h) = sb_op row \<and> h_target h = sb_op_target row"
    using op h by (simp add: newHandle_def)
  ultimately show ?thesis using free by (intro exI [of _ w]) (simp split del: if_split)
qed

text \<open>C2: An op in flight is never begun beside another. Where a begin succeeds on a row with an op, it either took
  that op over (the same op towards the same target, and its owner is not live, or is this instance and runs it
  nowhere), with nothing of the row changed but the op's ownership and no booking touched; or it is the resume that
  was to take the place of exactly that op, a hibernate of a paused sandbox on its node.\<close>

theorem begin_exclusive:
  assumes ok: "beginOn e r env i it target db = Inr (db', h, evs)" and inv: "db_inv db"
    and row: "get_row (db_sandboxes db) i = Some row" "sb_op row = Some k"
  shows "(h_takeover h \<and> h_kind h = k \<and> h_target h = sb_op_target row
      \<and> \<not> (if sb_op_owner row \<noteq> e_id e then InstanceLive (tx_now env) (sb_op_owner row) db else runs r row)
      \<and> db_bookings db' = db_bookings db
      \<and> (\<exists>d g t. get_row (db_sandboxes db') i = Some (row\<lparr>sb_op_id := tx_uuid env, sb_op_owner := e_id e, sb_op_deadline := d,
            sb_gen := g, sb_updated_at := t\<rparr>)))
    \<or> (h_preempted h = sb_op_id row \<and> sb_op_id row = it_preempt it \<and> k = OpHibernate \<and> h_kind h = OpResume
      \<and> sb_op_from_state row = Some StatePaused \<and> sb_node row = target \<and> h_target h = target)"
  using ok
proof (cases rule: beginOn_cases)
  case (fresh row')
  then show ?thesis using row by simp
next
  case (takeover row')
  have i: "sb_id row = i" "row' = row" using inv_row(1) [OF inv row(1)] takeover(1) row by auto
  then have "get_row (db_sandboxes db) (sb_id row) = Some row" using row by simp
  then obtain w where "get_row (db_sandboxes db') i = Some w" "h_takeover h \<and> h_kind h = k \<and> h_target h = sb_op_target row"
    "db_bookings db' = db_bookings db"
    "\<not> (if sb_op_owner row \<noteq> e_id e then InstanceLive (tx_now env) (sb_op_owner row) db else runs r row)"
    "\<exists>d g t. w = row\<lparr>sb_op_id := tx_uuid env, sb_op_owner := e_id e, sb_op_deadline := d, sb_gen := g, sb_updated_at := t\<rparr>"
    using takeover_row [OF _ takeover(5) [unfolded i(2)]] i row(2) by auto
  then show ?thesis by (intro disjI1) (simp split del: if_split)
next
  case (preempt row')
  then have "preemptHibernate e env row it target db = Inr (db', h, evs)" using row by simp
  then show ?thesis by (elim preemptHibernate_steps) (use row in simp)
qed

theorem begin_exclusive_witness:
  "\<exists>db' h evs. beginOn sample_engine sample_runner sample_env sample_pod (sample_intent OpPause ''n1'') ''n1'' sample_pausing_db
      = Inr (db', h, evs) \<and> h_takeover h \<and> h_kind h = OpPause"
proof -
  have "case beginOn sample_engine sample_runner sample_env sample_pod (sample_intent OpPause ''n1'') ''n1'' sample_pausing_db of
      Inl _ \<Rightarrow> False | Inr (db', h, evs) \<Rightarrow> h_takeover h" by code_simp
  then obtain db' h evs where b: "beginOn sample_engine sample_runner sample_env sample_pod (sample_intent OpPause ''n1'') ''n1''
      sample_pausing_db = Inr (db', h, evs)" "h_takeover h"
    by (auto split: sum.splits prod.splits)
  moreover have "db_inv sample_pausing_db" by (rule inv_check_inv) code_simp
  moreover obtain row where "get_row (db_sandboxes sample_pausing_db) sample_pod = Some row" "sb_op row = Some OpPause"
    by (simp add: sample_pausing_db_def get_row_def)
  ultimately show ?thesis using begin_exclusive [of _ _ _ _ _ _ _ db' h evs row OpPause] by auto
qed

text \<open>C1: A begin keeps the registry's invariant (rows and bookings that agree, no node over its capacity), changes
  no other sandbox's row or booking, and hands out the handle of exactly the op it wrote: of this instance, with the
  fresh op ID, held in the state of its kind, on the node it names as its target.\<close>

theorem begin_keeps_registry:
  assumes inv: "db_inv db" and new: "tx_uuid env \<noteq> uuid_nil" and ok: "beginOn e r env i it target db = Inr (db', h, evs)"
  shows "db_inv db' \<and> only_row i db db' \<and> h_id h = i
    \<and> (\<exists>row'. get_row (db_sandboxes db') i = Some row' \<and> sb_op row' = Some (h_kind h) \<and> sb_op_id row' = h_op_id h
      \<and> h_op_id h = tx_uuid env \<and> sb_op_owner row' = e_id e \<and> sb_client_state row' = transitional (h_kind h)
      \<and> sb_node row' = h_target h \<and> sb_op_target row' = h_target h)"
proof -
  have b: "begun e env i db db' h" using beginOn_begun [OF inv new ok] .
  then obtain row' where row': "get_row (db_sandboxes db') i = Some row'" "op_of h row'" "sb_op_owner row' = e_id e"
    by (auto simp: begun_def)
  have "row_ok row'" using b row'(1) inv_row(2) by (auto simp: begun_def)
  then show ?thesis using b row' by (auto simp: begun_def op_of_def row_ok_def)
qed

theorem begin_keeps_registry_witness:
  "\<exists>db' h evs. beginOn sample_engine sample_runner sample_env sample_pod (sample_intent OpCreate ''n1'') ''n1'' sample_db
      = Inr (db', h, evs) \<and> db_inv db' \<and> h_id h = sample_pod"
proof -
  have "case beginOn sample_engine sample_runner sample_env sample_pod (sample_intent OpCreate ''n1'') ''n1'' sample_db of
      Inl _ \<Rightarrow> False | Inr _ \<Rightarrow> True" by code_simp
  then obtain db' h evs where b: "beginOn sample_engine sample_runner sample_env sample_pod (sample_intent OpCreate ''n1'') ''n1''
      sample_db = Inr (db', h, evs)"
    by (auto split: sum.splits)
  moreover have "tx_uuid sample_env \<noteq> uuid_nil" by (simp add: sample_env_def)
  ultimately show ?thesis using begin_keeps_registry [OF sample_inv(1)] by blast
qed

text \<open>The \<open>k\<close>th transaction refused its candidate for the reason \<open>t\<close>, and the end of a begin of which the
  candidates refused for the reasons \<open>ts\<close> are behind: no capacity once they are all, else the end of the next.\<close>

definition refused_at :: "engine \<Rightarrow> runner \<Rightarrow> podID \<Rightarrow> op_intent \<Rightarrow> tx_meets \<Rightarrow> string \<Rightarrow> string \<Rightarrow> bool" where
  "refused_at e r i it tx c t = (case tx of (env, db, gone) \<Rightarrow>
    \<not> gone \<and> (\<exists>vs n g. beginOn e r env i (it\<lparr>it_verdicts := vs\<rparr>) c db = Inl (Refusal n g t)))"

definition ended_at :: "engine \<Rightarrow> runner \<Rightarrow> podID \<Rightarrow> op_intent \<Rightarrow> tx_meets \<Rightarrow> string \<Rightarrow> err + registry \<times> op_handle \<times> event list \<Rightarrow> bool" where
  "ended_at e r i it tx c res = (case tx of (env, db, gone) \<Rightarrow>
    if gone then res = Inl ErrCanceled
    else (\<exists>vs. res = beginOn e r env i (it\<lparr>it_verdicts := vs\<rparr>) c db) \<and> (\<forall>n g t. res \<noteq> Inl (Refusal n g t)))"

lemma refused_at_verdicts [simp]: "refused_at e r i (it\<lparr>it_verdicts := vs\<rparr>) = refused_at e r i it"
  by (simp add: refused_at_def fun_eq_iff)

lemma ended_at_verdicts [simp]: "ended_at e r i (it\<lparr>it_verdicts := vs\<rparr>) = ended_at e r i it"
  by (simp add: ended_at_def fun_eq_iff)

lemma begin_candidates_tries:
  "\<exists>ts. length ts \<le> length cs \<and> (\<forall>j < length ts. refused_at e r i it (txs (k + j)) (cs ! j) (ts ! j))
    \<and> (if length ts = length cs
       then begin_candidates e r i it txs k cs refused = Inl (Kind ErrNoCapacity (''no capacity (retryable): no feasible node; ''
         @ join ''; '' (refused @ map2 (\<lambda>c t. c @ '': '' @ t) cs ts)))
       else ended_at e r i it (txs (k + length ts)) (cs ! length ts) (begin_candidates e r i it txs k cs refused))"
proof (induction cs arbitrary: it k refused)
  case Nil
  then show ?case by simp
next
  case (Cons c cs)
  obtain env db gone where tx: "txs k = (env, db, gone)" by (cases "txs k") auto
  consider (refused) n g t where "\<not> gone" "beginOn e r env i it c db = Inl (Refusal n g t)"
    | (over) "\<forall>n g t. gone \<or> beginOn e r env i it c db \<noteq> Inl (Refusal n g t)" by blast
  then show ?case
  proof cases
    case refused
    let ?it = "it\<lparr>it_verdicts := refuseVerdict (it_verdicts it) c t\<rparr>" and ?rf = "refused @ [c @ '': '' @ t]"
    have step: "begin_candidates e r i it txs k (c # cs) refused = begin_candidates e r i ?it txs (Suc k) cs ?rf"
      using refused tx by simp
    have "refused_at e r i it (txs k) c t" using refused unfolding refused_at_def tx case_prod_conv
      by (intro conjI exI [of _ "it_verdicts it"] exI [of _ n] exI [of _ g]) simp_all
    moreover obtain ts where ts: "length ts \<le> length cs" "\<forall>j < length ts. refused_at e r i it (txs (Suc k + j)) (cs ! j) (ts ! j)"
      and rest: "if length ts = length cs
       then begin_candidates e r i ?it txs (Suc k) cs ?rf = Inl (Kind ErrNoCapacity (''no capacity (retryable): no feasible node; ''
         @ join ''; '' (?rf @ map2 (\<lambda>c t. c @ '': '' @ t) cs ts)))
       else ended_at e r i it (txs (Suc k + length ts)) (cs ! length ts) (begin_candidates e r i ?it txs (Suc k) cs ?rf)"
      using Cons.IH [of ?it "Suc k" ?rf] unfolding refused_at_verdicts ended_at_verdicts by blast
    ultimately have "\<forall>j < length (t # ts). refused_at e r i it (txs (k + j)) ((c # cs) ! j) ((t # ts) ! j)"
      by (auto simp: nth_Cons split: nat.splits)
    then show ?thesis using ts(1) rest unfolding step by (intro exI [of _ "t # ts"]) (auto split: if_splits)
  next
    case over
    have "begin_candidates e r i it txs k (c # cs) refused = (if gone then Inl ErrCanceled else beginOn e r env i it c db)"
      using over tx by (auto split: sum.split err.split)
    then have "ended_at e r i it (txs k) c (begin_candidates e r i it txs k (c # cs) refused)"
      using over unfolding ended_at_def tx case_prod_conv by (auto intro: exI [of _ "it_verdicts it"])
    then show ?thesis by (intro exI [of _ "[]"]) simp
  qed
qed

text \<open>C7: A begin over candidates tries them in order, each in a transaction of its own: it goes on past exactly the
  candidates whose claim refused, ends with what the first other one gives (the begun op, or an error that is no
  refusal), gives up between two of them once its caller is gone, and when all have refused reports no capacity with
  the reason of every one. In particular an op without a target and without candidates is reported as no
  capacity.\<close>

theorem begin_tries_candidates:
  assumes "pinnedTarget it = []"
  shows "\<exists>ts. length ts \<le> length (it_candidates it)
    \<and> (\<forall>j < length ts. refused_at e r i it (txs j) (it_candidates it ! j) (ts ! j))
    \<and> (if length ts = length (it_candidates it)
       then begin_op e r i it txs = Inl (Kind ErrNoCapacity (''no capacity (retryable): no feasible node; ''
         @ join ''; '' (map2 (\<lambda>c t. c @ '': '' @ t) (it_candidates it) ts)))
       else ended_at e r i it (txs (length ts)) (it_candidates it ! length ts) (begin_op e r i it txs))"
proof -
  have "begin_op e r i it txs = begin_candidates e r i it txs 0 (it_candidates it) []" using assms by (simp add: begin_op_def)
  then show ?thesis
    using begin_candidates_tries [where cs = "it_candidates it" and it = it and k = 0 and refused = "[]"]
    unfolding add_0 append_Nil by metis
qed

definition sample_candidates :: op_intent where
  "sample_candidates = (sample_intent OpCreate [])\<lparr>it_candidates := [''n9'', ''n1'']\<rparr>"

theorem begin_tries_candidates_witness:
  "\<exists>ts. length ts \<le> 2
    \<and> (\<forall>j < length ts. refused_at sample_engine sample_runner sample_pod sample_candidates (sample_env, sample_db, False)
        ([''n9'', ''n1''] ! j) (ts ! j))
    \<and> (length ts \<noteq> 2 \<longrightarrow> ended_at sample_engine sample_runner sample_pod sample_candidates (sample_env, sample_db, False)
        ([''n9'', ''n1''] ! length ts)
        (begin_op sample_engine sample_runner sample_pod sample_candidates (\<lambda>_. (sample_env, sample_db, False))))"
proof -
  have c: "length (it_candidates sample_candidates) = 2" "it_candidates sample_candidates = [''n9'', ''n1'']"
    and "pinnedTarget sample_candidates = []"
    by (simp_all add: sample_candidates_def pinnedTarget_def sample_intent_def)
  from begin_tries_candidates [OF this(3), of sample_engine sample_runner sample_pod "\<lambda>_. (sample_env, sample_db, False)"]
  obtain ts where "length ts \<le> 2"
    "\<forall>j < length ts. refused_at sample_engine sample_runner sample_pod sample_candidates (sample_env, sample_db, False)
        ([''n9'', ''n1''] ! j) (ts ! j)"
    "length ts \<noteq> 2 \<longrightarrow> ended_at sample_engine sample_runner sample_pod sample_candidates (sample_env, sample_db, False)
        ([''n9'', ''n1''] ! length ts)
        (begin_op sample_engine sample_runner sample_pod sample_candidates (\<lambda>_. (sample_env, sample_db, False)))"
    unfolding c(1) unfolding c(2) if_bool_eq_conj by blast
  then show ?thesis by blast
qed

text \<open>An op of which the caller gives no node at all: \<open>errNoTarget\<close>, which names that mistake, is never what it gets.\<close>

lemma begin_without_target:
  "it_target it = [] \<Longrightarrow> it_candidates it = [] \<Longrightarrow>
    begin_op e r i it txs = Inl (Kind ErrNoCapacity ''no capacity (retryable): no feasible node; '')"
  by (simp add: begin_op_def pinnedTarget_def)

end
