(* ===== verification/Holds.thy ===== *)
theory Holds
  imports Begin
begin

text \<open>
  Holds (\<open>sandbox/holds.go\<close>): the holders an instance counts per sandbox and kind, the transaction that admits the
  first one, the renewal and the release, and \<open>Acquire\<close>, which ensures the sandbox until a hold is admitted. The step
  relation \<open>hstep\<close> interleaves these with the leader's expiry, a delete of the sandbox and the work of others; in
  every state it reaches, a hold renewed within its lease is live, and no idle pause begins.
\<close>

type_synonym hold_key = "podID \<times> hold_kind"

record hold_state =
  hs_count :: int
  hs_refs :: int

type_synonym hold_table = "(hold_key, hold_state) tbl"

record lease =
  le_sandbox :: podID
  le_incarnation :: uuid
  le_node :: string

definition holdRef :: "hold_key \<Rightarrow> hold_table \<Rightarrow> hold_table" where
  "holdRef k hs = (case get_row hs k of
      None \<Rightarrow> put_row k \<lparr>hs_count = 0, hs_refs = 1\<rparr> hs
    | Some s \<Rightarrow> put_row k (s\<lparr>hs_refs := hs_refs s + 1\<rparr>) hs)"

definition holdUnref :: "hold_key \<Rightarrow> hold_table \<Rightarrow> hold_table" where
  "holdUnref k hs = (case get_row hs k of
      None \<Rightarrow> hs
    | Some s \<Rightarrow> if hs_refs s - 1 = 0 then del_row k hs else put_row k (s\<lparr>hs_refs := hs_refs s - 1\<rparr>) hs)"

text \<open>\<open>admitHold\<close>: no lease when the sandbox does not run without an op.\<close>

definition admitHold :: "engine \<Rightarrow> gotime \<Rightarrow> hold_key \<Rightarrow> hold_table \<Rightarrow> registry \<Rightarrow> err + hold_table \<times> registry \<times> lease option" where
  "admitHold e now k hs db =
    (case get_row hs k of
       None \<Rightarrow> Inr (hs, db, None)
     | Some s \<Rightarrow>
         bindE (LockSandbox (fst k) db) (\<lambda>row.
           if sb_client_state row \<noteq> StateRunning \<or> sb_op row \<noteq> None then Inr (hs, db, None)
           else bindE (if hs_count s = 0 then AdmitHold now (fst k) (snd k) (e_id e) (tm_hold_lease (e_t e)) db else Inr db) (\<lambda>db'.
             Inr (put_row k (s\<lparr>hs_count := hs_count s + 1\<rparr>) hs, db',
               Some \<lparr>le_sandbox = sb_id row, le_incarnation = sb_incarnation row, le_node = sb_node row\<rparr>))))"

text \<open>One round of \<open>Acquire\<close> after its \<open>Ensure\<close>.\<close>

definition acquire_round :: "engine \<Rightarrow> gotime \<Rightarrow> hold_key \<Rightarrow> hold_table \<Rightarrow> registry \<Rightarrow> (err + lease option) \<times> hold_table \<times> registry" where
  "acquire_round e now k hs db =
    (case admitHold e now k (holdRef k hs) db of
       Inl er \<Rightarrow> (Inl er, holdUnref k (holdRef k hs), db)
     | Inr (hs', db', None) \<Rightarrow> (Inr None, holdUnref k hs', db')
     | Inr (hs', db', Some l) \<Rightarrow> (Inr (Some l), hs', db'))"

text \<open>What the rounds of \<open>Acquire\<close> meet: the end of \<open>Ensure\<close> with what changed during it, the time, and the caller's
  context after a round without a hold.\<close>

record acquire_meets =
  aq_ensure :: "err option"
  aq_world :: "hold_table \<times> registry \<Rightarrow> hold_table \<times> registry"
  aq_now :: gotime
  aq_ended :: "err option"

partial_function (option) Acquire :: "engine \<Rightarrow> (nat \<Rightarrow> acquire_meets) \<Rightarrow> hold_key \<Rightarrow> nat \<Rightarrow> hold_table \<times> registry
    \<Rightarrow> ((err + lease) \<times> hold_table \<times> registry) option" where
  "Acquire e meets k j w =
    (case aq_ensure (meets j) of
       Some er \<Rightarrow> Some (Inl er, aq_world (meets j) w)
     | None \<Rightarrow>
         (case acquire_round e (aq_now (meets j)) k (fst (aq_world (meets j) w)) (snd (aq_world (meets j) w)) of
            (Inl er, w') \<Rightarrow> Some (Inl er, w')
          | (Inr (Some l), w') \<Rightarrow> Some (Inr l, w')
          | (Inr None, w') \<Rightarrow>
              (case aq_ended (meets j) of
                 Some er \<Rightarrow> Some (Inl er, w')
               | None \<Rightarrow> Acquire e meets k (Suc j) w')))"

text \<open>\<open>releaseHold\<close>; \<open>written\<close> is whether its transaction committed.\<close>

definition release_count :: "hold_key \<Rightarrow> hold_table \<Rightarrow> hold_table" where
  "release_count k hs = (case get_row hs k of None \<Rightarrow> hs | Some s \<Rightarrow> put_row k (s\<lparr>hs_count := hs_count s - 1\<rparr>) hs)"

definition held_count :: "hold_key \<Rightarrow> hold_table \<Rightarrow> int" where
  "held_count k hs = (case get_row hs k of None \<Rightarrow> 0 | Some s \<Rightarrow> hs_count s)"

definition releaseHold :: "engine \<Rightarrow> gotime \<Rightarrow> bool \<Rightarrow> hold_key \<Rightarrow> hold_table \<Rightarrow> registry \<Rightarrow> hold_table \<times> registry" where
  "releaseHold e now written k hs db =
    (let hs' = release_count k hs in
     (holdUnref k hs',
      if held_count k hs' > 0 \<or> \<not> written then db else ReleaseHold now (fst k) (snd k) (e_id e) db))"

text \<open>\<open>renewHoldsOnce\<close>: a key's renewal, and the pass over the keys, each at its own time.\<close>

definition renew_hold :: "engine \<Rightarrow> gotime \<Rightarrow> hold_key \<Rightarrow> hold_table \<Rightarrow> registry \<Rightarrow> registry" where
  "renew_hold e now k hs db =
    (if held_count k hs > 0
     then (case RenewHold now (fst k) (snd k) (e_id e) (tm_hold_lease (e_t e)) db of Inl _ \<Rightarrow> db | Inr db' \<Rightarrow> db')
     else db)"

definition renewHoldsOnce :: "engine \<Rightarrow> (nat \<Rightarrow> gotime) \<Rightarrow> hold_table \<Rightarrow> registry \<Rightarrow> registry" where
  "renewHoldsOnce e nows hs db =
    fold (\<lambda>(j, k). renew_hold e (nows j) k (holdRef k hs)) (enumerate 0 (map fst (all_rows hs))) db"

definition EngineHoldProcess :: "engine \<Rightarrow> gotime \<Rightarrow> podID \<Rightarrow> string \<Rightarrow> duration \<Rightarrow> registry \<Rightarrow> err + registry" where
  "EngineHoldProcess e now i pid timeout db =
    StoreHoldProcess now i pid (if timeout > 0 then timeout + tm_process_slack (e_t e) else 0) db"

definition ReleaseProcess :: "podID \<Rightarrow> string \<Rightarrow> registry \<Rightarrow> registry" where
  "ReleaseProcess i pid db = fst (ReleaseProcessHold i pid db)"

section \<open>The holders of an instance among others\<close>

text \<open>The registry, the instance's table and the database's clock; \<open>hw_last\<close> is when a hold with holders was last
  written. A sandbox's delete forgets it.\<close>

record hold_world =
  hw_db :: registry
  hw_holds :: hold_table
  hw_now :: gotime
  hw_last :: "hold_key \<Rightarrow> gotime option"

abbreviation hold_at :: "engine \<Rightarrow> hold_key \<Rightarrow> registry \<Rightarrow> hold option" where
  "hold_at e k db \<equiv> get_row (db_holds db) (fst k, InstanceHolder (e_id e) (snd k))"

inductive hstep :: "engine \<Rightarrow> hold_world \<Rightarrow> hold_world \<Rightarrow> bool" for e where
  tick: "hw_now w \<le> t \<Longrightarrow> hstep e w (w\<lparr>hw_now := t\<rparr>)"
| ref: "hstep e w (w\<lparr>hw_holds := holdRef k (hw_holds w)\<rparr>)"
| unref: "get_row (hw_holds w) k = Some s \<Longrightarrow> hs_count s < hs_refs s \<Longrightarrow>
    hstep e w (w\<lparr>hw_holds := holdUnref k (hw_holds w)\<rparr>)"
| admit: "get_row (hw_holds w) k = Some s \<Longrightarrow> hs_count s < hs_refs s \<Longrightarrow>
    admitHold e (hw_now w) k (hw_holds w) (hw_db w) = Inr (hs, db, r) \<Longrightarrow>
    hstep e w (w\<lparr>hw_holds := hs, hw_db := db,
      hw_last := (if r \<noteq> None \<and> hs_count s = 0 then (hw_last w)(k \<mapsto> hw_now w) else hw_last w)\<rparr>)"
| admit_lost: "admitHold e (hw_now w) k (hw_holds w) (hw_db w) = Inr (hs, db, r) \<Longrightarrow> held_count k (hw_holds w) = 0 \<Longrightarrow>
    hstep e w (w\<lparr>hw_db := db\<rparr>)"
| release: "held_count k (hw_holds w) > 0 \<Longrightarrow> releaseHold e (hw_now w) written k (hw_holds w) (hw_db w) = (hs, db) \<Longrightarrow>
    hstep e w (w\<lparr>hw_holds := hs, hw_db := db,
      hw_last := (if held_count k (hw_holds w) = 1 then (hw_last w)(k := None) else hw_last w)\<rparr>)"
| renew: "held_count k (hw_holds w) > 0 \<Longrightarrow>
    RenewHold (hw_now w) (fst k) (snd k) (e_id e) (tm_hold_lease (e_t e)) (hw_db w) = Inr db \<Longrightarrow>
    hstep e w (w\<lparr>hw_db := db, hw_last := (hw_last w)(k \<mapsto> hw_now w)\<rparr>)"
| expire: "hstep e w (w\<lparr>hw_db := DeleteExpiredHolds (hw_now w) (hw_db w)\<rparr>)"
| del: "hstep e w (w\<lparr>hw_db := fst (DeleteSandbox i (hw_db w)), hw_last := (\<lambda>k. if fst k = i then None else hw_last w k)\<rparr>)"
| other: "(\<And>k. hold_at e k db = hold_at e k (hw_db w)) \<Longrightarrow> hstep e w (w\<lparr>hw_db := db\<rparr>)"

text \<open>The lease of a hold is not over: \<open>expire\<close> leaves it.\<close>

definition hold_live_to :: "gotime \<Rightarrow> hold \<Rightarrow> bool" where
  "hold_live_to now h = (case ho_lease_until h of None \<Rightarrow> True | Some u \<Rightarrow> now \<le> u)"

text \<open>A hold that was written is there until its lease has passed, and has holders.\<close>

definition hold_inv :: "engine \<Rightarrow> hold_world \<Rightarrow> bool" where
  "hold_inv e w = (0 < tm_hold_lease (e_t e) \<and> (\<forall>k s. get_row (hw_holds w) k = Some s \<longrightarrow> 0 \<le> hs_count s \<and> hs_count s \<le> hs_refs s)
    \<and> (\<forall>k t. hw_last w k = Some t \<longrightarrow> t \<le> hw_now w \<and> 0 < held_count k (hw_holds w)
      \<and> (hw_now w \<le> t + interval (tm_hold_lease (e_t e)) \<longrightarrow>
          (\<exists>h. hold_at e k (hw_db w) = Some h \<and> ho_kind h = snd k
            \<and> ho_lease_until h = Some (t + interval (tm_hold_lease (e_t e)))))))"

section \<open>Lemmas\<close>

lemma InstanceHolder_inj [simp]: "InstanceHolder inst a = InstanceHolder inst b \<longleftrightarrow> a = b"
  by (cases a; cases b; simp add: InstanceHolder_def)

lemma get_del_rows_kept: "get_row t k = Some v \<Longrightarrow> \<not> P k v \<Longrightarrow> get_row (del_rows P t) k = Some v"
  by (induction t) (auto simp: get_row_def del_rows_def split: if_splits)

lemma TouchSandbox_holds [simp]: "db_holds (TouchSandbox now i db) = db_holds db"
  by (simp add: TouchSandbox_def update_one_def Let_def split: option.splits)

lemma RenewHold_at:
  assumes "RenewHold now (fst k) (snd k) (e_id e) d db = Inr db'" "0 < d"
  shows "hold_at e k' db' = (if k' = k then Some \<lparr>ho_kind = snd k, ho_instance_id = e_id e, ho_lease_until = Some (now + interval d)\<rparr>
    else hold_at e k' db)"
  using assms by (auto simp: RenewHold_def upsertHold_def prod_eq_iff split: if_splits)

lemma AdmitHold_at:
  assumes "AdmitHold now (fst k) (snd k) (e_id e) d db = Inr db'" "0 < d"
  shows "hold_at e k' db' = (if k' = k then Some \<lparr>ho_kind = snd k, ho_instance_id = e_id e, ho_lease_until = Some (now + interval d)\<rparr>
    else hold_at e k' db)"
proof -
  obtain db1 where r: "RenewHold now (fst k) (snd k) (e_id e) d db = Inr db1" and "db' = TouchSandbox now (fst k) db1"
    using assms(1) by (auto simp: AdmitHold_def bindE_Inr_iff)
  then show ?thesis using RenewHold_at [OF r assms(2)] by simp
qed

lemma ReleaseHold_at: "hold_at e k' (ReleaseHold now (fst k) (snd k) (e_id e) db) = (if k' = k then None else hold_at e k' db)"
  by (auto simp: ReleaseHold_def prod_eq_iff)

lemma admitHold_Inr:
  assumes "admitHold e now k hs db = Inr (hs', db', r)" "get_row hs k = Some s"
  obtains (none) "r = None" "hs' = hs" "db' = db"
  | (first) "r \<noteq> None" "hs_count s = 0" "hs' = put_row k (s\<lparr>hs_count := 1\<rparr>) hs"
      "AdmitHold now (fst k) (snd k) (e_id e) (tm_hold_lease (e_t e)) db = Inr db'"
  | (more) "r \<noteq> None" "hs_count s \<noteq> 0" "hs' = put_row k (s\<lparr>hs_count := hs_count s + 1\<rparr>) hs" "db' = db"
  using assms by (auto simp: admitHold_def bindE_Inr_iff split: if_splits)

lemma held_count_simps [simp]:
  "held_count k (put_row k' s hs) = (if k = k' then hs_count s else held_count k hs)"
  "held_count k (del_row k' hs) = (if k = k' then 0 else held_count k hs)"
  "held_count k (holdRef k' hs) = held_count k hs"
  by (auto simp: held_count_def holdRef_def split: option.splits)

lemma held_count_Unref:
  assumes "\<forall>k s. get_row hs k = Some s \<longrightarrow> 0 \<le> hs_count s \<and> hs_count s \<le> hs_refs s" "get_row hs k' = Some s" "hs_count s < hs_refs s"
  shows "held_count k (holdUnref k' hs) = held_count k hs"
    "\<forall>k s. get_row (holdUnref k' hs) k = Some s \<longrightarrow> 0 \<le> hs_count s \<and> hs_count s \<le> hs_refs s"
proof -
  have "0 \<le> hs_count s" using assms(1,2) by blast
  then show "held_count k (holdUnref k' hs) = held_count k hs"
    using assms(2,3) by (auto simp: held_count_def holdUnref_def)
  show "\<forall>k s. get_row (holdUnref k' hs) k = Some s \<longrightarrow> 0 \<le> hs_count s \<and> hs_count s \<le> hs_refs s"
    using assms by (auto simp: holdUnref_def split: if_splits)
qed

lemma held_count_released:
  assumes ok: "\<forall>k s. get_row hs k = Some s \<longrightarrow> 0 \<le> hs_count s \<and> hs_count s \<le> hs_refs s" and held: "0 < held_count k' hs"
  shows "held_count k (holdUnref k' (release_count k' hs)) = (if k = k' then held_count k hs - 1 else held_count k hs)"
    "\<forall>k s. get_row (holdUnref k' (release_count k' hs)) k = Some s \<longrightarrow> 0 \<le> hs_count s \<and> hs_count s \<le> hs_refs s"
proof -
  obtain s where s: "get_row hs k' = Some s" "0 < hs_count s" using held by (auto simp: held_count_def split: option.splits)
  have c: "hs_count s \<le> hs_refs s" using ok s(1) by blast
  then show "held_count k (holdUnref k' (release_count k' hs)) = (if k = k' then held_count k hs - 1 else held_count k hs)"
    using s by (auto simp: held_count_def holdUnref_def release_count_def)
  have "0 \<le> hs_count x \<and> hs_count x \<le> hs_refs x" if "get_row (holdUnref k' (release_count k' hs)) j = Some x" for j x
  proof (cases "j = k'")
    case True
    then show ?thesis using that s c by (auto simp: holdUnref_def release_count_def split: if_splits)
  next
    case False
    then have "get_row hs j = Some x" using that s by (auto simp: holdUnref_def release_count_def split: if_splits)
    then show ?thesis using ok by blast
  qed
  then show "\<forall>k s. get_row (holdUnref k' (release_count k' hs)) k = Some s \<longrightarrow> 0 \<le> hs_count s \<and> hs_count s \<le> hs_refs s" by blast
qed

text \<open>What a step does to a hold with holders: it stays, or is written anew.\<close>

lemma hold_invI:
  assumes "0 < tm_hold_lease (e_t e)" "\<And>k s. get_row (hw_holds w) k = Some s \<Longrightarrow> 0 \<le> hs_count s \<and> hs_count s \<le> hs_refs s"
    "\<And>k t. hw_last w k = Some t \<Longrightarrow> t \<le> hw_now w \<and> 0 < held_count k (hw_holds w)"
    "\<And>k t. hw_last w k = Some t \<Longrightarrow> hw_now w \<le> t + interval (tm_hold_lease (e_t e)) \<Longrightarrow>
      \<exists>h. hold_at e k (hw_db w) = Some h \<and> ho_kind h = snd k \<and> ho_lease_until h = Some (t + interval (tm_hold_lease (e_t e)))"
  shows "hold_inv e w"
  using assms unfolding hold_inv_def by blast

lemma hold_invD:
  assumes "hold_inv e w"
  shows "0 < tm_hold_lease (e_t e)" "\<forall>k s. get_row (hw_holds w) k = Some s \<longrightarrow> 0 \<le> hs_count s \<and> hs_count s \<le> hs_refs s"
    "\<And>k t. hw_last w k = Some t \<Longrightarrow> t \<le> hw_now w \<and> 0 < held_count k (hw_holds w)"
    "\<And>k t. hw_last w k = Some t \<Longrightarrow> hw_now w \<le> t + interval (tm_hold_lease (e_t e)) \<Longrightarrow>
      \<exists>h. hold_at e k (hw_db w) = Some h \<and> ho_kind h = snd k \<and> ho_lease_until h = Some (t + interval (tm_hold_lease (e_t e)))"
  using assms unfolding hold_inv_def by blast+

lemma hold_inv_admit:
  assumes inv: "hold_inv e w" and s: "get_row (hw_holds w) k = Some s" "hs_count s < hs_refs s"
    and ad: "admitHold e (hw_now w) k (hw_holds w) (hw_db w) = Inr (hs, db, r)"
  shows "hold_inv e (w\<lparr>hw_holds := hs, hw_db := db,
      hw_last := (if r \<noteq> None \<and> hs_count s = 0 then (hw_last w)(k \<mapsto> hw_now w) else hw_last w)\<rparr>)"
  using ad s(1)
proof (cases rule: admitHold_Inr)
  case none
  then show ?thesis using inv by simp
next
  case first
  note i = hold_invD [OF inv] and at = AdmitHold_at [OF first(4) i(1)]
  show ?thesis using first s i at by (intro hold_invI) (auto simp: at split: if_splits)
next
  case more
  have "0 \<le> hs_count s" using hold_invD(2) [OF inv] s(1) by blast
  then have "0 < hs_count s" using more(2) by simp
  then show ?thesis using more s hold_invD [OF inv] by (intro hold_invI) (auto split: if_splits)
qed

lemma hold_inv_release:
  assumes inv: "hold_inv e w" and held: "0 < held_count k (hw_holds w)"
    and rel: "releaseHold e (hw_now w) written k (hw_holds w) (hw_db w) = (hs, db)"
  shows "hold_inv e (w\<lparr>hw_holds := hs, hw_db := db,
      hw_last := (if held_count k (hw_holds w) = 1 then (hw_last w)(k := None) else hw_last w)\<rparr>)" (is "hold_inv e ?w")
proof -
  note i = hold_invD [OF inv] and c = held_count_released [OF hold_invD(2) [OF inv] held]
  have hs: "hs = holdUnref k (release_count k (hw_holds w))" using rel by (simp add: releaseHold_def Let_def)
  have rc: "held_count k (release_count k (hw_holds w)) = held_count k (hw_holds w) - 1"
    using held by (auto simp: held_count_def release_count_def split: option.splits)
  have at: "hold_at e j db = hold_at e j (hw_db w)" if "j \<noteq> k \<or> held_count k (hw_holds w) \<noteq> 1" for j
    using rel that held rc by (auto simp: releaseHold_def Let_def ReleaseHold_at split: if_splits)
  show ?thesis
  proof (rule hold_invI)
    fix j t
    assume l: "hw_last ?w j = Some t"
    then have last: "hw_last w j = Some t" and j: "j \<noteq> k \<or> held_count k (hw_holds w) \<noteq> 1" by (auto split: if_splits)
    then show "t \<le> hw_now ?w
      \<and> 0 < held_count j (hw_holds ?w)"
      using i(3) [OF last] c(1) [of j] held unfolding hs by auto
  next
    fix j t
    assume "hw_last ?w j = Some t"
      and n: "hw_now ?w \<le> t + interval (tm_hold_lease (e_t e))"
    then have last: "hw_last w j = Some t" and j: "j \<noteq> k \<or> held_count k (hw_holds w) \<noteq> 1" by (auto split: if_splits)
    then show "\<exists>h. hold_at e j (hw_db ?w) = Some h
        \<and> ho_kind h = snd j \<and> ho_lease_until h = Some (t + interval (tm_hold_lease (e_t e)))"
      using i(4) [OF last] n at [OF j] by simp
  qed (simp_all add: i(1) hs, use c(2) in blast)
qed

text \<open>The steps that touch the registry alone.\<close>

lemma hold_inv_db:
  assumes inv: "hold_inv e w" and last: "\<And>k t. lst k = Some t \<Longrightarrow> hw_last w k = Some t"
    and keep: "\<And>k h. lst k \<noteq> None \<Longrightarrow> hold_at e k (hw_db w) = Some h \<Longrightarrow> hold_live_to (hw_now w) h \<Longrightarrow> hold_at e k db = Some h"
  shows "hold_inv e (w\<lparr>hw_db := db, hw_last := lst\<rparr>)"
proof (rule hold_invI)
  fix k t
  assume l: "hw_last (w\<lparr>hw_db := db, hw_last := lst\<rparr>) k = Some t"
    and n: "hw_now (w\<lparr>hw_db := db, hw_last := lst\<rparr>) \<le> t + interval (tm_hold_lease (e_t e))"
  obtain h where h: "hold_at e k (hw_db w) = Some h" "ho_kind h = snd k" "ho_lease_until h = Some (t + interval (tm_hold_lease (e_t e)))"
    using hold_invD(4) [OF inv] last l n by fastforce
  then show "\<exists>h. hold_at e k (hw_db (w\<lparr>hw_db := db, hw_last := lst\<rparr>)) = Some h \<and> ho_kind h = snd k
      \<and> ho_lease_until h = Some (t + interval (tm_hold_lease (e_t e)))"
    using keep [OF _ h(1)] l n by (simp add: hold_live_to_def)
next
  fix k t
  assume "hw_last (w\<lparr>hw_db := db, hw_last := lst\<rparr>) k = Some t"
  then have "hw_last w k = Some t" using last by simp
  then show "t \<le> hw_now (w\<lparr>hw_db := db, hw_last := lst\<rparr>) \<and> 0 < held_count k (hw_holds (w\<lparr>hw_db := db, hw_last := lst\<rparr>))"
    using hold_invD(3) [OF inv] by simp
qed (simp_all add: hold_invD(1) [OF inv], use hold_invD(2) [OF inv] in blast)

lemma hold_inv_lost:
  assumes inv: "hold_inv e w" and ad: "admitHold e (hw_now w) k (hw_holds w) (hw_db w) = Inr (hs, db, r)"
    and free: "held_count k (hw_holds w) = 0"
  shows "hold_inv e (w\<lparr>hw_db := db\<rparr>)"
proof -
  have "hold_at e j db = hold_at e j (hw_db w)" if "hw_last w j \<noteq> None" for j
  proof (cases "get_row (hw_holds w) k")
    case None
    then show ?thesis using ad by (simp add: admitHold_def)
  next
    case (Some s)
    have "j \<noteq> k" using that hold_invD(3) [OF inv, of j] free by auto
    from ad Some show ?thesis
      by (cases rule: admitHold_Inr) (simp_all add: AdmitHold_at [OF _ hold_invD(1) [OF inv]] \<open>j \<noteq> k\<close>)
  qed
  then have "hold_inv e (w\<lparr>hw_db := db, hw_last := hw_last w\<rparr>)" by (intro hold_inv_db [OF inv]) auto
  then show ?thesis by simp
qed

lemma hold_inv_holds:
  assumes inv: "hold_inv e w" and c: "\<And>k. held_count k hs = held_count k (hw_holds w)"
    and ok: "\<forall>k s. get_row hs k = Some s \<longrightarrow> 0 \<le> hs_count s \<and> hs_count s \<le> hs_refs s"
  shows "hold_inv e (w\<lparr>hw_holds := hs\<rparr>)"
  using inv ok unfolding hold_inv_def by (simp add: c)

lemma holdRef_ok:
  assumes "\<forall>k s. get_row hs k = Some s \<longrightarrow> 0 \<le> hs_count s \<and> hs_count s \<le> hs_refs s"
  shows "\<forall>k s. get_row (holdRef k' hs) k = Some s \<longrightarrow> 0 \<le> hs_count s \<and> hs_count s \<le> hs_refs s"
proof (cases "get_row hs k'")
  case (Some s)
  then have "hs_count s \<le> hs_refs s" using assms by blast
  then have "hs_count s \<le> hs_refs s + 1" by simp
  then show ?thesis using assms Some by (auto simp: holdRef_def)
qed (use assms in \<open>auto simp: holdRef_def\<close>)

lemma hstep_inv:
  assumes inv: "hold_inv e w" and st: "hstep e w w'"
  shows "hold_inv e w'"
  using st
proof cases
  case (tick t)
  then show ?thesis using hold_invD [OF inv] by (intro hold_invI) fastforce+
next
  case (ref k)
  show ?thesis unfolding ref by (rule hold_inv_holds [OF inv _ holdRef_ok [OF hold_invD(2) [OF inv]]]) simp
next
  case (unref k s)
  note c = held_count_Unref [OF hold_invD(2) [OF inv] unref(2,3)]
  show ?thesis unfolding unref(1) by (rule hold_inv_holds [OF inv c])
next
  case (admit k s hs db r)
  then show ?thesis using hold_inv_admit [OF inv] by blast
next
  case (admit_lost k hs db r)
  then show ?thesis using hold_inv_lost [OF inv] by blast
next
  case (release k written hs db)
  then show ?thesis using hold_inv_release [OF inv] by blast
next
  case (renew k db)
  note at = RenewHold_at [OF renew(3) hold_invD(1) [OF inv]]
  show ?thesis unfolding renew(1) using hold_invD [OF inv] renew(2) by (intro hold_invI) (auto simp: at split: if_splits)
next
  case expire
  have "hold_inv e (w\<lparr>hw_db := DeleteExpiredHolds (hw_now w) (hw_db w), hw_last := hw_last w\<rparr>)"
    by (rule hold_inv_db [OF inv]) (auto simp: DeleteExpiredHolds_def hold_live_to_def get_del_rows_kept split: option.splits)
  then show ?thesis unfolding expire by simp
next
  case (del i)
  show ?thesis unfolding del
    by (rule hold_inv_db [OF inv]) (auto simp: DeleteSandbox_def Notify_def get_del_rows_kept split: option.splits if_splits)
next
  case (other db)
  then have "hold_inv e (w\<lparr>hw_db := db, hw_last := hw_last w\<rparr>)" by (intro hold_inv_db [OF inv]) auto
  then show ?thesis unfolding other by simp
qed

interpretation holding: invariant_system "hstep e" "hold_inv e" for e
  by unfold_locales (rule hstep_inv)

lemma live_hold:
  assumes "hold_at e k db = Some h" "ho_kind h = snd k" "hold_live now h"
  shows "HasLiveHold now (fst k) [] db" "HasLiveHold now (fst k) [snd k] db"
proof -
  have "((fst k, InstanceHolder (e_id e) (snd k)), h) \<in> set (db_holds db)" using assms(1) by (simp add: get_row_def map_of_SomeD)
  then show "HasLiveHold now (fst k) [] db" "HasLiveHold now (fst k) [snd k] db"
    using assms(2,3) by (auto simp: HasLiveHold_def list_ex_iff all_rows_def)
qed

lemma admitHold_lease:
  assumes "admitHold e now k hs db = Inr (hs', db', Some l)"
  shows "\<exists>row. get_row (db_sandboxes db') (fst k) = Some row \<and> sb_client_state row = StateRunning \<and> sb_op row = None
    \<and> l = \<lparr>le_sandbox = sb_id row, le_incarnation = sb_incarnation row, le_node = sb_node row\<rparr>"
  using assms by (auto simp: admitHold_def bindE_Inr_iff AdmitHold_def RenewHold_def upsertHold_def TouchSandbox_def update_one_def Let_def
    split: option.splits if_splits)

definition running_lease :: "hold_key \<Rightarrow> lease \<Rightarrow> registry \<Rightarrow> bool" where
  "running_lease k l db = (\<exists>row. get_row (db_sandboxes db) (fst k) = Some row \<and> sb_client_state row = StateRunning \<and> sb_op row = None
    \<and> l = \<lparr>le_sandbox = sb_id row, le_incarnation = sb_incarnation row, le_node = sb_node row\<rparr>)"

lemma acquire_round_lease:
  "acquire_round e now k hs db = (Inr (Some l), hs', db') \<Longrightarrow> running_lease k l db'"
  by (auto simp: acquire_round_def running_lease_def split: sum.splits option.splits dest: admitHold_lease)

lemma Acquire_lease:
  assumes "Acquire e meets k j w = Some y"
  shows "\<forall>l hs' db'. y = (Inr l, hs', db') \<longrightarrow> running_lease k l db'"
proof (rule Acquire.raw_induct [where P = "\<lambda>e meets k j w y. \<forall>l hs' db'. y = (Inr l, hs', db') \<longrightarrow> running_lease k l db'", OF _ assms])
  fix A :: "engine \<Rightarrow> (nat \<Rightarrow> acquire_meets) \<Rightarrow> hold_key \<Rightarrow> nat \<Rightarrow> hold_table \<times> registry \<Rightarrow> ((err + lease) \<times> hold_table \<times> registry) option"
    and e :: engine and meets k j w y
  assume ih: "\<And>e meets k j w y. A e meets k j w = Some y \<Longrightarrow> \<forall>l hs' db'. y = (Inr l, hs', db') \<longrightarrow> running_lease k l db'"
    and A: "(case aq_ensure (meets j) of
       Some er \<Rightarrow> Some (Inl er, aq_world (meets j) w)
     | None \<Rightarrow>
         (case acquire_round e (aq_now (meets j)) k (fst (aq_world (meets j) w)) (snd (aq_world (meets j) w)) of
            (Inl er, w') \<Rightarrow> Some (Inl er, w')
          | (Inr (Some l), w') \<Rightarrow> Some (Inr l, w')
          | (Inr None, w') \<Rightarrow>
              (case aq_ended (meets j) of
                 Some er \<Rightarrow> Some (Inl er, w')
               | None \<Rightarrow> A e meets k (Suc j) w'))) = Some y"
  show "\<forall>l hs' db'. y = (Inr l, hs', db') \<longrightarrow> running_lease k l db'"
    using A ih by (auto split: option.splits sum.splits prod.splits dest: acquire_round_lease)
qed

section \<open>Properties\<close>

text \<open>An instance that has just started, at whatever registry.\<close>

definition fresh_holds :: "engine \<Rightarrow> hold_world \<Rightarrow> bool" where
  "fresh_holds e w = (0 < tm_hold_lease (e_t e) \<and> hw_holds w = [] \<and> hw_last w = (\<lambda>_. None))"

text \<open>C12: While an instance holds a sandbox without an op and wrote the hold within its lease, every begin of an idle pause of
  the sandbox is refused, on whichever instance, and so is that of a drain's or \<open>Ensure\<close>'s pause when the hold is an exec's.
  This holds in every state that admissions, renewals, releases (also those whose transaction's answer was lost), the
  leader's expiry, a delete and the transactions of others lead to.\<close>

theorem held_stays_awake:
  assumes reach: "(hstep e)\<^sup>*\<^sup>* w0 w" and start: "fresh_holds e w0"
    and held: "hw_last w k = Some t" "hw_now w < t + interval (tm_hold_lease (e_t e))"
    and inv: "db_inv (hw_db w)" and row: "get_row (db_sandboxes (hw_db w)) (fst k) = Some row" "sb_op row = None"
    and pause: "it_kind it = OpPause" "it_trigger it = TriggerIdle \<or> (snd k = HoldExec \<and> it_trigger it \<in> {TriggerDrain, TriggerEnsure})"
    and now: "tx_now env = hw_now w"
  shows "\<exists>er. beginOn e' r env (fst k) it target (hw_db w) = Inl er"
proof (rule ccontr)
  assume "\<nexists>er. beginOn e' r env (fst k) it target (hw_db w) = Inl er"
  then obtain db' h evs where beg: "beginOn e' r env (fst k) it target (hw_db w) = Inr (db', h, evs)"
    by (cases "beginOn e' r env (fst k) it target (hw_db w)") auto
  have "hold_inv e w0" using start by (auto simp: fresh_holds_def hold_inv_def get_row_def)
  then have "hold_inv e w" by (rule holding.reach_inv [OF reach])
  then obtain hd where hd: "hold_at e k (hw_db w) = Some hd" "ho_kind hd = snd k" "hold_live (hw_now w) hd"
    using hold_invD(4) [of e w k t] held by (auto simp: hold_live_def)
  note live = live_hold [OF hd] and id = inv_row(1) [OF inv row(1)]
  have "begin_fresh e' env it target row (hw_db w) = Inr (db', h, evs)" using beg row by (cases rule: beginOn_cases) auto
  then have "precheck e' (tx_now env) row it target (hw_db w) = None" by (auto simp: begin_fresh_def split: option.splits)
  then have "op_rechecks e' (tx_now env) row it (hw_db w) = None" by (rule precheck_None(3))
  then show False using pause live now id by (auto simp: op_rechecks_def Let_def split: if_splits)
qed

text \<open>C16: A lease \<open>Acquire\<close> returns is one of a sandbox that runs without an op as its transaction commits, of that
  incarnation and on that node, however many rounds it took.\<close>

theorem acquire_admits_running:
  assumes "Acquire e meets k j w = Some (Inr l, hs', db')"
  shows "\<exists>row. get_row (db_sandboxes db') (fst k) = Some row \<and> sb_client_state row = StateRunning \<and> sb_op row = None
    \<and> l = \<lparr>le_sandbox = sb_id row, le_incarnation = sb_incarnation row, le_node = sb_node row\<rparr>"
  using Acquire_lease [OF assms] by (simp add: running_lease_def)

section \<open>Examples\<close>

abbreviation sample_key :: hold_key where "sample_key \<equiv> (sample_pod, HoldExec)"

definition sample_holding :: hold_world where
  "sample_holding = \<lparr>hw_db = sample_running_db, hw_holds = [], hw_now = 1000 * second, hw_last = (\<lambda>_. None)\<rparr>"

lemma sample_admitted:
  "\<exists>hs db l. admitHold sample_engine (1000 * second) sample_key (holdRef sample_key []) sample_running_db = Inr (hs, db, Some l)
    \<and> inv_check db \<and> map_option sb_op (get_row (db_sandboxes db) sample_pod) = Some None"
proof -
  have "case admitHold sample_engine (1000 * second) sample_key (holdRef sample_key []) sample_running_db of Inr (hs, db, Some l) \<Rightarrow>
      inv_check db \<and> map_option sb_op (get_row (db_sandboxes db) sample_pod) = Some None | _ \<Rightarrow> False" by code_simp
  then show ?thesis by (auto split: sum.splits option.splits prod.splits)
qed

theorem held_stays_awake_witness:
  "\<exists>db er. beginOn sample_engine sample_runner sample_env sample_pod ((sample_intent OpPause ''n1'')\<lparr>it_trigger := TriggerIdle\<rparr>) ''n1'' db = Inl er
    \<and> db_inv db"
proof -
  obtain hs db l where ad: "admitHold sample_engine (1000 * second) sample_key (holdRef sample_key []) sample_running_db = Inr (hs, db, Some l)"
    and ok: "inv_check db" "map_option sb_op (get_row (db_sandboxes db) sample_pod) = Some None" using sample_admitted by blast
  let ?w = "sample_holding\<lparr>hw_holds := hs, hw_db := db, hw_last := [sample_key \<mapsto> 1000 * second]\<rparr>"
  have r0: "get_row (holdRef sample_key []) sample_key = Some \<lparr>hs_count = 0, hs_refs = 1\<rparr>" by code_simp
  have "hstep sample_engine sample_holding (sample_holding\<lparr>hw_holds := holdRef sample_key []\<rparr>)"
    using hstep.ref [of sample_engine sample_holding sample_key] by (simp add: sample_holding_def)
  moreover have "hstep sample_engine (sample_holding\<lparr>hw_holds := holdRef sample_key []\<rparr>) ?w"
    using r0 hstep.admit [of "sample_holding\<lparr>hw_holds := holdRef sample_key []\<rparr>" sample_key "\<lparr>hs_count = 0, hs_refs = 1\<rparr>" sample_engine hs db "Some l"] ad
    by (simp add: sample_holding_def)
  ultimately have reach: "(hstep sample_engine)\<^sup>*\<^sup>* sample_holding ?w" by simp
  have now: "tx_now sample_env = 1000 * second" "0 < tm_hold_lease (e_t sample_engine)" "0 < interval (tm_hold_lease (e_t sample_engine))" by code_simp+
  obtain row where row: "get_row (db_sandboxes db) sample_pod = Some row" "sb_op row = None" using ok(2) by auto
  have "\<exists>er. beginOn sample_engine sample_runner sample_env (fst sample_key) ((sample_intent OpPause ''n1'')\<lparr>it_trigger := TriggerIdle\<rparr>) ''n1'' (hw_db ?w) = Inl er"
    by (rule held_stays_awake [OF reach _ _ _ _ _ row(2)])
      (use row now inv_check_inv [OF ok(1)] in \<open>simp_all add: fresh_holds_def sample_holding_def sample_intent_def, linarith\<close>)
  then show ?thesis using inv_check_inv [OF ok(1)] by auto
qed

text \<open>\<open>Acquire\<close> of the running sample sandbox, in one round.\<close>

theorem acquire_admits_running_witness:
  "\<exists>l w'. Acquire sample_engine (\<lambda>_. \<lparr>aq_ensure = None, aq_world = id, aq_now = 1000 * second, aq_ended = None\<rparr>) sample_key 0
      ([], sample_running_db) = Some (Inr l, w') \<and> (\<exists>row. get_row (db_sandboxes (snd w')) sample_pod = Some row \<and> sb_op row = None)"
proof -
  obtain hs db l where ad: "admitHold sample_engine (1000 * second) sample_key (holdRef sample_key []) sample_running_db = Inr (hs, db, Some l)"
    using sample_admitted by blast
  then have "Acquire sample_engine (\<lambda>_. \<lparr>aq_ensure = None, aq_world = id, aq_now = 1000 * second, aq_ended = None\<rparr>) sample_key 0
      ([], sample_running_db) = Some (Inr l, hs, db)" by (subst Acquire.simps) (simp add: acquire_round_def)
  then show ?thesis using acquire_admits_running by fastforce
qed

end
