(* ===== verification/Finish.thy ===== *)
theory Finish
  imports Begin
begin

text \<open>
  The end of an op, from \<open>go/internal/sandbox/finish.go\<close> and \<open>errors.go\<close>: the outcome table that turns what the
  target holds of the pod after the op's calls into the sandbox's row, the finish transaction with its fence by
  the op id, the rollback of an op that sent nothing, the backoff of a failed policy, and the retry of both
  transactions.
\<close>

section \<open>Errors of node calls\<close>

datatype code =
    OK | Canceled | Unknown | DeadlineExceeded | NotFound | AlreadyExists | ResourceExhausted | FailedPrecondition
  | Aborted | Unavailable | OtherCode nat

text \<open>A failure before an op's pod call: the prepare hook's, or of building the pod spec. \<open>pe_text\<close> is the wrapped
  error's text, \<open>pe_unfit\<close> and \<open>pe_unavailable\<close> whether it wraps \<open>ErrNodeUnfit\<close> and \<open>model.ErrNodeUnavailable\<close>.\<close>

record prepare_error =
  pe_node :: string
  pe_kind :: op_kind
  pe_hook :: bool
  pe_text :: string
  pe_unfit :: bool
  pe_unavailable :: bool

definition prepare_text :: "prepare_error \<Rightarrow> string" where
  "prepare_text p =
    (if pe_hook p then ''prepare node '' @ pe_node p @ '' for '' @ op_text (pe_kind p) @ '': '' @ pe_text p
     else if pe_kind p = OpRestore then ''prepare the restore: '' @ pe_text p
     else ''build the pod spec for '' @ op_text (pe_kind p) @ '': '' @ pe_text p)"

text \<open>An error of a node call: whether it is the end of a context, the gRPC status in it (code, message and the
  types of its details), its own text, and the \<open>prepareError\<close> it is, if it is one.\<close>

record call_error =
  ce_deadline :: bool
  ce_canceled :: bool
  ce_status :: "(code \<times> string \<times> string list) option"
  ce_text :: string
  ce_prepare :: "prepare_error option"

definition grpcCode :: "call_error option \<Rightarrow> code" where
  "grpcCode er =
    (case er of
       None \<Rightarrow> OK
     | Some c \<Rightarrow>
         if ce_deadline c then DeadlineExceeded
         else if ce_canceled c then Canceled
         else (case ce_status c of None \<Rightarrow> Unknown | Some (k, _) \<Rightarrow> k))"

definition callText :: "call_error option \<Rightarrow> string" where
  "callText er =
    (case er of
       None \<Rightarrow> []
     | Some c \<Rightarrow> (case ce_status c of Some (_, m, _) \<Rightarrow> m | None \<Rightarrow> ce_text c))"

definition vmBusyDetail :: string where
  "vmBusyDetail = ''type.googleapis.com/feos.microvm.v1.VmBusy''"

definition vmBusy :: "call_error option \<Rightarrow> bool" where
  "vmBusy er =
    (case er of
       None \<Rightarrow> False
     | Some c \<Rightarrow>
         if ce_deadline c \<or> ce_canceled c then False
         else (case ce_status c of None \<Rightarrow> False | Some (k, _, ds) \<Rightarrow> k = Unavailable \<and> vmBusyDetail \<in> set ds))"

record call_result =
  cr_err :: "call_error option"
  cr_skipped :: bool
  cr_postponed :: bool
  cr_restored :: bool
  cr_memory_restored :: bool
  cr_reason :: string
  cr_checkpoint :: "checkpoint option"

section \<open>Small tables\<close>

definition opGoal :: "op_kind \<Rightarrow> client_state" where
  "opGoal k = (case k of OpPause \<Rightarrow> StatePaused | OpHibernate \<Rightarrow> StateHibernated | _ \<Rightarrow> StateRunning)"

definition opNoun :: "op_kind \<Rightarrow> string" where
  "opNoun k = (if k = OpHibernate then ''hibernation'' else op_text k)"

definition errText :: "call_error option \<Rightarrow> string \<Rightarrow> string" where
  "errText er otherwise = (if er = None then otherwise else callText er)"

definition appendUnique :: "string list \<Rightarrow> string \<Rightarrow> string list" where
  "appendUnique ss s = (if s \<in> set ss then ss else ss @ [s])"

definition placementFailure :: "call_error option \<Rightarrow> bool" where
  "placementFailure er = (grpcCode er \<in> {ResourceExhausted, FailedPrecondition, AlreadyExists})"

definition cold_restore :: "call_result \<Rightarrow> bool" where
  "cold_restore res = (cr_restored res \<and> \<not> cr_memory_restored res \<and> cr_reason res \<noteq> [])"

definition runOrigin :: "op_kind \<Rightarrow> call_result \<Rightarrow> string" where
  "runOrigin kind res =
    (case kind of
       OpCreate \<Rightarrow> ''image''
     | OpStart \<Rightarrow> ''disk''
     | OpRepair \<Rightarrow> ''disk''
     | OpResume \<Rightarrow> ''snapshot''
     | OpRestore \<Rightarrow> if cold_restore res then ''coldboot: '' @ cr_reason res else ''checkpoint''
     | _ \<Rightarrow> ''adopted'')"

definition coldBoot :: "op_kind \<Rightarrow> call_result \<Rightarrow> bool" where
  "coldBoot kind res = (case kind of OpStart \<Rightarrow> True | OpRestore \<Rightarrow> cold_restore res | _ \<Rightarrow> False)"

definition newerCheckpoint :: "checkpoint option \<Rightarrow> sandbox \<Rightarrow> bool" where
  "newerCheckpoint cp row =
    (case cp of
       None \<Rightarrow> False
     | Some p \<Rightarrow>
         cp_head_key p \<noteq> [] \<and> (epoch64 (cp_epoch p) > sb_checkpoint_epoch row
           \<or> (epoch64 (cp_epoch p) = sb_checkpoint_epoch row \<and> cp_head_key p \<noteq> sb_checkpoint_head row)))"

definition nodeUnfit :: "prepare_error option \<Rightarrow> bool" where
  "nodeUnfit cause = (case cause of None \<Rightarrow> False | Some p \<Rightarrow> pe_hook p \<and> pe_unfit p \<and> \<not> pe_unavailable p)"

definition clearOp :: "sandbox \<Rightarrow> sandbox" where
  "clearOp a = a\<lparr>sb_op := None, sb_op_id := uuid_nil, sb_op_owner := [], sb_op_deadline := 0, sb_op_target := [],
    sb_op_from_state := None\<rparr>"

section \<open>The outcome table\<close>

text \<open>The states of the op's own pod, as the switch of \<open>applyOurs\<close> writes them into the row.\<close>

definition ours_running :: "op_handle \<Rightarrow> call_result \<Rightarrow> gotime \<Rightarrow> sandbox \<Rightarrow> sandbox" where
  "ours_running h res now a = a\<lparr>sb_client_state := StateRunning, sb_avoid_nodes := [],
    sb_pending_since := 0, sb_unreachable_since := 0,
    sb_last_active_at := (if h_kind h \<in> {OpCreate, OpStart, OpResume, OpRestore, OpRepair} then now else sb_last_active_at a),
    sb_status_description :=
      (if h_kind h = OpPause then ''pause failed: '' @ errText (cr_err res) ''the pod still runs''
       else if h_kind h = OpRepair then
         (case cr_err res of
            Some c \<Rightarrow> (case ce_prepare c of Some p \<Rightarrow> ''repair not done: '' @ prepare_text p | None \<Rightarrow> [])
          | None \<Rightarrow> [])
       else [])\<rparr>"

definition ours_suspended :: "op_handle \<Rightarrow> call_result \<Rightarrow> gotime \<Rightarrow> sandbox \<Rightarrow> sandbox" where
  "ours_suspended h res now a = a\<lparr>sb_client_state := StatePaused, sb_pending_since := 0,
    sb_paused_at := (if h_kind h = OpPause \<or> sb_paused_at a = 0 then now else sb_paused_at a),
    sb_status_description :=
      (if h_kind h \<noteq> OpHibernate then []
       else if grpcCode (cr_err res) = Aborted then ''hibernation abandoned for a resume''
       else ''hibernation failed: '' @ errText (cr_err res) ''the pod stays suspended'')\<rparr>"

definition busy_note :: "op_handle \<Rightarrow> call_result \<Rightarrow> sandbox \<Rightarrow> sandbox" where
  "busy_note h res a =
    (if vmBusy (cr_err res) \<and> sb_client_state a \<noteq> StateUnknown \<and> (sb_client_state a \<noteq> opGoal (h_kind h) \<or> h_kind h = OpRepair)
     then a\<lparr>sb_status_description := opNoun (h_kind h) @ '' postponed: '' @ callText (cr_err res)\<rparr> else a)"

definition applyOurs :: "txenv \<Rightarrow> op_handle \<Rightarrow> call_result \<Rightarrow> pod_info \<Rightarrow> registry \<Rightarrow> change \<Rightarrow> change" where
  "applyOurs env h res p db c0 =
    (let now = tx_now env;
         c1 = mergeCheckpoint now (pi_checkpoint p) (h_target h) db
           (upd (\<lambda>a. a\<lparr>sb_node := h_target h, sb_materialised := True, sb_lost_from := [], sb_address := podAddress p\<rparr>) c0);
         c2 = (if h_kind h = OpRepair \<and> ((\<not> cr_skipped res \<and> \<not> cr_postponed res) \<or> h_takeover h)
               then c1\<lparr>ch_ends_processes := True\<rparr> else c1)
     in upd (busy_note h res)
       (case pi_state p of
          POD_STATE_RUNNING \<Rightarrow>
            (let c3 = (upd (ours_running h res now) c2)
                   \<lparr>ch_open_run := (if h_kind h = OpResume \<and> newerCheckpoint (pi_checkpoint p) (h_row h) then ''checkpoint''
                      else runOrigin (h_kind h) res)\<rparr>
             in if coldBoot (h_kind h) res then c3\<lparr>ch_ends_processes := True\<rparr> else c3)
        | POD_STATE_PENDING \<Rightarrow> upd (\<lambda>a. a\<lparr>sb_client_state := StateCreating,
            sb_pending_since := (if sb_pending_since a = 0 then now else sb_pending_since a),
            sb_status_description := ''still starting on node '' @ h_target h @ '' after '' @ tx_elapsed env\<rparr>) c2
        | POD_STATE_SUSPENDED \<Rightarrow> (upd (ours_suspended h res now) c2)
            \<lparr>ch_close_run := (if h_trigger h = TriggerIdle then ''idle'' else ''paused'')\<rparr>
        | POD_STATE_HIBERNATED \<Rightarrow>
            (let c3 = upd (\<lambda>a. a\<lparr>sb_client_state := StateHibernated, sb_pending_since := 0\<rparr>) c2;
                 c4 = (if (case pi_checkpoint p of None \<Rightarrow> True | Some cp \<Rightarrow> cp_head_key cp = [])
                   then mergeCheckpoint now (cr_checkpoint res) (h_target h) db c3 else c3)
             in (upd (\<lambda>a. a\<lparr>sb_status_description := []\<rparr>) c4)\<lparr>ch_close_run := ''hibernated''\<rparr>)
        | POD_STATE_STOPPED \<Rightarrow> (upd (\<lambda>a. a\<lparr>sb_client_state := StateStopped, sb_pending_since := 0,
            sb_status_description := pi_reason p\<rparr>) c2)\<lparr>ch_close_run := ''stopped''\<rparr>
        | POD_STATE_FAILED \<Rightarrow> (upd (\<lambda>a. a\<lparr>sb_client_state := StateFailed, sb_pending_since := 0,
            sb_status_description := pi_reason p\<rparr>) c2)\<lparr>ch_close_run := ''failed''\<rparr>
        | POD_STATE_UNSPECIFIED \<Rightarrow> upd (\<lambda>a. a\<lparr>sb_client_state := StateUnknown,
            sb_status_description := op_text (h_kind h) @ '' on node '' @ h_target h @ '': the pod is in state ''
              @ pod_state_text (pi_state p)\<rparr>) c2))"

definition backOff :: "engine \<Rightarrow> gotime \<Rightarrow> op_handle \<Rightarrow> sandbox \<Rightarrow> sandbox" where
  "backOff e now h a =
    (let fail = (\<lambda>p.
       let n = (if sb_policy_failed a \<noteq> p then 0 else sb_policy_failures a) + 1 in
       a\<lparr>sb_policy_failed := p, sb_policy_failures := n,
         sb_policy_not_before := now + policyBackoff n (tm_policy_backoff_min (e_t e)) (tm_policy_backoff_max (e_t e))\<rparr>)
     in if (h_kind h = OpPause \<and> sb_client_state a = StatePaused) \<or> (h_kind h = OpHibernate \<and> sb_client_state a = StateHibernated)
     then a\<lparr>sb_policy_failed := PolicyNone, sb_policy_failures := 0, sb_policy_not_before := 0\<rparr>
     else if h_trigger h = TriggerIdle \<and> h_kind h = OpPause \<and> sb_client_state a = StateRunning then fail PolicyIdle
     else if h_trigger h = TriggerHibernateAfter \<and> h_kind h = OpHibernate \<and> sb_client_state a = StatePaused
     then fail PolicyHibernateAfter
     else a)"

text \<open>The outcome when the target answers that it holds no pod.\<close>

definition outcome_missing :: "engine \<Rightarrow> op_handle \<Rightarrow> call_result \<Rightarrow> change \<Rightarrow> change" where
  "outcome_missing e h res c =
    (case cr_err res of
       None \<Rightarrow> notFound e (h_target h) [] c
     | Some _ \<Rightarrow>
         let a = ch_after c; why = op_text (h_kind h) @ '' on node '' @ h_target h @ '' failed: '' @ callText (cr_err res) in
         if h_kind h = OpCreate \<and> placementFailure (cr_err res) \<and> \<not> HasCheckpoint a \<and> \<not> sb_materialised a
         then notFound e (h_target h) (why @ ''; placed elsewhere on the next use'')
           (upd (\<lambda>a. a\<lparr>sb_avoid_nodes := appendUnique (sb_avoid_nodes a) (h_target h)\<rparr>) c)
         else notFound e (h_target h) why c)"

definition applyOutcome :: "engine \<Rightarrow> txenv \<Rightarrow> op_handle \<Rightarrow> call_result \<Rightarrow> observation \<Rightarrow> registry \<Rightarrow> change \<Rightarrow> change" where
  "applyOutcome e env h res obs db c0 =
    (let c = upd clearOp c0 in
     upd (backOff e (tx_now env) h)
       (if \<not> obs_answered obs then
          upd (\<lambda>a. a\<lparr>sb_client_state := StateUnknown,
            sb_status_description := op_text (h_kind h) @ '' on node '' @ h_target h @ '': outcome unknown (''
              @ errText (cr_err res) ''the node did not answer'' @ '')''\<rparr>) c
        else case obs_info obs of
          None \<Rightarrow> outcome_missing e h res c
        | Some p \<Rightarrow>
            if ours e (h_inc h) obs then applyOurs env h res p db c
            else let inc = podIncarnation e p in
              notFound e (h_target h) (op_text (h_kind h) @ '' on node '' @ h_target h @ '' found a stale pod of incarnation ''
                  @ e_uuid_text e inc @ '' there; it is deleted first'')
                (change_tombstone (h_target h) inc (staleReason e inc) c)))"

section \<open>Results\<close>

text \<open>The error of an op's result: the engine's own, or the failure before its pod call.\<close>

datatype op_error = OpError err | OpPrepare prepare_error

record op_result =
  or_state :: "client_state option"
  or_node :: string
  or_description :: string
  or_err :: "op_error option"
  or_fenced :: bool
  or_busy :: bool

record after_commit =
  ac_tombstones :: "tombstone_key list"
  ac_sync :: bool

definition result_of :: "sandbox \<Rightarrow> op_result" where
  "result_of w = \<lparr>or_state = Some (sb_client_state w), or_node = sb_node w, or_description = sb_status_description w,
    or_err = None, or_fenced = False, or_busy = False\<rparr>"

definition no_result :: op_result where
  "no_result = \<lparr>or_state = None, or_node = [], or_description = [], or_err = None, or_fenced = False, or_busy = False\<rparr>"

definition nothing_after :: after_commit where
  "nothing_after = \<lparr>ac_tombstones = [], ac_sync = False\<rparr>"

definition endEvent :: "op_handle \<Rightarrow> string \<Rightarrow> string \<Rightarrow> string \<Rightarrow> event" where
  "endEvent h owner run state = \<lparr>ev_sandbox = h_id h, ev_tenant = owner, ev_node = h_target h, ev_kind = KindLifecycleEnd,
    ev_span = h_span h, ev_parent = (if run = [] then h_parent h else run),
    ev_name = op_text (h_kind h) @ '' on node '' @ h_target h @ '': '' @ state\<rparr>"

section \<open>The finish\<close>

definition makes_pod :: "op_kind \<Rightarrow> bool" where
  "makes_pod k = (k \<in> {OpCreate, OpStart, OpResume, OpRestore, OpRepair})"

text \<open>The op of the handle is the row's.\<close>

definition owns :: "op_handle \<Rightarrow> sandbox option \<Rightarrow> bool" where
  "owns h row = (case row of None \<Rightarrow> False | Some r \<Rightarrow> sb_incarnation r = h_inc h \<and> sb_op_id r = h_op_id h)"

definition fenced_checkpoints :: "engine \<Rightarrow> op_handle \<Rightarrow> call_result \<Rightarrow> observation \<Rightarrow> checkpoint option list" where
  "fenced_checkpoints e h res obs = cr_checkpoint res #
    (if ours e (h_inc h) obs then [case obs_info obs of None \<Rightarrow> None | Some p \<Rightarrow> pi_checkpoint p] else [])"

definition epoch_newer :: "sandbox \<Rightarrow> checkpoint option \<Rightarrow> bool" where
  "epoch_newer row cp = (case cp of None \<Rightarrow> False
    | Some p \<Rightarrow> cp_head_key p \<noteq> [] \<and> epoch64 (cp_epoch p) > sb_checkpoint_epoch row)"

definition fencedOut :: "engine \<Rightarrow> txenv \<Rightarrow> op_handle \<Rightarrow> sandbox option \<Rightarrow> call_result \<Rightarrow> observation \<Rightarrow> registry
    \<Rightarrow> err + registry \<times> op_result \<times> after_commit \<times> event list" where
  "fencedOut e env h row res obs db =
    (let result = (case row of None \<Rightarrow> no_result\<lparr>or_fenced := True\<rparr> | Some r \<Rightarrow> (result_of r)\<lparr>or_fenced := True\<rparr>);
         elsewhere = (case row of None \<Rightarrow> True
           | Some r \<Rightarrow> sb_incarnation r \<noteq> h_inc h \<or> (sb_node r \<noteq> h_target h \<and> sb_op_target r \<noteq> h_target h));
         reason = ''fenced-out '' @ op_text (h_kind h);
         k = (h_id h, h_target h, h_inc h) in
     if makes_pod (h_kind h) \<and> elsewhere then
       bindE (UpsertTombstone (tx_now env) k reason 0 db) (\<lambda>db'.
         Inr (db', result, nothing_after\<lparr>ac_tombstones := [k]\<rparr>,
           [tombstone_event (h_id h) (sb_owner (h_row h)) (h_target h) reason]))
     else case row of
       None \<Rightarrow> Inr (db, result, nothing_after, [])
     | Some r \<Rightarrow>
         if sb_incarnation r \<noteq> h_inc h then Inr (db, result, nothing_after, [])
         else let cps = fenced_checkpoints e h res obs in
           if list_ex (epoch_newer r) cps \<and> sb_node r = h_target h then
             bindE (UpdateSandbox (tx_now env) r (fold (\<lambda>cp. merge_row (tx_now env) cp (h_target h) db) cps r) db) (\<lambda>(db', w).
               Inr (db', (result_of w)\<lparr>or_fenced := True\<rparr>, nothing_after\<lparr>ac_sync := True\<rparr>, []))
           else Inr (db, result, nothing_after, []))"

definition fenced_label :: "op_handle \<Rightarrow> call_result \<Rightarrow> string" where
  "fenced_label h res = (if h_kind h = OpHibernate \<and> grpcCode (cr_err res) = Aborted then ''abandoned'' else ''fenced out'')"

definition finishOnce :: "engine \<Rightarrow> txenv \<Rightarrow> op_handle \<Rightarrow> call_result \<Rightarrow> observation \<Rightarrow> registry
    \<Rightarrow> err + registry \<times> op_result \<times> after_commit \<times> event list" where
  "finishOnce e env h res obs db =
    (let row = get_row (db_sandboxes db) (h_id h) in
     if \<not> owns h row then
       bindE (fencedOut e env h row res obs db) (\<lambda>(db', result, ac, evs).
         Inr (db', result, ac, evs @ [endEvent h (sb_owner (h_row h)) [] (fenced_label h res)]))
     else case row of
       None \<Rightarrow> Inl ErrNoRow
     | Some r \<Rightarrow>
         let c = applyOutcome e env h res obs db (newChange r) in
         bindE (commit env c db) (\<lambda>(db', w, evs).
           Inr (db', (result_of w)\<lparr>or_busy := vmBusy (cr_err res) \<and> sb_client_state w \<noteq> StateUnknown
                \<and> sb_client_state w \<noteq> opGoal (h_kind h)\<rparr>,
             nothing_after\<lparr>ac_tombstones := tombstoneKeys c @ h_tombstones h\<rparr>,
             evs @ [endEvent h (sb_owner w) (sb_run_id w) (state_text (sb_client_state w))])))"

section \<open>The rollback\<close>

definition rollback_why :: "engine \<Rightarrow> op_handle \<Rightarrow> prepare_error option \<Rightarrow> string" where
  "rollback_why e h cause = (case cause of
      None \<Rightarrow> ''node '' @ h_target h @ '' is not connected to instance '' @ e_id e
    | Some p \<Rightarrow> prepare_text p)"

definition rollback_failure :: "engine \<Rightarrow> op_handle \<Rightarrow> prepare_error option \<Rightarrow> op_error" where
  "rollback_failure e h cause = (case cause of
      None \<Rightarrow> OpError (Kind ErrNodeUnavailable (rollback_why e h None))
    | Some p \<Rightarrow> OpPrepare p)"

text \<open>The row of a rollback. The state a fresh op read is always there (\<^const>\<open>read_ok\<close>).\<close>

definition rollback_row :: "engine \<Rightarrow> op_handle \<Rightarrow> prepare_error option \<Rightarrow> sandbox \<Rightarrow> sandbox" where
  "rollback_row e h cause row =
    (let a = clearOp row; why = rollback_why e h cause in
     if h_preempted h \<noteq> uuid_nil then
       a\<lparr>sb_client_state := StateUnknown,
         sb_status_description := why @ ''; the hibernate the resume was to abandon goes on''\<rparr>
     else if \<not> h_takeover h then
       (let b = a\<lparr>sb_client_state := (case rd_state (h_read h) of Some s \<Rightarrow> s | None \<Rightarrow> StateUnknown),
              sb_node := rd_node (h_read h), sb_lost_from := rd_lost_from (h_read h),
              sb_materialised := rd_materialised (h_read h), sb_status_description := why @ ''; nothing was sent''\<rparr>
        in if nodeUnfit cause \<and> h_kind h = OpCreate \<and> sb_pin_node b = []
           then b\<lparr>sb_avoid_nodes := appendUnique (sb_avoid_nodes b) (h_target h),
             sb_status_description := sb_status_description b @ ''; placed elsewhere on the next use''\<rparr>
           else b)
     else a\<lparr>sb_client_state := StateUnknown,
       sb_status_description := why @ ''; the outcome of '' @ op_text (h_kind h) @ '' is unknown''\<rparr>)"

definition delete_tombstones :: "tombstone_key list \<Rightarrow> registry \<Rightarrow> registry" where
  "delete_tombstones ks db = fold (\<lambda>k db. fst (DeleteTombstone k db)) ks db"

definition rollbackOnce :: "engine \<Rightarrow> txenv \<Rightarrow> op_handle \<Rightarrow> prepare_error option \<Rightarrow> registry
    \<Rightarrow> err + registry \<times> op_result \<times> after_commit \<times> event list" where
  "rollbackOnce e env h cause db =
    (let row = get_row (db_sandboxes db) (h_id h); failure = Some (rollback_failure e h cause) in
     if \<not> owns h row then
       Inr (db, (case row of None \<Rightarrow> no_result | Some r \<Rightarrow> result_of r)\<lparr>or_err := failure, or_fenced := True\<rparr>, nothing_after,
         [endEvent h (sb_owner (h_row h)) [] ''fenced out''])
     else case row of
       None \<Rightarrow> Inl ErrNoRow
     | Some r \<Rightarrow>
         let c = (newChange r)\<lparr>ch_after := rollback_row e h cause r\<rparr>;
             db0 = (if h_preempted h = uuid_nil \<and> \<not> h_takeover h then delete_tombstones (h_tombstones h) db else db) in
         bindE (commit env c db0) (\<lambda>(db', w, evs).
           Inr (db', (result_of w)\<lparr>or_err := failure\<rparr>, nothing_after,
             evs @ [endEvent h (sb_owner w) (sb_run_id w) (state_text (sb_client_state w))])))"

section \<open>The retry\<close>

text \<open>\<open>retry\<close>: the transaction again and again, with a growing pause, until it commits or the instance stops.
  \<open>attempts\<close> are the outcomes of its attempts, each with whether the instance stops by the end of it or of the
  pause after it; the waits between them are returned with the result.\<close>

fun retry :: "duration \<Rightarrow> duration \<Rightarrow> (('e + 'a) \<times> bool) list \<Rightarrow> duration list \<times> ('e + 'a) option" where
  "retry backoff most [] = ([], None)"
| "retry backoff most ((Inr x, _) # attempts) = ([], Some (Inr x))"
| "retry backoff most ((Inl er, stops) # attempts) =
    (if stops then ([], Some (Inl er))
     else case retry (min (backoff * 2) most) most attempts of (ws, res) \<Rightarrow> (backoff # ws, res))"

section \<open>Rows without an op\<close>

text \<open>The columns of the op, empty, and the fixed sizes.\<close>

definition no_op :: "sandbox \<Rightarrow> bool" where
  "no_op a = (sb_op a = None \<and> sb_op_id a = uuid_nil \<and> sb_op_target a = [] \<and> sb_op_from_state a = None
    \<and> 0 \<le> sb_vcpus a \<and> 0 \<le> sb_memory_mib a)"

definition settled_states :: "client_state set" where
  "settled_states = {StatePending, StateCreating, StateRunning, StatePaused, StateHibernated, StateStopped, StateFailed,
    StateUnknown, StateLost}"

lemma row_ok_no_op:
  "no_op a \<Longrightarrow> sb_client_state a \<in> settled_states \<Longrightarrow> place_ok (sb_client_state a) (sb_node a) (sb_materialised a) \<Longrightarrow> row_ok a"
  by (auto simp: no_op_def row_ok_def settled_states_def)

lemma no_op_clearOp [simp]: "row_ok a \<Longrightarrow> no_op (clearOp a)"
  by (simp add: row_ok_def no_op_def clearOp_def)

lemma clearOp_simps [simp]:
  "sb_id (clearOp a) = sb_id a" "sb_client_state (clearOp a) = sb_client_state a" "sb_node (clearOp a) = sb_node a"
  "sb_materialised (clearOp a) = sb_materialised a" "sb_checkpoint_head (clearOp a) = sb_checkpoint_head a"
  "sb_checkpoint_epoch (clearOp a) = sb_checkpoint_epoch a" "sb_incarnation (clearOp a) = sb_incarnation a"
  by (simp_all add: clearOp_def)

lemma merge_row_simps [simp]:
  "sb_client_state (merge_row now cp n db a) = sb_client_state a" "sb_node (merge_row now cp n db a) = sb_node a"
  "sb_materialised (merge_row now cp n db a) = sb_materialised a" "sb_op (merge_row now cp n db a) = sb_op a"
  "sb_op_id (merge_row now cp n db a) = sb_op_id a" "sb_op_target (merge_row now cp n db a) = sb_op_target a"
  "sb_op_from_state (merge_row now cp n db a) = sb_op_from_state a" "sb_vcpus (merge_row now cp n db a) = sb_vcpus a"
  "sb_memory_mib (merge_row now cp n db a) = sb_memory_mib a" "sb_incarnation (merge_row now cp n db a) = sb_incarnation a"
  "no_op (merge_row now cp n db a) = no_op a"
  by (auto simp: merge_row_def no_op_def split: option.splits)

lemma upd_simps [simp]:
  "ch_after (upd f c) = f (ch_after c)" "ch_before (upd f c) = ch_before c" "ch_tombstones (upd f c) = ch_tombstones c"
  by (simp_all add: upd_def)

lemma newChange_simps [simp]: "ch_after (newChange r) = r" "ch_before (newChange r) = r"
  by (simp_all add: newChange_def)

lemma busy_note_simps [simp]:
  "sb_client_state (busy_note h res a) = sb_client_state a" "sb_node (busy_note h res a) = sb_node a"
  "sb_materialised (busy_note h res a) = sb_materialised a" "no_op (busy_note h res a) = no_op a"
  by (simp_all add: busy_note_def no_op_def)

lemma backOff_simps [simp]:
  "sb_client_state (backOff e now h a) = sb_client_state a" "sb_node (backOff e now h a) = sb_node a"
  "sb_materialised (backOff e now h a) = sb_materialised a" "no_op (backOff e now h a) = no_op a"
  by (simp_all add: backOff_def no_op_def Let_def)

lemma ours_simps [simp]:
  "sb_client_state (ours_running h res now a) = StateRunning" "sb_node (ours_running h res now a) = sb_node a"
  "sb_materialised (ours_running h res now a) = sb_materialised a" "no_op (ours_running h res now a) = no_op a"
  "sb_client_state (ours_suspended h res now a) = StatePaused" "sb_node (ours_suspended h res now a) = sb_node a"
  "sb_materialised (ours_suspended h res now a) = sb_materialised a" "no_op (ours_suspended h res now a) = no_op a"
  by (simp_all add: ours_running_def ours_suspended_def no_op_def)

lemma no_op_updates [simp]:
  "no_op (a\<lparr>sb_client_state := s\<rparr>) = no_op a" "no_op (a\<lparr>sb_node := n\<rparr>) = no_op a" "no_op (a\<lparr>sb_materialised := m\<rparr>) = no_op a"
  "no_op (a\<lparr>sb_lost_from := l\<rparr>) = no_op a" "no_op (a\<lparr>sb_address := x\<rparr>) = no_op a" "no_op (a\<lparr>sb_pending_since := t\<rparr>) = no_op a"
  "no_op (a\<lparr>sb_status_description := d\<rparr>) = no_op a" "no_op (a\<lparr>sb_paused_at := t\<rparr>) = no_op a"
  "no_op (a\<lparr>sb_avoid_nodes := v\<rparr>) = no_op a"
  by (simp_all add: no_op_def)

text \<open>The op's own pod: on the target, materialised, in the state the node says.\<close>

definition pod_client_state :: "pod_state \<Rightarrow> client_state" where
  "pod_client_state p = (case p of POD_STATE_PENDING \<Rightarrow> StateCreating | POD_STATE_RUNNING \<Rightarrow> StateRunning
    | POD_STATE_STOPPED \<Rightarrow> StateStopped | POD_STATE_SUSPENDED \<Rightarrow> StatePaused | POD_STATE_FAILED \<Rightarrow> StateFailed
    | POD_STATE_HIBERNATED \<Rightarrow> StateHibernated | POD_STATE_UNSPECIFIED \<Rightarrow> StateUnknown)"

lemma applyOurs_after [simp]:
  "sb_client_state (ch_after (applyOurs env h res p db c)) = pod_client_state (pi_state p)"
  "sb_node (ch_after (applyOurs env h res p db c)) = h_target h"
  "sb_materialised (ch_after (applyOurs env h res p db c)) = True"
  "no_op (ch_after (applyOurs env h res p db c)) = no_op (ch_after c)"
  "ch_before (applyOurs env h res p db c) = ch_before c"
  by (cases "pi_state p"; simp add: applyOurs_def Let_def mergeCheckpoint_def pod_client_state_def)+

lemma notFound_after [simp]:
  "no_op (ch_after (notFound e n why c)) = no_op (ch_after c)" "ch_before (notFound e n why c) = ch_before c"
  "sb_client_state (ch_after (notFound e n why c)) =
    (if HasCheckpoint (ch_after c) then StateHibernated else if sb_materialised (ch_after c) then StateLost else StatePending)"
  "sb_node (ch_after (notFound e n why c)) =
    (if HasCheckpoint (ch_after c) then [] else if sb_materialised (ch_after c) then sb_node (ch_after c) else [])"
  "sb_materialised (ch_after (notFound e n why c)) = (\<not> HasCheckpoint (ch_after c) \<and> sb_materialised (ch_after c))"
  by (simp_all add: notFound_def Let_def HasCheckpoint_def)

lemma change_tombstone_after [simp]:
  "ch_after (change_tombstone n inc reason c) = ch_after c" "ch_before (change_tombstone n inc reason c) = ch_before c"
  by (simp_all add: change_tombstone_def)

text \<open>A sandbox whose pod is not on its node: what \<^const>\<open>notFound\<close> leaves is a proper row.\<close>

lemma notFound_ok:
  assumes "no_op (ch_after c)" "sb_node (ch_after c) \<noteq> []"
  shows "row_ok (ch_after (notFound e n why c))" and "bookingOf (sb_client_state (ch_after (notFound e n why c))) \<noteq> bookUnchanged"
  using assms by (auto simp: settled_states_def place_ok_def bookingOf_def intro!: row_ok_no_op)

section \<open>The finish keeps the invariant\<close>

lemma pod_client_state_settled: "pod_client_state p \<in> settled_states" "pod_client_state p \<noteq> StatePending"
  by (cases p; simp add: pod_client_state_def settled_states_def)+

lemma outcome_missing_ok:
  assumes "no_op (ch_after c)" "sb_node (ch_after c) \<noteq> []"
  shows "row_ok (ch_after (outcome_missing e h res c))"
    and "bookingOf (sb_client_state (ch_after (outcome_missing e h res c))) \<noteq> bookUnchanged"
    and "ch_before (outcome_missing e h res c) = ch_before c" and "no_op (ch_after (outcome_missing e h res c))"
  using assms by (simp_all add: outcome_missing_def Let_def notFound_ok del: notFound_after(3,4,5) split: option.splits)

lemma row_ok_backOff [simp]: "row_ok (backOff e now h a) = row_ok a"
  by (simp add: row_ok_def backOff_def Let_def cong: option.case_cong)

lemma incarnation_kept [simp]:
  "sb_incarnation (busy_note h res a) = sb_incarnation a" "sb_incarnation (backOff e now h a) = sb_incarnation a"
  "sb_incarnation (ours_running h res now a) = sb_incarnation a" "sb_incarnation (ours_suspended h res now a) = sb_incarnation a"
  by (simp_all add: busy_note_def backOff_def ours_running_def ours_suspended_def Let_def)

lemma notFound_incarnation [simp]: "sb_incarnation (ch_after (notFound e n why c)) = sb_incarnation (ch_after c)"
  by (simp add: notFound_def Let_def)

lemma applyOurs_incarnation [simp]: "sb_incarnation (ch_after (applyOurs env h res p db c)) = sb_incarnation (ch_after c)"
  by (cases "pi_state p"; simp add: applyOurs_def Let_def mergeCheckpoint_def)

lemma outcome_missing_incarnation [simp]: "sb_incarnation (ch_after (outcome_missing e h res c)) = sb_incarnation (ch_after c)"
  by (simp add: outcome_missing_def Let_def split: option.splits)

lemma applyOutcome_incarnation: "sb_incarnation (ch_after (applyOutcome e env h res obs db (newChange r))) = sb_incarnation r"
  by (simp add: applyOutcome_def Let_def split: option.splits)

lemma applyOutcome_ok:
  assumes row: "row_ok r" and op: "sb_op r \<noteq> None" and target: "h_target h = sb_node r"
  shows "row_ok (ch_after (applyOutcome e env h res obs db (newChange r)))"
    and "bookingOf (sb_client_state (ch_after (applyOutcome e env h res obs db (newChange r)))) = bookUnchanged \<Longrightarrow>
      sb_node (ch_after (applyOutcome e env h res obs db (newChange r))) = sb_node r"
    and "ch_before (applyOutcome e env h res obs db (newChange r)) = r"
    and "no_op (ch_after (applyOutcome e env h res obs db (newChange r)))"
proof -
  let ?c = "upd clearOp (newChange r)"
  have node: "sb_node r \<noteq> []" using row op by (auto simp: row_ok_def)
  have c: "no_op (ch_after ?c)" "sb_node (ch_after ?c) \<noteq> []" "sb_node (ch_after ?c) = sb_node r" using row node by simp_all
  have unknown: "row_ok (a\<lparr>sb_client_state := StateUnknown, sb_status_description := d\<rparr>)" if "no_op a" "sb_node a \<noteq> []" for a d
    using that by (auto simp: row_ok_def no_op_def place_ok_def)
  note missing = outcome_missing_ok [OF c(1,2), of e h res]
  have stale: "row_ok (ch_after (notFound e (h_target h) why (change_tombstone n inc reason ?c)))"
    "bookingOf (sb_client_state (ch_after (notFound e (h_target h) why (change_tombstone n inc reason ?c)))) \<noteq> bookUnchanged"
    for why n inc reason
    by (rule notFound_ok; use c in simp)+
  have ours: "row_ok (ch_after (applyOurs env h res p db ?c))" for p
    by (rule row_ok_no_op) (use c target node pod_client_state_settled in \<open>auto simp: place_ok_def\<close>)
  show "row_ok (ch_after (applyOutcome e env h res obs db (newChange r)))"
    unfolding applyOutcome_def Let_def using unknown [OF c(1,2)] missing(1) stale(1) ours
    by (auto split: option.splits simp del: notFound_after)
  show "sb_node (ch_after (applyOutcome e env h res obs db (newChange r))) = sb_node r"
    if "bookingOf (sb_client_state (ch_after (applyOutcome e env h res obs db (newChange r)))) = bookUnchanged"
    using that missing(2) stale(2) target c(3) unfolding applyOutcome_def Let_def
    by (auto split: option.splits if_splits simp del: notFound_after)
  show "ch_before (applyOutcome e env h res obs db (newChange r)) = r"
    unfolding applyOutcome_def Let_def using missing(3) by (auto split: option.splits)
  show "no_op (ch_after (applyOutcome e env h res obs db (newChange r)))"
    unfolding applyOutcome_def Let_def using missing(4) c(1) by (auto split: option.splits)
qed

lemma finishOnce_steps:
  assumes "finishOnce e env h res obs db = Inr (db', result, ac, evs)"
    and "get_row (db_sandboxes db) (h_id h) = Some r" "owns h (Some r)"
  obtains w es where "commit env (applyOutcome e env h res obs db (newChange r)) db = Inr (db', w, es)"
    "result = (result_of w)\<lparr>or_busy := vmBusy (cr_err res) \<and> sb_client_state w \<noteq> StateUnknown
      \<and> sb_client_state w \<noteq> opGoal (h_kind h)\<rparr>"
proof -
  define c where "c = applyOutcome e env h res obs db (newChange r)"
  have "bindE (commit env c db) (\<lambda>(db', w, evs).
      Inr (db', (result_of w)\<lparr>or_busy := vmBusy (cr_err res) \<and> sb_client_state w \<noteq> StateUnknown
                \<and> sb_client_state w \<noteq> opGoal (h_kind h)\<rparr>,
             nothing_after\<lparr>ac_tombstones := tombstoneKeys c @ h_tombstones h\<rparr>,
             evs @ [endEvent h (sb_owner w) (sb_run_id w) (state_text (sb_client_state w))])) = Inr (db', result, ac, evs)"
    using assms(1) unfolding finishOnce_def Let_def assms(2) c_def [symmetric] option.case by (simp only: assms(3) simp_thms if_False)
  then show thesis unfolding c_def [symmetric] by (elim bindE_InrE) (auto intro: that simp: c_def)
qed

text \<open>A finish whose op is still the row's: the outcome is committed, and the row has no op after it.\<close>

lemma finishOnce_owner:
  assumes inv: "db_inv db" and row: "get_row (db_sandboxes db) (h_id h) = Some r" and own: "op_of h r"
    and fin: "finishOnce e env h res obs db = Inr (db', result, ac, evs)"
  shows "db_inv db'" and "only_row (h_id h) db db'"
    and "\<exists>w. get_row (db_sandboxes db') (h_id h) = Some w \<and> no_op w \<and> sb_incarnation w = h_inc h
      \<and> or_state result = Some (sb_client_state w) \<and> or_node result = sb_node w \<and> \<not> or_fenced result"
proof -
  have r: "sb_id r = h_id h" "row_ok r" using inv_row [OF inv row] by auto
  have o: "owns h (Some r)" "sb_op r \<noteq> None" "h_target h = sb_node r" "sb_incarnation r = h_inc h"
    using own r by (auto simp: owns_def op_of_def row_ok_def)
  let ?c = "applyOutcome e env h res obs db (newChange r)"
  obtain w es where com: "commit env ?c db = Inr (db', w, es)"
    and result: "result = (result_of w)\<lparr>or_busy := vmBusy (cr_err res) \<and> sb_client_state w \<noteq> StateUnknown
      \<and> sb_client_state w \<noteq> opGoal (h_kind h)\<rparr>"
    using finishOnce_steps [OF fin row o(1)] .
  note ok = applyOutcome_ok [OF r(2) o(2,3), of e env res obs db]
  show "db_inv db'" by (rule commit_inv [OF inv _ ok(1) _ com]) (use ok row in auto)
  have before: "get_row (db_sandboxes db) (sb_id (ch_before ?c)) = Some (ch_before ?c)" using ok(3) row r by simp
  note cr = commit_row [OF before com]
  show "only_row (h_id h) db db'" using cr(2) ok(3) r by simp
  obtain x where w: "w = written_row (tx_now env) r ((ch_after ?c)\<lparr>sb_run_id := x\<rparr>) r"
    and fd: "fixed_diff r ((ch_after ?c)\<lparr>sb_run_id := x\<rparr>) = None" using cr(3) ok(3) by auto
  have inc: "sb_incarnation (ch_after ?c) = sb_incarnation r" by (rule applyOutcome_incarnation)
  have "no_op w" using ok(4) fd w by (simp add: no_op_def fixed_diff_None)
  moreover have "sb_incarnation w = h_inc h" using w inc o(4) by simp
  moreover have "get_row (db_sandboxes db') (h_id h) = Some w" using cr(1) ok(3) r by simp
  ultimately show "\<exists>w. get_row (db_sandboxes db') (h_id h) = Some w \<and> no_op w \<and> sb_incarnation w = h_inc h
      \<and> or_state result = Some (sb_client_state w) \<and> or_node result = sb_node w \<and> \<not> or_fenced result"
    using result by (auto simp: result_of_def)
qed

section \<open>A fenced-out finish\<close>

text \<open>What a merge of checkpoints keeps of a row: all but the checkpoint.\<close>

definition same_but_checkpoint :: "sandbox \<Rightarrow> sandbox \<Rightarrow> bool" where
  "same_but_checkpoint r w = (sb_client_state w = sb_client_state r \<and> sb_node w = sb_node r \<and> sb_materialised w = sb_materialised r
    \<and> sb_lost_from w = sb_lost_from r \<and> sb_op w = sb_op r \<and> sb_op_id w = sb_op_id r \<and> sb_op_owner w = sb_op_owner r
    \<and> sb_op_deadline w = sb_op_deadline r \<and> sb_op_target w = sb_op_target r \<and> sb_op_from_state w = sb_op_from_state r
    \<and> sb_incarnation w = sb_incarnation r \<and> sb_status_description w = sb_status_description r \<and> sb_run_id w = sb_run_id r
    \<and> sb_vcpus w = sb_vcpus r \<and> sb_memory_mib w = sb_memory_mib r \<and> sb_id w = sb_id r \<and> sb_address w = sb_address r
    \<and> sb_checkpoint_epoch r \<le> sb_checkpoint_epoch w)"

lemma same_but_checkpoint_refl [simp]: "same_but_checkpoint r r"
  by (simp add: same_but_checkpoint_def)

lemma same_but_checkpoint_trans: "same_but_checkpoint a b \<Longrightarrow> same_but_checkpoint b c \<Longrightarrow> same_but_checkpoint a c"
  by (simp add: same_but_checkpoint_def)

lemma merge_row_same: "same_but_checkpoint a (merge_row now cp n db a)"
  by (simp add: merge_row_def same_but_checkpoint_def split: option.splits)

lemma merge_rows_same: "same_but_checkpoint r (fold (\<lambda>cp. merge_row now cp n db) cps r)"
proof (induction cps arbitrary: r)
  case (Cons cp cps)
  then show ?case using same_but_checkpoint_trans [OF merge_row_same Cons.IH] by simp
qed simp

lemma written_same:
  assumes "same_but_checkpoint r a" "sb_id r = sb_id a"
  shows "same_but_checkpoint r (written_row now r a r)"
  using assms by (simp add: same_but_checkpoint_def)

lemma row_ok_same: "same_but_checkpoint r a \<Longrightarrow> row_ok a = row_ok r"
  by (simp add: same_but_checkpoint_def row_ok_def cong: option.case_cong)

lemma book_ok_same: "same_but_checkpoint r a \<Longrightarrow> book_ok b a = book_ok b r"
  by (simp add: same_but_checkpoint_def book_ok_def cong: option.case_cong)

text \<open>The two effects of a finish whose op is not the row's: a tombstone for the pod it may have made, or a newer
  checkpoint.\<close>

lemma fencedOut_cases:
  assumes "fencedOut e env h row res obs db = Inr (db', result, ac, evs)"
  obtains (nothing) "db' = db" "ac = nothing_after"
  | (tombstone) "UpsertTombstone (tx_now env) (h_id h, h_target h, h_inc h) (''fenced-out '' @ op_text (h_kind h)) 0 db = Inr db'"
      "makes_pod (h_kind h)" "ac = nothing_after\<lparr>ac_tombstones := [(h_id h, h_target h, h_inc h)]\<rparr>"
  | (checkpoint) r w where "row = Some r" "sb_incarnation r = h_inc h" "sb_node r = h_target h"
      "UpdateSandbox (tx_now env) r
        (fold (\<lambda>cp. merge_row (tx_now env) cp (h_target h) db) (fenced_checkpoints e h res obs) r) db = Inr (db', w)"
      "ac = nothing_after\<lparr>ac_sync := True\<rparr>"
  using assms unfolding fencedOut_def Let_def
  by (auto simp: bindE_Inr_iff simp del: fold_simps split: if_splits option.splits)

lemma fencedOut_fenced:
  "fencedOut e env h row res obs db = Inr (db', result, ac, evs) \<Longrightarrow> or_fenced result"
  unfolding fencedOut_def Let_def
  by (auto simp: bindE_Inr_iff simp del: fold_simps split: if_splits option.splits)

lemma fencedOut_effect:
  assumes inv: "db_inv db" and row: "row = get_row (db_sandboxes db) (h_id h)"
    and f: "fencedOut e env h row res obs db = Inr (db', result, ac, evs)"
  shows "db_inv db' \<and> only_row (h_id h) db db' \<and> db_bookings db' = db_bookings db \<and> db_holds db' = db_holds db
    \<and> rel_option same_but_checkpoint row (get_row (db_sandboxes db') (h_id h))"
  using f
proof (cases rule: fencedOut_cases)
  case nothing
  then show ?thesis using inv row by (auto simp: option.rel_refl)
next
  case tombstone
  note only = UpsertTombstone_only [OF tombstone(1)]
  have "keyed (db_tombstones db')" using only(2) inv by (simp add: inv_but_def tables_ok_def)
  then have "db_inv db'" using inv_tombstones [OF inv] only(1) by metis
  then show ?thesis using only(1) row
    by (metis (no_types, lifting) only_row_refl only_row_simps(3) option.rel_refl registry.select_convs(1,4,6)
        registry.surjective registry.update_convs(5) same_but_checkpoint_refl)
next
  case (checkpoint r w)
  let ?a = "fold (\<lambda>cp. merge_row (tx_now env) cp (h_target h) db) (fenced_checkpoints e h res obs) r"
  have r: "get_row (db_sandboxes db) (h_id h) = Some r" "sb_id r = h_id h" "row_ok r"
    using row checkpoint(1) inv_row [OF inv] by auto
  then have r': "get_row (db_sandboxes db) (sb_id r) = Some r" by simp
  have same: "same_but_checkpoint r ?a" by (rule merge_rows_same)
  note up = checkpoint(4)
  note cur = UpdateSandbox_current [OF up r']
    and u = UpdateSandbox_inv [OF inv r' _ up] and only = UpdateSandbox_only [OF up r']
  have aok: "row_ok ?a" using r(3) row_ok_same [OF same] by simp
  have w: "same_but_checkpoint r w" using written_same [OF same] cur(1,3) by simp
  have "book_ok (get_row (db_bookings db) (h_id h)) r" using inv_book_ok [OF inv] r by blast
  then have "book_ok (get_row (db_bookings db') (h_id h)) w" using u(3) [OF aok] book_ok_same [OF w] by simp
  then have "db_inv db'" using inv_booked u(1,2) [OF aok] r(2) by metis
  moreover have "db_holds db' = db_holds db" using cur(4) by auto
  ultimately show ?thesis using only r(2) u(2,3) [OF aok] w checkpoint(1) by simp
qed

lemma finishOnce_fenced:
  assumes inv: "db_inv db" and own: "\<not> owns h (get_row (db_sandboxes db) (h_id h))"
    and fin: "finishOnce e env h res obs db = Inr (db', result, ac, evs)"
  shows "or_fenced result" and "db_inv db' \<and> only_row (h_id h) db db' \<and> db_bookings db' = db_bookings db \<and> db_holds db' = db_holds db
    \<and> rel_option same_but_checkpoint (get_row (db_sandboxes db) (h_id h)) (get_row (db_sandboxes db') (h_id h))"
proof -
  obtain es where f: "fencedOut e env h (get_row (db_sandboxes db) (h_id h)) res obs db = Inr (db', result, ac, es)"
    using fin own unfolding finishOnce_def Let_def by (auto simp: bindE_Inr_iff)
  show "or_fenced result" by (rule fencedOut_fenced [OF f])
  show "db_inv db' \<and> only_row (h_id h) db db' \<and> db_bookings db' = db_bookings db \<and> db_holds db' = db_holds db
    \<and> rel_option same_but_checkpoint (get_row (db_sandboxes db) (h_id h)) (get_row (db_sandboxes db') (h_id h))"
    by (rule fencedOut_effect [OF inv refl f])
qed

section \<open>The rollback keeps the invariant\<close>

lemma delete_tombstones_only:
  "delete_tombstones ks db = db\<lparr>db_tombstones := fold del_row ks (db_tombstones db)\<rparr>"
proof (induction ks arbitrary: db)
  case (Cons k ks)
  then show ?case by (simp add: delete_tombstones_def DeleteTombstone_def)
qed (simp add: delete_tombstones_def)

lemma keyed_fold_del: "keyed t \<Longrightarrow> keyed (fold del_row ks t)"
  by (induction ks arbitrary: t) auto

lemma delete_tombstones_inv: "inv_but X db \<Longrightarrow> inv_but X (delete_tombstones ks db)"
  by (simp add: delete_tombstones_only inv_tombstones keyed_fold_del inv_keyed)

lemma rollback_row_ok:
  assumes r: "row_ok r" "sb_op r \<noteq> None" and h: "handle_ok h"
  shows "row_ok (rollback_row e h cause r)" and "no_op (rollback_row e h cause r)"
    and "bookingOf (sb_client_state (rollback_row e h cause r)) = bookUnchanged \<Longrightarrow> sb_node (rollback_row e h cause r) = sb_node r"
proof -
  have node: "sb_node r \<noteq> []" using r by (auto simp: row_ok_def)
  have c: "no_op (clearOp r)" using r by simp
  then show no: "no_op (rollback_row e h cause r)" by (simp add: rollback_row_def Let_def)
  have fresh: "\<not> h_takeover h \<Longrightarrow> h_preempted h = uuid_nil \<Longrightarrow> read_ok (h_read h)" using h by (simp add: handle_ok_def)
  show "row_ok (rollback_row e h cause r)"
    by (rule row_ok_no_op [OF no])
      (use fresh node in \<open>auto simp: rollback_row_def Let_def settled_states_def place_ok_def read_ok_def split: option.splits\<close>)
  show "sb_node (rollback_row e h cause r) = sb_node r" if "bookingOf (sb_client_state (rollback_row e h cause r)) = bookUnchanged"
    using that fresh by (auto simp: rollback_row_def Let_def read_ok_def bookingOf_def split: option.splits if_splits)
qed

lemma rollbackOnce_steps:
  assumes "rollbackOnce e env h cause db = Inr (db', result, ac, evs)"
    and "get_row (db_sandboxes db) (h_id h) = Some r" "owns h (Some r)"
  obtains w es where "commit env ((newChange r)\<lparr>ch_after := rollback_row e h cause r\<rparr>)
      (if h_preempted h = uuid_nil \<and> \<not> h_takeover h then delete_tombstones (h_tombstones h) db else db) = Inr (db', w, es)"
    "result = (result_of w)\<lparr>or_err := Some (rollback_failure e h cause)\<rparr>"
proof -
  have "bindE (commit env ((newChange r)\<lparr>ch_after := rollback_row e h cause r\<rparr>)
      (if h_preempted h = uuid_nil \<and> \<not> h_takeover h then delete_tombstones (h_tombstones h) db else db)) (\<lambda>(db', w, evs).
      Inr (db', (result_of w)\<lparr>or_err := Some (rollback_failure e h cause)\<rparr>, nothing_after,
        evs @ [endEvent h (sb_owner w) (sb_run_id w) (state_text (sb_client_state w))])) = Inr (db', result, ac, evs)"
    using assms(1) unfolding rollbackOnce_def Let_def assms(2) option.case by (simp only: assms(3) simp_thms if_False)
  then show thesis by (elim bindE_InrE) (auto intro: that)
qed

lemma rollbackOnce_owner:
  assumes inv: "db_inv db" and row: "get_row (db_sandboxes db) (h_id h) = Some r" and own: "op_of h r" and h: "handle_ok h"
    and rb: "rollbackOnce e env h cause db = Inr (db', result, ac, evs)"
  shows "db_inv db'" and "only_row (h_id h) db db'"
    and "\<exists>w x. get_row (db_sandboxes db') (h_id h) = Some w
      \<and> w = written_row (tx_now env) r ((rollback_row e h cause r)\<lparr>sb_run_id := x\<rparr>) r \<and> no_op w"
    and "get_row (db_tombstones db') = get_row (if h_preempted h = uuid_nil \<and> \<not> h_takeover h
      then fold del_row (h_tombstones h) (db_tombstones db) else db_tombstones db)"
proof -
  have r: "sb_id r = h_id h" "row_ok r" using inv_row [OF inv row] by auto
  have o: "owns h (Some r)" "sb_op r \<noteq> None" using own by (auto simp: owns_def op_of_def)
  let ?c = "(newChange r)\<lparr>ch_after := rollback_row e h cause r\<rparr>"
  let ?db = "if h_preempted h = uuid_nil \<and> \<not> h_takeover h then delete_tombstones (h_tombstones h) db else db"
  obtain w es where com: "commit env ?c ?db = Inr (db', w, es)" using rollbackOnce_steps [OF rb row o(1)] .
  note ok = rollback_row_ok [OF r(2) o(2) h, of e cause]
  have inv0: "db_inv ?db" using inv delete_tombstones_inv by simp
  have row0: "get_row (db_sandboxes ?db) (sb_id (ch_before ?c)) = Some (ch_before ?c)"
    using row r by (simp add: delete_tombstones_only)
  show "db_inv db'" by (rule commit_inv [OF inv0 _ _ _ com]) (use ok row0 r in auto)
  note cr = commit_row [OF row0 com]
  have "only_row (h_id h) db ?db" by (simp add: delete_tombstones_only)
  then show "only_row (h_id h) db db'" using cr(2) r by (auto intro: only_row_trans)
  obtain x where w: "w = written_row (tx_now env) r ((rollback_row e h cause r)\<lparr>sb_run_id := x\<rparr>) r"
    and fd: "fixed_diff r ((rollback_row e h cause r)\<lparr>sb_run_id := x\<rparr>) = None" using cr(3) by auto
  have "no_op w" using ok(2) fd w by (simp add: no_op_def fixed_diff_None)
  then show "\<exists>w x. get_row (db_sandboxes db') (h_id h) = Some w
      \<and> w = written_row (tx_now env) r ((rollback_row e h cause r)\<lparr>sb_run_id := x\<rparr>) r \<and> no_op w"
    using cr(1) w r by auto
  have "db_tombstones db' = db_tombstones ?db"
    by (rule commit_no_tombstones [OF com]) (simp add: newChange_def)
  then show "get_row (db_tombstones db') = get_row (if h_preempted h = uuid_nil \<and> \<not> h_takeover h
      then fold del_row (h_tombstones h) (db_tombstones db) else db_tombstones db)"
    by (simp add: delete_tombstones_only)
qed

section \<open>Properties\<close>


text \<open>C3: A finish whose op is still the row's ends it, whatever the call and the observation after it said: the row
  has no op, no deadline and no target, in one of the states of a sandbox without one, the state and node the caller
  is told are the row's, and the invariant of the registry holds again.\<close>

theorem finish_ends_op:
  assumes inv: "db_inv db" and row: "get_row (db_sandboxes db) (h_id h) = Some r" and own: "op_of h r"
    and fin: "finishOnce e env h res obs db = Inr (db', result, ac, evs)"
  shows "db_inv db' \<and> only_row (h_id h) db db' \<and> \<not> or_fenced result
    \<and> (\<exists>w. get_row (db_sandboxes db') (h_id h) = Some w \<and> no_op w \<and> sb_client_state w \<in> settled_states
      \<and> sb_incarnation w = h_inc h \<and> or_state result = Some (sb_client_state w) \<and> or_node result = sb_node w)"
proof -
  note f = finishOnce_owner [OF inv row own fin]
  obtain w where w: "get_row (db_sandboxes db') (h_id h) = Some w" "no_op w" "sb_incarnation w = h_inc h"
    "or_state result = Some (sb_client_state w)" "or_node result = sb_node w" "\<not> or_fenced result" using f(3) by blast
  have "row_ok w" using inv_row(2) [OF f(1) w(1)] .
  then have "sb_client_state w \<in> settled_states"
    using w(2) by (cases "sb_client_state w") (auto simp: row_ok_def no_op_def settled_states_def)
  then show ?thesis using f(1,2) w by blast
qed

subsection \<open>The round trip of a begin and its rollback\<close>

lemma get_fold_del: "get_row (fold del_row ks t) x = (if x \<in> set ks then None else get_row t x)"
  by (induction ks arbitrary: t) auto

lemma UpsertTombstone_new:
  assumes "UpsertTombstone now k reason nb db = Inr db'" "x \<noteq> k"
  shows "get_row (db_tombstones db') x = get_row (db_tombstones db) x"
  using assms by (auto simp: UpsertTombstone_def Let_def split: prod.splits if_splits)

lemma restore_tombstones_undone:
  "restore_tombstones now row target olds tombs db = Inr (db', tombs') \<Longrightarrow>
    get_row (fold del_row tombs' (db_tombstones db')) = get_row (fold del_row tombs (db_tombstones db))"
proof (induction olds arbitrary: tombs db)
  case (Cons old olds)
  let ?k = "(sb_id row, old, sb_incarnation row)"
  show ?case
  proof (cases "old = [] \<or> old = target \<or> containsKey tombs old \<or> get_row (db_tombstones db) ?k \<noteq> None")
    case True
    then have "restore_tombstones now row target olds tombs db = Inr (db', tombs')"
      using Cons.prems by (auto simp: GetTombstone_def Let_def split: if_splits)
    then show ?thesis by (rule Cons.IH)
  next
    case False
    then obtain db1 where up: "UpsertTombstone now ?k (''restored on '' @ target) 0 db = Inr db1"
      and rest: "restore_tombstones now row target olds (tombs @ [?k]) db1 = Inr (db', tombs')"
      using Cons.prems by (auto simp: GetTombstone_def Let_def bindE_Inr_iff)
    have "get_row (fold del_row (tombs @ [?k]) (db_tombstones db1)) = get_row (fold del_row tombs (db_tombstones db))"
      using False UpsertTombstone_new [OF up] by (auto simp: get_fold_del fun_eq_iff simp del: fold_append)
    then show ?thesis using Cons.IH [OF rest] by simp
  qed
qed simp

lemma begin_fresh_read:
  assumes inv: "db_inv db" and row: "get_row (db_sandboxes db) i = Some row"
    and ok: "begin_fresh e env it target row db = Inr (db', h, evs)"
  shows "h_read h = \<lparr>rd_state = Some (sb_client_state row), rd_node = sb_node row, rd_lost_from = sb_lost_from row,
      rd_materialised = sb_materialised row\<rparr>" and "\<not> h_takeover h" and "h_preempted h = uuid_nil"
    and "get_row (fold del_row (h_tombstones h) (db_tombstones db')) = get_row (db_tombstones db)"
proof -
  obtain db1 db2 db3 tombs w es where bk: "begin_booked e env it target row db = Inr db1"
    and ts: "(if it_kind it = OpRestore then restore_tombstones (tx_now env) row target [sb_node row, sb_lost_from row] [] db1
      else Inr (db1, [])) = Inr (db2, tombs)"
    and up: "UpdateSandbox (tx_now env) row (begin_row e env it target row) db2 = Inr (db3, w)"
    and sync: "syncBooking (tx_now env) row w False db3 = Inr (db', es)"
    and h: "h = (newHandle e env w (it_kind it) (it_trigger it) target (tm_op_deadline (e_t e) (it_kind it) (sb_memory_mib row)))
      \<lparr>h_read := \<lparr>rd_state = Some (sb_client_state row), rd_node = sb_node row, rd_lost_from = sb_lost_from row,
         rd_materialised = sb_materialised row\<rparr>, h_tombstones := tombs,
       h_no_abandon := it_kind it = OpHibernate \<and> noAbandon (it_trigger it) target db\<rparr>"
    using begin_fresh_steps [OF ok] .
  show "h_read h = \<lparr>rd_state = Some (sb_client_state row), rd_node = sb_node row, rd_lost_from = sb_lost_from row,
      rd_materialised = sb_materialised row\<rparr>" "\<not> h_takeover h" "h_preempted h = uuid_nil" using h by simp_all
  have "db_tombstones db1 = db_tombstones db"
    using begin_booked_inv(2) [OF inv row bk] by (metis registry.select_convs(5) registry.surjective registry.update_convs(4))
  moreover have "get_row (fold del_row tombs (db_tombstones db2)) = get_row (db_tombstones db1)"
    using ts restore_tombstones_undone [of _ _ _ _ "[]" db1] by (auto simp del: restore_tombstones.simps split: if_splits)
  ultimately show "get_row (fold del_row (h_tombstones h) (db_tombstones db')) = get_row (db_tombstones db)"
    using h UpdateSandbox_tombstones [OF up] syncBooking_tombstones [OF sync] by simp
qed

text \<open>C5: The rollback of an op of which nothing was sent undoes its begin: the sandbox has no op and is in the state,
  on the node, with the lost-from node and the pod the begin found, the tombstones are what they were (those a restore
  wrote are gone, those of earlier decisions stay), no other sandbox changed, and the booking follows the state
  again.\<close>

theorem rollback_undoes_begin:
  assumes inv: "db_inv db" and new: "tx_uuid env \<noteq> uuid_nil"
    and row: "get_row (db_sandboxes db) i = Some row" and op: "sb_op row = None"
    and ok: "beginOn e r env i it target db = Inr (db1, h, evs)"
    and rb: "rollbackOnce e env' h cause db1 = Inr (db2, result, ac, evs')"
  shows "db_inv db2 \<and> only_row i db db2 \<and> get_row (db_tombstones db2) = get_row (db_tombstones db)
    \<and> (\<exists>w. get_row (db_sandboxes db2) i = Some w \<and> no_op w \<and> sb_client_state w = sb_client_state row
      \<and> sb_node w = sb_node row \<and> sb_lost_from w = sb_lost_from row \<and> sb_materialised w = sb_materialised row)"
proof -
  have "begin_fresh e env it target row db = Inr (db1, h, evs)"
    using ok by (cases rule: beginOn_cases) (use row op in auto)
  note read = begin_fresh_read [OF inv row this]
  obtain row1 where b: "db_inv db1" "handle_ok h" "h_id h = i" "only_row i db db1"
    and row1: "get_row (db_sandboxes db1) (h_id h) = Some row1" "op_of h row1"
    using beginOn_begun [OF inv new ok] by (auto simp: begun_def)
  note undo = rollbackOnce_owner [OF b(1) row1 b(2) rb]
  obtain w x where w: "get_row (db_sandboxes db2) i = Some w" "no_op w"
    "w = written_row (tx_now env') row1 ((rollback_row e h cause row1)\<lparr>sb_run_id := x\<rparr>) row1"
    using undo(3) b(3) by auto
  have "sb_client_state w = sb_client_state row \<and> sb_node w = sb_node row \<and> sb_lost_from w = sb_lost_from row
    \<and> sb_materialised w = sb_materialised row"
    using w(3) read(1-3) by (simp add: rollback_row_def Let_def)
  moreover have "only_row i db db2" using only_row_trans [OF b(4)] undo(2) b(3) by simp
  ultimately show ?thesis using undo(1,4) read w(1,2) by auto
qed

subsection \<open>Witnesses\<close>

definition sample_handle :: "uuid \<Rightarrow> op_handle" where
  "sample_handle op = (newHandle sample_engine sample_env sample_running OpPause TriggerExplicit ''n1'' (2 * second))
    \<lparr>h_op_id := op, h_read := \<lparr>rd_state = Some StateRunning, rd_node = ''n1'', rd_lost_from = [], rd_materialised = True\<rparr>\<rparr>"

definition sample_call :: call_result where
  "sample_call = \<lparr>cr_err = None, cr_skipped = False, cr_postponed = False, cr_restored = False, cr_memory_restored = False,
    cr_reason = [], cr_checkpoint = None\<rparr>"

definition sample_pod_info :: "pod_state \<Rightarrow> pod_info" where
  "sample_pod_info s = \<lparr>pi_labels = [(LabelSandbox, sample_pod), (LabelIncarnation, ''five'')], pi_state = s, pi_reason = [],
    pi_ipv6_address = [], pi_checkpoint = None, pi_hibernation = None\<rparr>"

definition sample_observation :: "pod_state \<Rightarrow> observation" where
  "sample_observation s = \<lparr>obs_answered = True, obs_info = Some (sample_pod_info s)\<rparr>"

lemma sample_pausing:
  "db_inv sample_pausing_db"
  "get_row (db_sandboxes sample_pausing_db) (h_id (sample_handle op)) = Some (the (get_row (db_sandboxes sample_pausing_db) sample_pod))"
  "op_of (sample_handle 9) (the (get_row (db_sandboxes sample_pausing_db) sample_pod))"
  "\<not> owns (sample_handle 8) (get_row (db_sandboxes sample_pausing_db) (h_id (sample_handle 8)))"
  by (rule inv_check_inv, code_simp)
    (simp_all add: sample_pausing_db_def sample_handle_def newHandle_def sample_running_def sample_sandbox_def new_row_def
      sample_new_def get_row_def op_of_def owns_def)


theorem finish_ends_op_witness:
  "\<exists>db' result ac evs. finishOnce sample_engine sample_env (sample_handle 9) sample_call (sample_observation POD_STATE_SUSPENDED)
      sample_pausing_db = Inr (db', result, ac, evs) \<and> db_inv db' \<and> or_state result = Some StatePaused"
proof -
  have "case finishOnce sample_engine sample_env (sample_handle 9) sample_call (sample_observation POD_STATE_SUSPENDED)
      sample_pausing_db of Inl _ \<Rightarrow> False | Inr (_, result, _) \<Rightarrow> or_state result = Some StatePaused" by code_simp
  then obtain db' result ac evs where f: "finishOnce sample_engine sample_env (sample_handle 9) sample_call
      (sample_observation POD_STATE_SUSPENDED) sample_pausing_db = Inr (db', result, ac, evs)" "or_state result = Some StatePaused"
    by (auto split: sum.splits prod.splits)
  then show ?thesis using finish_ends_op [OF sample_pausing(1,2,3) f(1)] by blast
qed

theorem rollback_undoes_begin_witness:
  "\<exists>db1 h evs db2 result ac evs'.
    beginOn sample_engine sample_runner sample_env sample_pod (sample_intent OpCreate ''n1'') ''n1'' sample_db = Inr (db1, h, evs)
    \<and> rollbackOnce sample_engine sample_env h None db1 = Inr (db2, result, ac, evs')
    \<and> get_row (db_tombstones db2) = get_row (db_tombstones sample_db)"
proof -
  have "case beginOn sample_engine sample_runner sample_env sample_pod (sample_intent OpCreate ''n1'') ''n1'' sample_db of
      Inl _ \<Rightarrow> False | Inr (db1, h, evs) \<Rightarrow>
        (case rollbackOnce sample_engine sample_env h None db1 of Inl _ \<Rightarrow> False | Inr _ \<Rightarrow> True)" by code_simp
  then obtain db1 h evs db2 result ac evs' where
    b: "beginOn sample_engine sample_runner sample_env sample_pod (sample_intent OpCreate ''n1'') ''n1'' sample_db = Inr (db1, h, evs)"
    and rb: "rollbackOnce sample_engine sample_env h None db1 = Inr (db2, result, ac, evs')"
    by (auto split: sum.splits prod.splits)
  have "get_row (db_sandboxes sample_db) sample_pod = Some sample_sandbox" "sb_op sample_sandbox = None"
    "tx_uuid sample_env \<noteq> uuid_nil"
    by (simp_all add: sample_db_def sample_sandbox_def new_row_def get_row_def sample_env_def)
  then show ?thesis using rollback_undoes_begin [OF sample_inv(1) _ _ _ b rb] b rb by blast
qed

end
