(* ===== verification/Sync.thy ===== *)
theory Sync
  imports Finish
begin

text \<open>
  Syncs and reconciles, from \<open>go/internal/sandbox/sync.go\<close> and \<open>reconcile.go\<close>: what a node says of a pod is applied
  to the row it was asked for, unless the row changed meanwhile or an op runs; a reconcile compares a node's list of
  pods with the rows. The single flight of the syncs of a sandbox (\<open>requestSync\<close>) is a small machine of its own.
\<close>

section \<open>One sync\<close>

record sync_effect =
  se_applied :: bool
  se_deferred :: bool
  se_tombstones :: "tombstone_key list"

definition applySync :: "engine \<Rightarrow> txenv \<Rightarrow> sandbox \<Rightarrow> observation \<Rightarrow> registry \<Rightarrow> err + registry \<times> sync_effect \<times> event list" where
  "applySync e env read obs db =
    (case get_row (db_sandboxes db) (sb_id read) of
       None \<Rightarrow> Inr (db, \<lparr>se_applied = True, se_deferred = False, se_tombstones = []\<rparr>, [])
     | Some row \<Rightarrow>
         if sb_op row \<noteq> None then Inr (db, \<lparr>se_applied = False, se_deferred = True, se_tombstones = []\<rparr>, [])
         else if sb_gen row \<noteq> sb_gen read \<or> sb_incarnation row \<noteq> sb_incarnation read \<or> sb_node row \<noteq> sb_node read
         then Inr (db, \<lparr>se_applied = False, se_deferred = False, se_tombstones = []\<rparr>, [])
         else let c = observe e (tx_now env) (sb_node row) obs db (newChange row);
                  db0 = (if ours e (sb_incarnation row) obs
                    then fst (DeleteTombstone (sb_id row, sb_node row, sb_incarnation row) db) else db) in
              bindE (commit env c db0) (\<lambda>(db', w, evs).
                Inr (db', \<lparr>se_applied = True, se_deferred = False, se_tombstones = tombstoneKeys c\<rparr>, evs)))"

text \<open>One round of \<open>syncOnce\<close>: what it meets (the registry it reads, the connection, the node's answer, or \<^term>\<open>None\<close>
  for an error, and the registry of its transaction), and how it ends.\<close>

record sync_meets =
  sm_read :: registry
  sm_connected :: bool
  sm_answer :: "observation option"
  sm_env :: txenv
  sm_db :: registry

datatype sync_end =
    SyncNothing
  | SyncDeferred sandbox
  | SyncReconcile string
  | SyncFailed
  | SyncWrote registry sync_effect "event list"
  | SyncAgain

definition sync_round :: "engine \<Rightarrow> podID \<Rightarrow> sync_meets \<Rightarrow> sync_end" where
  "sync_round e i m =
    (case get_row (db_sandboxes (sm_read m)) i of
       None \<Rightarrow> SyncNothing
     | Some row \<Rightarrow>
         if sb_op row \<noteq> None then SyncDeferred row
         else if sb_node row = [] then SyncNothing
         else if \<not> sm_connected m then SyncReconcile (sb_node row)
         else (case sm_answer m of
           None \<Rightarrow> SyncFailed
         | Some obs \<Rightarrow>
             (case applySync e (sm_env m) row obs (sm_db m) of
                Inl _ \<Rightarrow> SyncFailed
              | Inr (db', eff, evs) \<Rightarrow> if se_applied eff \<or> se_deferred eff then SyncWrote db' eff evs else SyncAgain)))"

definition syncOnce :: "engine \<Rightarrow> podID \<Rightarrow> sync_meets \<Rightarrow> sync_meets \<Rightarrow> sync_end" where
  "syncOnce e i m1 m2 =
    (case sync_round e i m1 of
       SyncAgain \<Rightarrow> (case sync_round e i m2 of SyncAgain \<Rightarrow> SyncNothing | r \<Rightarrow> r)
     | r \<Rightarrow> r)"

section \<open>Reconcile\<close>

definition orphan_reason :: "engine \<Rightarrow> string \<Rightarrow> uuid \<Rightarrow> sandbox option \<Rightarrow> string" where
  "orphan_reason e n inc row =
    (case row of
       None \<Rightarrow> ''no sandbox has this pod''
     | Some r \<Rightarrow>
         if sb_node r \<noteq> n \<and> sb_op_target r \<noteq> n then ''its sandbox is placed elsewhere''
         else if sb_incarnation r \<noteq> inc \<and> sb_op r = None then staleReason e inc
         else [])"

text \<open>One of ferund's pods the node listed; \<open>snap\<close> is the snapshot of the rows taken before the list.\<close>

definition reconcilePod :: "engine \<Rightarrow> txenv \<Rightarrow> string \<Rightarrow> podID \<Rightarrow> pod_info \<Rightarrow> (podID, sandbox) tbl \<Rightarrow> registry
    \<Rightarrow> err + registry \<times> tombstone_key list \<times> event list" where
  "reconcilePod e env n i p snap db =
    (let inc = podIncarnation e p; row = get_row (db_sandboxes db) i; orphan = orphan_reason e n inc row in
     if orphan \<noteq> [] then
       bindE (UpsertTombstone (tx_now env) (i, n, inc) orphan 0 db) (\<lambda>db'.
         Inr (db', [(i, n, inc)],
           [tombstone_event i (case row of None \<Rightarrow> [] | Some r \<Rightarrow> sb_owner r) n orphan]))
     else case row of
       None \<Rightarrow> Inr (db, [], [])
     | Some r \<Rightarrow>
         if sb_incarnation r \<noteq> inc \<or> sb_node r \<noteq> n \<or> sb_op r \<noteq> None
            \<or> (case get_row snap i of None \<Rightarrow> True | Some s \<Rightarrow> sb_gen s \<noteq> sb_gen r)
         then Inr (db, [], [])
         else let c = observe e (tx_now env) n \<lparr>obs_answered = True, obs_info = Some p\<rparr> db (newChange r) in
           bindE (commit env c (fst (DeleteTombstone (i, n, inc) db))) (\<lambda>(db', w, evs). Inr (db', tombstoneKeys c, evs)))"

definition reconcileMissing :: "engine \<Rightarrow> txenv \<Rightarrow> string \<Rightarrow> sandbox \<Rightarrow> registry \<Rightarrow> err + registry \<times> event list" where
  "reconcileMissing e env n s db =
    (case get_row (db_sandboxes db) (sb_id s) of
       None \<Rightarrow> Inr (db, [])
     | Some row \<Rightarrow>
         if sb_gen row \<noteq> sb_gen s \<or> sb_op row \<noteq> None \<or> sb_node row \<noteq> n \<or> sb_incarnation row \<noteq> sb_incarnation s
         then Inr (db, [])
         else bindE (commit env (observe e (tx_now env) n \<lparr>obs_answered = True, obs_info = None\<rparr> db (newChange row)) db)
           (\<lambda>(db', w, evs). Inr (db', evs)))"

text \<open>What \<open>ReconcileNode\<close> does with the list: the pods of ferund it decides about, and the rows of the snapshot the
  list lacks.\<close>

definition ferun_pods :: "(string \<times> pod_info) list \<Rightarrow> (podID \<times> pod_info) list" where
  "ferun_pods listed = concat (map (\<lambda>(s, p). if isFerunPod p then (case Parse s of None \<Rightarrow> [] | Some i \<Rightarrow> [(i, p)]) else []) listed)"

definition missing_rows :: "string \<Rightarrow> sandbox list \<Rightarrow> (podID \<times> pod_info) list \<Rightarrow> sandbox list" where
  "missing_rows n rows pods = filter (\<lambda>r. sb_node r = n \<and> sb_id r \<notin> set (map fst pods)) rows"

text \<open>The whole of it, each pod and each missing row in a transaction of its own, \<open>env k\<close> the environment of the
  \<open>k\<close>th; a failed transaction leaves the registry and does not stop the others. The result says whether all passed,
  in which case the node is marked reconciled.\<close>

fun reconcile_pods :: "engine \<Rightarrow> (nat \<Rightarrow> txenv) \<Rightarrow> nat \<Rightarrow> string \<Rightarrow> (podID \<times> pod_info) list \<Rightarrow> (podID, sandbox) tbl \<Rightarrow> registry
    \<Rightarrow> registry \<times> bool" where
  "reconcile_pods e env k n [] snap db = (db, True)"
| "reconcile_pods e env k n ((i, p) # ps) snap db =
    (case reconcilePod e (env k) n i p snap db of
       Inl _ \<Rightarrow> (case reconcile_pods e env (Suc k) n ps snap db of (db', _) \<Rightarrow> (db', False))
     | Inr (db1, _) \<Rightarrow> reconcile_pods e env (Suc k) n ps snap db1)"

fun reconcile_missing :: "engine \<Rightarrow> (nat \<Rightarrow> txenv) \<Rightarrow> nat \<Rightarrow> string \<Rightarrow> sandbox list \<Rightarrow> registry \<Rightarrow> registry \<times> bool" where
  "reconcile_missing e env k n [] db = (db, True)"
| "reconcile_missing e env k n (r # rs) db =
    (case reconcileMissing e (env k) n r db of
       Inl _ \<Rightarrow> (case reconcile_missing e env (Suc k) n rs db of (db', _) \<Rightarrow> (db', False))
     | Inr (db1, _) \<Rightarrow> reconcile_missing e env (Suc k) n rs db1)"

definition SetReconciled :: "gotime \<Rightarrow> string \<Rightarrow> string \<Rightarrow> registry \<Rightarrow> registry" where
  "SetReconciled now n hash db = db\<lparr>
    db_nodes := map_rows (\<lambda>k _. k = n) (\<lambda>nd. nd\<lparr>n_reconciled_at := now\<rparr>) (db_nodes db),
    db_telemetry := map_rows (\<lambda>k _. k = n) (\<lambda>t. t\<lparr>t_reconciled_hash := hash\<rparr>) (db_telemetry db)\<rparr>"

definition ReconcileNode :: "engine \<Rightarrow> (nat \<Rightarrow> txenv) \<Rightarrow> string \<Rightarrow> (string \<times> pod_info) list \<Rightarrow> registry \<Rightarrow> registry \<times> bool" where
  "ReconcileNode e env n listed db =
    (let rows = SandboxesOfNode n db; snap = map (\<lambda>r. (sb_id r, r)) rows; pods = ferun_pods listed;
         hash = (case get_row (db_telemetry db) n of None \<Rightarrow> [] | Some t \<Rightarrow> t_inventory_hash t) in
     case reconcile_pods e env 0 n pods snap db of (db1, ok1) \<Rightarrow>
     case reconcile_missing e env (length pods) n (missing_rows n rows pods) db1 of (db2, ok2) \<Rightarrow>
       if ok1 \<and> ok2 then (SetReconciled (tx_now (env (length pods + length rows))) n hash db2, True) else (db2, False))"

text \<open>The lines whose SHA-256 is \<open>RegistryHash\<close>.\<close>

definition registry_lines :: "string \<Rightarrow> registry \<Rightarrow> string" where
  "registry_lines n db = concat (map (\<lambda>(i, s). i @ '' '' @
      pod_state_text (if s = StatePaused then POD_STATE_SUSPENDED else POD_STATE_RUNNING) @ [CHR 0x0A]) (SteadyPods n db))"

section \<open>Lemmas\<close>

lemma observeOurs_after:
  "sb_node (ch_after (observeOurs now n p db c)) = n" "sb_materialised (ch_after (observeOurs now n p db c)) = True"
  "no_op (ch_after (observeOurs now n p db c)) = no_op (ch_after c)" "ch_before (observeOurs now n p db c) = ch_before c"
  "sb_incarnation (ch_after (observeOurs now n p db c)) = sb_incarnation (ch_after c)"
  "sb_client_state (ch_after (observeOurs now n p db c)) =
    (if pi_state p = POD_STATE_UNSPECIFIED then sb_client_state (ch_after c) else pod_client_state (pi_state p))"
  by (cases "pi_state p"; simp add: observeOurs_def Let_def mergeCheckpoint_def pod_client_state_def)+

text \<open>An observation of the row's node leaves a proper row.\<close>

lemma observe_ok:
  assumes row: "row_ok r" and op: "sb_op r = None" and node: "sb_node r = n" "n \<noteq> []"
  shows "row_ok (ch_after (observe e now n obs db (newChange r)))"
    and "bookingOf (sb_client_state (ch_after (observe e now n obs db (newChange r)))) = bookUnchanged \<Longrightarrow>
      sb_node (ch_after (observe e now n obs db (newChange r))) = sb_node r"
    and "ch_before (observe e now n obs db (newChange r)) = r"
    and "sb_op (ch_after (observe e now n obs db (newChange r))) = None"
    and "sb_incarnation (ch_after (observe e now n obs db (newChange r))) = sb_incarnation r"
proof -
  have c: "no_op r" "sb_client_state r \<in> settled_states" "sb_client_state r \<noteq> StatePending"
    using row op node by (auto simp: row_ok_def no_op_def settled_states_def place_ok_def split: option.splits)
      (cases "sb_client_state r"; simp)
  have ours: "row_ok (ch_after (observeOurs now n p db (newChange r)))" for p
    by (rule row_ok_no_op) (use c node pod_client_state_settled in \<open>auto simp: observeOurs_after place_ok_def\<close>)
  have nf: "row_ok (ch_after (notFound e n why c0))" "bookingOf (sb_client_state (ch_after (notFound e n why c0))) \<noteq> bookUnchanged"
    if "ch_after c0 = r" for c0 why
    by (rule notFound_ok; use that c node in simp)+
  show "row_ok (ch_after (observe e now n obs db (newChange r)))"
    using ours nf(1) by (auto simp: observe_def simp del: notFound_after split: option.splits)
  show "sb_node (ch_after (observe e now n obs db (newChange r))) = sb_node r"
    if "bookingOf (sb_client_state (ch_after (observe e now n obs db (newChange r)))) = bookUnchanged"
    using that nf(2) node by (auto simp: observe_def observeOurs_after simp del: notFound_after split: option.splits if_splits)
  show "ch_before (observe e now n obs db (newChange r)) = r"
    by (simp add: observe_def observeOurs_after split: option.splits)
  have "no_op (ch_after (observe e now n obs db (newChange r)))"
    using c(1) by (simp add: observe_def observeOurs_after split: option.splits)
  then show "sb_op (ch_after (observe e now n obs db (newChange r))) = None" by (simp add: no_op_def)
  show "sb_incarnation (ch_after (observe e now n obs db (newChange r))) = sb_incarnation r"
    by (simp add: observe_def observeOurs_after split: option.splits)
qed

lemma DeleteTombstone_inv: "inv_but X db \<Longrightarrow> inv_but X (fst (DeleteTombstone k db))"
  by (simp add: DeleteTombstone_def inv_tombstones inv_keyed tbl.keyed_remove)

lemma DeleteTombstone_row [simp]:
  "db_sandboxes (fst (DeleteTombstone k db)) = db_sandboxes db" "only_row i a (fst (DeleteTombstone k db)) = only_row i a db"
  "db_nodes (fst (DeleteTombstone k db)) = db_nodes db"
  by (simp_all add: DeleteTombstone_def)

text \<open>The commit of an observation of the row's own node.\<close>

lemma observe_commit:
  assumes inv: "db_inv db" "db_inv db0" "db_sandboxes db0 = db_sandboxes db" "only_row (sb_id r) db db0"
    and row: "get_row (db_sandboxes db) (sb_id r) = Some r" and op: "sb_op r = None" and node: "sb_node r = n" "n \<noteq> []"
    and com: "commit env (observe e (tx_now env) n obs db (newChange r)) db0 = Inr (db', w, evs)"
  shows "db_inv db'" and "only_row (sb_id r) db db'"
    and "get_row (db_sandboxes db') (sb_id r) = Some w" and "sb_op w = None" and "sb_incarnation w = sb_incarnation r"
proof -
  have rok: "row_ok r" using inv_row [OF inv(1) row] by simp
  let ?c = "observe e (tx_now env) n obs db (newChange r)"
  note ok = observe_ok [OF rok op node, of e "tx_now env" obs db]
  show "db_inv db'" by (rule commit_inv [OF inv(2) _ ok(1) _ com]) (use ok inv(3) row in auto)
  have b: "get_row (db_sandboxes db0) (sb_id (ch_before ?c)) = Some (ch_before ?c)" using ok(3) row inv(3) by simp
  note cr = commit_row [OF b com]
  show "only_row (sb_id r) db db'" using cr(2) ok(3) inv(4) by (auto intro: only_row_trans)
  show "get_row (db_sandboxes db') (sb_id r) = Some w" using cr(1) ok(3) by simp
  show "sb_op w = None" "sb_incarnation w = sb_incarnation r" using cr(3) ok(3,4,5) by auto
qed

lemma applySync_inv [inv_intros]:
  assumes inv: "db_inv db" and node: "sb_node read \<noteq> []"
    and s: "applySync e env read obs db = Inr (db', eff, evs)"
  shows "db_inv db'" and "only_row (sb_id read) db db'"
proof -
  consider "db' = db"
    | row es where "get_row (db_sandboxes db) (sb_id read) = Some row" "sb_op row = None" "sb_node row = sb_node read"
      "\<exists>w. commit env (observe e (tx_now env) (sb_node row) obs db (newChange row))
        (if ours e (sb_incarnation row) obs then fst (DeleteTombstone (sb_id row, sb_node row, sb_incarnation row) db) else db)
        = Inr (db', w, es)"
    using s by (auto simp: applySync_def Let_def bindE_Inr_iff split: option.splits if_splits)
  then have "db_inv db' \<and> only_row (sb_id read) db db'"
  proof cases
    case (2 row es)
    then have i: "sb_id row = sb_id read" using inv_row [OF inv] by blast
    obtain w where com: "commit env (observe e (tx_now env) (sb_node row) obs db (newChange row))
        (if ours e (sb_incarnation row) obs then fst (DeleteTombstone (sb_id row, sb_node row, sb_incarnation row) db) else db)
        = Inr (db', w, es)" using 2 by blast
    show ?thesis
      using observe_commit [OF inv _ _ _ _ 2(2) refl _ com] DeleteTombstone_inv [OF inv] inv 2 i node by (simp split: if_splits)
  qed (use inv in simp)
  then show "db_inv db'" "only_row (sb_id read) db db'" by auto
qed

lemma reconcilePod_inv [inv_intros]:
  assumes inv: "db_inv db" and node: "n \<noteq> []"
    and s: "reconcilePod e env n i p snap db = Inr (db', ks, evs)"
  shows "db_inv db'" and "only_row i db db'"
proof -
  consider "db' = db" | orphan where "UpsertTombstone (tx_now env) (i, n, podIncarnation e p) orphan 0 db = Inr db'"
    | r w es where "get_row (db_sandboxes db) i = Some r" "sb_op r = None" "sb_node r = n"
      "commit env (observe e (tx_now env) n \<lparr>obs_answered = True, obs_info = Some p\<rparr> db (newChange r))
        (fst (DeleteTombstone (i, n, podIncarnation e p) db)) = Inr (db', w, es)"
    using s by (auto simp: reconcilePod_def Let_def bindE_Inr_iff split: option.splits if_splits)
  then have "db_inv db' \<and> only_row i db db'"
  proof cases
    case (2 orphan)
    note only = UpsertTombstone_only [OF 2]
    show ?thesis using inv_tombstones [OF inv] only inv_keyed(3) [OF inv] by (metis only_row_refl only_row_simps(3))
  next
    case (3 r w es)
    then have "sb_id r = i" using inv_row [OF inv] by blast
    then show ?thesis using observe_commit [OF inv DeleteTombstone_inv [OF inv] _ _ _ 3(2,3) node 3(4)] 3(1) by simp
  qed (use inv in simp)
  then show "db_inv db'" "only_row i db db'" by auto
qed

lemma reconcileMissing_inv [inv_intros]:
  assumes inv: "db_inv db" and node: "n \<noteq> []" and s: "reconcileMissing e env n r0 db = Inr (db', evs)"
  shows "db_inv db'" and "only_row (sb_id r0) db db'"
proof -
  consider "db' = db"
    | r w es where "get_row (db_sandboxes db) (sb_id r0) = Some r" "sb_op r = None" "sb_node r = n"
      "commit env (observe e (tx_now env) n \<lparr>obs_answered = True, obs_info = None\<rparr> db (newChange r)) db = Inr (db', w, es)"
    using s by (auto simp: reconcileMissing_def bindE_Inr_iff split: option.splits if_splits)
  then have "db_inv db' \<and> only_row (sb_id r0) db db'"
  proof cases
    case (2 r w es)
    then have "sb_id r = sb_id r0" using inv_row [OF inv] by blast
    then show ?thesis using observe_commit [OF inv inv refl only_row_refl _ 2(2,3) node 2(4)] 2(1) by simp
  qed (use inv in simp)
  then show "db_inv db'" "only_row (sb_id r0) db db'" by auto
qed

section \<open>A reconcile keeps the invariant\<close>

lemma inv_map_nodes:
  assumes inv: "inv_but X db" and f: "\<And>nd. n_name (f nd) = n_name nd \<and> n_slots (f nd) = n_slots nd \<and>
    VCPUCapacity (f nd) = VCPUCapacity nd \<and> MemoryCapacityMiB (f nd) = MemoryCapacityMiB nd"
  shows "inv_but X (db\<lparr>db_nodes := map_rows P f (db_nodes db), db_telemetry := t\<rparr>)"
proof -
  let ?db = "db\<lparr>db_nodes := map_rows P f (db_nodes db), db_telemetry := t\<rparr>"
  have "nodes_wf ?db" using inv f by (auto simp: inv_but_def tables_ok_def nodes_wf_def map_rows_def keyed_def comp_def case_prod_beta')
  moreover have "capacity_ok ?db"
    using inv f by (auto simp: inv_but_def capacity_ok_def within_capacity_def)
  ultimately show ?thesis using inv by (auto simp: inv_but_def tables_ok_def rows_ok_def books_ok_def)
qed

lemma SetReconciled_inv: "inv_but X db \<Longrightarrow> inv_but X (SetReconciled now n hash db)"
  unfolding SetReconciled_def by (rule inv_map_nodes) (simp_all add: VCPUCapacity_def MemoryCapacityMiB_def)

lemma reconcile_pods_inv: "db_inv db \<Longrightarrow> n \<noteq> [] \<Longrightarrow> db_inv (fst (reconcile_pods e env k n ps snap db))"
  by (induction e env k n ps snap db rule: reconcile_pods.induct)
    (auto split: sum.splits prod.splits dest: reconcilePod_inv(1))

lemma reconcile_missing_inv: "db_inv db \<Longrightarrow> n \<noteq> [] \<Longrightarrow> db_inv (fst (reconcile_missing e env k n rs db))"
  by (induction e env k n rs db rule: reconcile_missing.induct)
    (auto split: sum.splits prod.splits dest: reconcileMissing_inv(1))

lemma ReconcileNode_inv [inv_intros]:
  assumes "db_inv db" "n \<noteq> []"
  shows "db_inv (fst (ReconcileNode e env n listed db))"
  using reconcile_missing_inv [OF reconcile_pods_inv [OF assms] assms(2)]
  by (simp add: ReconcileNode_def Let_def case_prod_beta SetReconciled_inv)

section \<open>A second sync of the same answer\<close>

text \<open>A row that agrees with what its node says of the pod.\<close>

definition agrees :: "string \<Rightarrow> pod_info \<Rightarrow> sandbox \<Rightarrow> bool" where
  "agrees n p w = (sb_node w = n \<and> sb_materialised w \<and> sb_lost_from w = [] \<and> sb_address w = podAddress p
    \<and> (case pi_checkpoint p of None \<Rightarrow> True
       | Some cp \<Rightarrow> cp_head_key cp = [] \<or> epoch64 (cp_epoch cp) < sb_checkpoint_epoch w
           \<or> (epoch64 (cp_epoch cp) = sb_checkpoint_epoch w \<and> cp_head_key cp = sb_checkpoint_head w))
    \<and> (sb_client_state w = StateRunning \<longrightarrow> sb_run_id w \<noteq> [])
    \<and> (case pi_state p of
         POD_STATE_PENDING \<Rightarrow> sb_client_state w = StateCreating \<and> sb_pending_since w \<noteq> 0
       | POD_STATE_RUNNING \<Rightarrow> sb_client_state w = StateRunning \<and> sb_pending_since w = 0
       | POD_STATE_SUSPENDED \<Rightarrow> sb_client_state w = StatePaused \<and> sb_pending_since w = 0 \<and> sb_paused_at w \<noteq> 0 \<and> sb_run_id w = []
       | POD_STATE_HIBERNATED \<Rightarrow> sb_client_state w = StateHibernated \<and> sb_pending_since w = 0 \<and> sb_run_id w = []
       | POD_STATE_STOPPED \<Rightarrow> sb_client_state w = StateStopped \<and> sb_pending_since w = 0 \<and> sb_run_id w = []
           \<and> sb_status_description w = pi_reason p
       | POD_STATE_FAILED \<Rightarrow> sb_client_state w = StateFailed \<and> sb_pending_since w = 0 \<and> sb_run_id w = []
           \<and> sb_status_description w = pi_reason p
       | POD_STATE_UNSPECIFIED \<Rightarrow> True))"

lemma merge_row_agrees:
  assumes "case cp of None \<Rightarrow> True | Some c \<Rightarrow> cp_head_key c = [] \<or> epoch64 (cp_epoch c) < sb_checkpoint_epoch a
     \<or> (epoch64 (cp_epoch c) = sb_checkpoint_epoch a \<and> cp_head_key c = sb_checkpoint_head a)"
  shows "merge_row now cp n db a = a"
proof (cases cp)
  case (Some c)
  with assms have "cp_head_key c = [] \<or> epoch64 (cp_epoch c) < sb_checkpoint_epoch a
     \<or> (epoch64 (cp_epoch c) = sb_checkpoint_epoch a \<and> cp_head_key c = sb_checkpoint_head a)" by simp
  then show ?thesis by (elim disjE conjE) (simp_all add: merge_row_def Some)
qed (simp add: merge_row_def)

lemma merge_row_agrees_after:
  "case cp of None \<Rightarrow> True | Some c \<Rightarrow> cp_head_key c = [] \<or> epoch64 (cp_epoch c) < sb_checkpoint_epoch (merge_row now cp n db a)
     \<or> (epoch64 (cp_epoch c) = sb_checkpoint_epoch (merge_row now cp n db a) \<and> cp_head_key c = sb_checkpoint_head (merge_row now cp n db a))"
  by (auto simp: merge_row_def split: option.splits)

lemma update_self:
  "sb_client_state w = s \<Longrightarrow> w\<lparr>sb_client_state := s\<rparr> = w"
  "sb_status_description w = d \<Longrightarrow> w\<lparr>sb_status_description := d\<rparr> = w"
  "sb_pending_since w = t \<Longrightarrow> w\<lparr>sb_pending_since := t\<rparr> = w"
  "sb_paused_at w = t \<Longrightarrow> w\<lparr>sb_paused_at := t\<rparr> = w"
  "sb_node w = n \<Longrightarrow> w\<lparr>sb_node := n\<rparr> = w"
  "sb_materialised w = m \<Longrightarrow> w\<lparr>sb_materialised := m\<rparr> = w"
  "sb_lost_from w = l \<Longrightarrow> w\<lparr>sb_lost_from := l\<rparr> = w"
  "sb_address w = x \<Longrightarrow> w\<lparr>sb_address := x\<rparr> = w"
  "sb_run_id w = y \<Longrightarrow> w\<lparr>sb_run_id := y\<rparr> = w"
  by (hypsubst, simp)+

lemma observeOurs_agrees:
  assumes "agrees n p w"
  shows "ch_after (observeOurs now n p db (newChange w)) = w"
proof -
  have place: "w\<lparr>sb_node := n, sb_materialised := True, sb_lost_from := [], sb_address := podAddress p\<rparr> = w"
    using assms by (simp add: agrees_def update_self)
  have m: "merge_row now (pi_checkpoint p) n db w = w" by (rule merge_row_agrees) (use assms in \<open>simp add: agrees_def\<close>)
  show ?thesis
    using assms by (cases "pi_state p") (simp_all add: observeOurs_def Let_def mergeCheckpoint_def place m agrees_def update_self)
qed

lemma observeOurs_quiet:
  assumes "agrees n p w"
  shows "commit_runs env (observeOurs now n p db (newChange w)) = observeOurs now n p db (newChange w)"
proof -
  let ?c = "observeOurs now n p db (newChange w)"
  have a: "ch_after ?c = w" by (rule observeOurs_agrees [OF assms])
  have c: "ch_close_run ?c \<noteq> [] \<Longrightarrow> sb_run_id w = []"
    using assms by (cases "pi_state p") (simp_all add: observeOurs_def Let_def mergeCheckpoint_def agrees_def newChange_def upd_def)
  have r: "sb_client_state w = StateRunning \<Longrightarrow> sb_run_id w \<noteq> []" using assms by (simp add: agrees_def)
  have "adopt_run ?c = ?c" using r by (auto simp: adopt_run_def a)
  moreover have "end_run ?c = ?c" using c by (auto simp: end_run_def a)
  moreover have "begin_run env ?c = ?c" using r by (auto simp: begin_run_def a)
  ultimately show ?thesis by (simp add: commit_runs_def)
qed

text \<open>A commit that changes nothing.\<close>

lemma commit_nothing:
  assumes inv: "db_inv db" and w: "get_row (db_sandboxes db) (sb_id w) = Some w" and node: "sb_node w \<noteq> []"
    and c: "commit_runs env c = c" "ch_before c = w" "ch_after c = w" "ch_tombstones c = []" "ch_events c = []" "\<not> ch_ends_processes c"
  shows "commit env c db = Inr (db, w, [])"
proof -
  have up: "UpdateSandbox now w w db = Inr (db, w)" for now
  proof -
    have "fixed_diff w w = None" by (simp add: fixed_diff_None)
    moreover have "\<not> differs w w" by (simp add: differs_def sandboxWritable_def)
    ultimately show ?thesis by (simp add: UpdateSandbox_def)
  qed
  have book: "book_ok (get_row (db_bookings db) (sb_id w)) w" using inv_book_ok [OF inv] w by blast
  have "syncBooking now w w False db = Inr (db, [])" for now
  proof (cases "bookingOf (sb_client_state w)")
    case bookNone
    then have "get_row (db_bookings db) (sb_id w) = None" using book by (auto simp: book_ok_def split: option.splits)
    then show ?thesis using bookNone by (simp add: syncBooking_def DeleteBooking_def del_row_absent)
  next
    case bookMust
    then obtain b where "get_row (db_bookings db) (sb_id w) = Some b" "b_node b = sb_node w"
      using book by (auto simp: book_ok_def split: option.splits)
    then have "sync_must now w db = Inr (db, [])" using node by (simp add: sync_must_def GetBooking_def)
    then show ?thesis using bookMust by (simp add: syncBooking_def)
  qed (simp add: syncBooking_def)
  then show ?thesis unfolding commit_def c Let_def commit_tombstones.simps bindE_simps up using c(6) by simp
qed

text \<open>The run of a committed change: a running row has one, a row whose run was closed has none.\<close>

lemma commit_runs_running:
  "sb_client_state (ch_after c) = StateRunning \<Longrightarrow> ch_close_run c = [] \<Longrightarrow> tx_run_id env \<noteq> [] \<Longrightarrow>
    sb_run_id (ch_after (commit_runs env c)) \<noteq> []"
  by (auto simp: commit_runs_def adopt_run_def end_run_def begin_run_def Let_def)

lemma commit_runs_closed:
  assumes "sb_client_state (ch_after c) \<noteq> StateRunning" "ch_close_run c \<noteq> []"
  shows "sb_run_id (ch_after (commit_runs env c)) = []"
proof -
  have "adopt_run c = c" using assms(1) by (simp add: adopt_run_def)
  moreover have "sb_run_id (ch_after (end_run c)) = []" "sb_client_state (ch_after (end_run c)) \<noteq> StateRunning"
    using assms by (auto simp: end_run_def)
  ultimately show ?thesis by (simp add: commit_runs_def begin_run_def)
qed

lemma observeOurs_runs:
  assumes "tx_run_id env \<noteq> []" "sb_client_state r \<noteq> StatePending"
  shows "sb_client_state (ch_after (observeOurs now n p db (newChange r))) = StateRunning \<Longrightarrow>
      sb_run_id (ch_after (commit_runs env (observeOurs now n p db (newChange r)))) \<noteq> []"
    and "pi_state p \<in> {POD_STATE_SUSPENDED, POD_STATE_HIBERNATED, POD_STATE_STOPPED, POD_STATE_FAILED} \<Longrightarrow>
      sb_run_id (ch_after (commit_runs env (observeOurs now n p db (newChange r)))) = []"
proof -
  let ?c = "observeOurs now n p db (newChange r)"
  have close: "ch_close_run ?c = (case pi_state p of POD_STATE_SUSPENDED \<Rightarrow> ''paused'' | POD_STATE_HIBERNATED \<Rightarrow> ''hibernated''
      | POD_STATE_STOPPED \<Rightarrow> ''stopped'' | POD_STATE_FAILED \<Rightarrow> ''failed'' | _ \<Rightarrow> [])"
    by (cases "pi_state p") (simp_all add: observeOurs_def Let_def mergeCheckpoint_def upd_def newChange_def)
  show "sb_client_state (ch_after ?c) = StateRunning \<Longrightarrow> sb_run_id (ch_after (commit_runs env ?c)) \<noteq> []"
    by (rule commit_runs_running) (use assms close in \<open>cases "pi_state p"; simp add: observeOurs_after pod_client_state_def\<close>)+
  show "pi_state p \<in> {POD_STATE_SUSPENDED, POD_STATE_HIBERNATED, POD_STATE_STOPPED, POD_STATE_FAILED} \<Longrightarrow>
      sb_run_id (ch_after (commit_runs env ?c)) = []"
    by (rule commit_runs_closed) (use close in \<open>auto simp: observeOurs_after pod_client_state_def\<close>)
qed

lemma observeOurs_columns:
  fixes now n p db r
  defines "a \<equiv> ch_after (observeOurs now n p db (newChange r))"
  assumes "now \<noteq> 0"
  shows "sb_lost_from a = []" "sb_address a = podAddress p"
    and "pi_state p = POD_STATE_PENDING \<Longrightarrow> sb_pending_since a \<noteq> 0"
    and "pi_state p \<notin> {POD_STATE_PENDING, POD_STATE_UNSPECIFIED} \<Longrightarrow> sb_pending_since a = 0"
    and "pi_state p = POD_STATE_SUSPENDED \<Longrightarrow> sb_paused_at a \<noteq> 0"
    and "pi_state p = POD_STATE_STOPPED \<or> pi_state p = POD_STATE_FAILED \<Longrightarrow> sb_status_description a = pi_reason p"
    and "\<exists>r'. sb_checkpoint_epoch a = sb_checkpoint_epoch (merge_row now (pi_checkpoint p) n db r')
      \<and> sb_checkpoint_head a = sb_checkpoint_head (merge_row now (pi_checkpoint p) n db r')"
proof -
  have merged: "sb_lost_from (merge_row now cp n db x) = sb_lost_from x" "sb_address (merge_row now cp n db x) = sb_address x" for cp x
    by (auto simp: merge_row_def split: option.splits)
  show "sb_lost_from a = []" "sb_address a = podAddress p" 
    "pi_state p = POD_STATE_PENDING \<Longrightarrow> sb_pending_since a \<noteq> 0"
    "pi_state p \<notin> {POD_STATE_PENDING, POD_STATE_UNSPECIFIED} \<Longrightarrow> sb_pending_since a = 0"
    "pi_state p = POD_STATE_SUSPENDED \<Longrightarrow> sb_paused_at a \<noteq> 0"
    "pi_state p = POD_STATE_STOPPED \<or> pi_state p = POD_STATE_FAILED \<Longrightarrow> sb_status_description a = pi_reason p"
    using assms(2) by (cases "pi_state p"; simp add: a_def observeOurs_def Let_def mergeCheckpoint_def merged)+
  let ?r = "r\<lparr>sb_node := n, sb_materialised := True, sb_lost_from := [], sb_address := podAddress p\<rparr>"
  have "sb_checkpoint_epoch a = sb_checkpoint_epoch (merge_row now (pi_checkpoint p) n db ?r)
      \<and> sb_checkpoint_head a = sb_checkpoint_head (merge_row now (pi_checkpoint p) n db ?r)"
    by (cases "pi_state p"; simp add: a_def observeOurs_def Let_def mergeCheckpoint_def)
  then show "\<exists>r'. sb_checkpoint_epoch a = sb_checkpoint_epoch (merge_row now (pi_checkpoint p) n db r')
      \<and> sb_checkpoint_head a = sb_checkpoint_head (merge_row now (pi_checkpoint p) n db r')" by blast
qed

lemma observeOurs_tombstones:
  "ch_tombstones (observeOurs now n p db (newChange r)) = []" "ch_events (observeOurs now n p db (newChange r)) = []"
  "\<not> ch_ends_processes (observeOurs now n p db (newChange r))"
  by (cases "pi_state p"; simp add: observeOurs_def Let_def mergeCheckpoint_def upd_def newChange_def)+

lemma observed_agrees:
  assumes r: "row_ok r" "sb_op r = None" "sb_node r = n" "n \<noteq> []" and env: "tx_now env \<noteq> 0" "tx_run_id env \<noteq> []"
    and c: "c = observeOurs (tx_now env) n p db (newChange r)"
  shows "agrees n p (written_row (tx_now env) r (ch_after (commit_runs env c)) r)"
proof -
  obtain x where x: "ch_after (commit_runs env c) = (ch_after c)\<lparr>sb_run_id := x\<rparr>" using commit_runs_after by blast
  have pend: "sb_client_state r \<noteq> StatePending" using r by (auto simp: row_ok_def place_ok_def)
  note runs = observeOurs_runs [OF env(2) pend, where now = "tx_now env" and n = n and p = p and db = db, folded c, unfolded x]
  note cols = observeOurs_columns [OF env(1), where n = n and p = p and db = db and r = r, folded c]
  obtain r' where r': "sb_checkpoint_epoch (ch_after c) = sb_checkpoint_epoch (merge_row (tx_now env) (pi_checkpoint p) n db r')"
    "sb_checkpoint_head (ch_after c) = sb_checkpoint_head (merge_row (tx_now env) (pi_checkpoint p) n db r')" using cols(7) by blast
  have cp: "case pi_checkpoint p of None \<Rightarrow> True
       | Some cp \<Rightarrow> cp_head_key cp = [] \<or> epoch64 (cp_epoch cp) < sb_checkpoint_epoch (ch_after c)
           \<or> (epoch64 (cp_epoch cp) = sb_checkpoint_epoch (ch_after c) \<and> cp_head_key cp = sb_checkpoint_head (ch_after c))"
    unfolding r' by (rule merge_row_agrees_after)
  have st: "sb_client_state (ch_after c) =
      (if pi_state p = POD_STATE_UNSPECIFIED then sb_client_state r else pod_client_state (pi_state p))"
    "sb_node (ch_after c) = n" "sb_materialised (ch_after c)"
    by (simp_all add: c observeOurs_after)
  show ?thesis
    using runs cols(1-6) cp st unfolding agrees_def x
    by (cases "pi_state p") (simp_all add: pod_client_state_def cong: option.case_cong)
qed

text \<open>C6: A sync is idempotent: once an answer of the node about the sandbox's own pod has been applied, the row agrees
  with the answer, and applying the same answer again, at any later time, changes nothing in the registry and
  records no activity.\<close>

theorem sync_idempotent:
  assumes inv: "db_inv db" and read: "get_row (db_sandboxes db) (sb_id read) = Some row" "sb_node read \<noteq> []"
    and obs: "obs = \<lparr>obs_answered = True, obs_info = Some p\<rparr>" "podIncarnation e p = sb_incarnation read"
    and env: "tx_now env \<noteq> 0" "tx_run_id env \<noteq> []"
    and s: "applySync e env read obs db = Inr (db', eff, evs)" "se_applied eff"
  shows "\<exists>w. get_row (db_sandboxes db') (sb_id read) = Some w \<and> agrees (sb_node read) p w
    \<and> (\<forall>env'. \<exists>eff'. applySync e env' w obs db' = Inr (db', eff', []) \<and> se_applied eff' \<and> se_tombstones eff' = [])"
proof -
  have row: "sb_op row = None" "sb_incarnation row = sb_incarnation read" "sb_node row = sb_node read" "sb_id row = sb_id read" "row_ok row"
    using s read(1) inv_row [OF inv read(1)] by (auto simp: applySync_def split: if_splits)
  have o: "ours e (sb_incarnation row) obs" using obs row(2) by (simp add: ours_def)
  let ?k = "(sb_id row, sb_node row, sb_incarnation row)"
  define c where "c = observeOurs (tx_now env) (sb_node row) p db (newChange row)"
  have obsv: "observe e now (sb_node row) obs d (newChange r) = observeOurs now (sb_node row) p d (newChange r)"
    if "sb_incarnation r = sb_incarnation row" for now d r using o obs(1) that by (simp add: observe_def)
  obtain w where com: "commit env c (fst (DeleteTombstone ?k db)) = Inr (db', w, evs)"
    using s read(1) row o obsv [OF refl] by (auto simp: applySync_def c_def bindE_Inr_iff Let_def split: if_splits)
  have before: "ch_before c = row" by (simp add: c_def observeOurs_after)
  have b: "get_row (db_sandboxes (fst (DeleteTombstone ?k db))) (sb_id (ch_before c)) = Some (ch_before c)"
    using read(1) row(4) before by simp
  note cw = commit_written [OF b com, unfolded before]
  have ag: "agrees (sb_node row) p w"
    unfolding cw(3) by (rule observed_agrees [OF row(5,1) refl _ env c_def]) (use row read in simp)
  have inv': "db_inv db'" by (rule applySync_inv(1) [OF inv read(2) s(1)])
  have w: "get_row (db_sandboxes db') (sb_id w) = Some w" "sb_id w = sb_id read" using cw(1,3) row(4) by auto
  have wrow: "sb_op w = None" "sb_incarnation w = sb_incarnation row" "sb_node w = sb_node row"
    using ag cw(3) commit_runs_after [of env c] row(1) observeOurs_after(3,5) [of "tx_now env" "sb_node row" p db "newChange row"] row(5)
    by (auto simp: agrees_def c_def no_op_def row_ok_def)
  have gone: "get_row (db_tombstones db') ?k = None"
    using commit_no_tombstones [OF com] observeOurs_tombstones by (simp add: c_def DeleteTombstone_def)
  have same: "fst (DeleteTombstone ?k db') = db'" using gone by (simp add: DeleteTombstone_def del_row_absent)
  have "\<exists>eff'. applySync e env' w obs db' = Inr (db', eff', []) \<and> se_applied eff' \<and> se_tombstones eff' = []" for env'
  proof -
    let ?c = "observeOurs (tx_now env') (sb_node row) p db' (newChange w)"
    have "commit env' ?c db' = Inr (db', w, [])"
      by (rule commit_nothing [OF inv' w(1)])
        (use ag read row wrow in \<open>simp_all add: observeOurs_quiet observeOurs_agrees observeOurs_after observeOurs_tombstones\<close>)
    then show ?thesis using w wrow row same o obsv by (simp add: applySync_def tombstoneKeys_def Let_def observeOurs_tombstones)
  qed
  then show ?thesis using w ag row by auto
qed

theorem sync_idempotent_witness:
  "\<exists>db' eff evs. applySync sample_engine sample_env sample_running (sample_observation POD_STATE_SUSPENDED) sample_running_db
      = Inr (db', eff, evs)
    \<and> (\<exists>w. get_row (db_sandboxes db') sample_pod = Some w \<and> agrees ''n1'' (sample_pod_info POD_STATE_SUSPENDED) w)"
proof -
  have "case applySync sample_engine sample_env sample_running (sample_observation POD_STATE_SUSPENDED) sample_running_db of
      Inl _ \<Rightarrow> False | Inr (_, eff, _) \<Rightarrow> se_applied eff" by code_simp
  then obtain db' eff evs where s: "applySync sample_engine sample_env sample_running (sample_observation POD_STATE_SUSPENDED)
      sample_running_db = Inr (db', eff, evs)" "se_applied eff"
    by (auto split: sum.splits prod.splits)
  have row: "get_row (db_sandboxes sample_running_db) (sb_id sample_running) = Some sample_running" "sb_node sample_running \<noteq> []"
    "sb_id sample_running = sample_pod" "sb_node sample_running = ''n1''"
    by (simp_all add: sample_running_db_def sample_running_def sample_sandbox_def new_row_def sample_new_def get_row_def)
  have obs: "sample_observation POD_STATE_SUSPENDED = \<lparr>obs_answered = True, obs_info = Some (sample_pod_info POD_STATE_SUSPENDED)\<rparr>"
    "podIncarnation sample_engine (sample_pod_info POD_STATE_SUSPENDED) = sb_incarnation sample_running"
    by (simp add: sample_observation_def) code_simp
  have env: "tx_now sample_env \<noteq> 0" "tx_run_id sample_env \<noteq> []" by (simp_all add: sample_env_def)
  show ?thesis using sync_idempotent [OF sample_inv(2) row(1,2) obs env s] s(1) row(3,4) by auto
qed

end
