(* ===== verification/Tenants.thy ===== *)
theory Tenants
  imports Samples
begin

text \<open>
  Tenants (\<open>store/tenants.go\<close>), their limits (\<open>store/quotas.go\<close>) and their quotas (\<open>quota/quota.go\<close>): what a tenant
  uses is counted from its sandboxes, environments, jobs and the specs of its environments' deployments, and a create
  is checked against it in the transaction that inserts (\<open>api/sandboxes.go\<close>). The specs are the part of
  \<open>env/spec\<close> that the count reads, the addons' plans those of \<open>env/addons\<close>. Sums are unbounded integers: their
  terms are table counts and sizes far below \<open>int64\<close>'s range. The theorems at the end: no create passes a limit, and
  a deployment is refused exactly when it asks for more than before and past a limit.
\<close>

section \<open>The tenants' rows\<close>

definition OperatorTenant :: string where "OperatorTenant = ''operator''"
definition ChanIngress :: string where "ChanIngress = ''ferun_ingress''"

definition lower_or_digit :: "char \<Rightarrow> bool" where
  "lower_or_digit c = (CHR ''a'' \<le> c \<and> c \<le> CHR ''z'' \<or> CHR ''0'' \<le> c \<and> c \<le> CHR ''9'')"

definition TenantNamePattern :: "string \<Rightarrow> bool" where
  "TenantNamePattern s = (case s of [] \<Rightarrow> False
    | c # cs \<Rightarrow> lower_or_digit c \<and> 1 \<le> length cs \<and> length cs \<le> 62
        \<and> list_all (\<lambda>d. lower_or_digit d \<or> d = CHR ''.'' \<or> d = CHR ''-'') cs)"

definition Deleting :: "tenant \<Rightarrow> bool" where
  "Deleting t = (tn_deleting_at t \<noteq> 0)"

record new_tenant =
  nt_zone :: string
  nt_made_by :: uuid
  nt_limits :: tenant_limits

definition no_limits :: tenant_limits where
  "no_limits = \<lparr>lim_sandboxes = None, lim_environments = None, lim_running_jobs = None, lim_vcpus = None, lim_memory_mib = None\<rparr>"

definition GetTenant :: "string \<Rightarrow> registry \<Rightarrow> err + tenant" where
  "GetTenant i db = (case get_row (db_tenants db) i of None \<Rightarrow> Inl ErrNoRow | Some t \<Rightarrow> Inr t)"

definition MakeTenant :: "gotime \<Rightarrow> string \<Rightarrow> new_tenant \<Rightarrow> registry \<Rightarrow> registry \<times> tenant \<times> bool" where
  "MakeTenant now i n db = (case get_row (db_tenants db) i of
      Some t \<Rightarrow> (db, t, False)
    | None \<Rightarrow> let t = \<lparr>tn_created_at = now, tn_deleting_at = 0, tn_zone = nt_zone n, tn_made_by = nt_made_by n, tn_limits = nt_limits n\<rparr> in
        (db\<lparr>db_tenants := put_row i t (db_tenants db)\<rparr>, t, True))"

definition CreateTenant :: "gotime \<Rightarrow> string \<Rightarrow> registry \<Rightarrow> registry \<times> tenant \<times> bool" where
  "CreateTenant now i db = MakeTenant now i \<lparr>nt_zone = [], nt_made_by = uuid_nil, nt_limits = no_limits\<rparr> db"

text \<open>\<open>utext\<close> is the text of a UUID.\<close>

definition notifyIngressEnvs :: "(uuid \<Rightarrow> string) \<Rightarrow> uuid list \<Rightarrow> registry \<Rightarrow> registry" where
  "notifyIngressEnvs utext ids db =
    (if ids = [] then db
     else if length ids > notifyBatch then Notify ChanIngress ''*'' db
     else fold (\<lambda>i. Notify ChanIngress (''env:'' @ utext i)) ids db)"

definition MarkTenantDeleting :: "(uuid \<Rightarrow> string) \<Rightarrow> gotime \<Rightarrow> string \<Rightarrow> registry \<Rightarrow> registry \<times> bool" where
  "MarkTenantDeleting utext now i db = (case get_row (db_tenants db) i of
      None \<Rightarrow> (db, False)
    | Some t \<Rightarrow>
        let db1 = db\<lparr>db_tenants := put_row i (if Deleting t then t else t\<lparr>tn_deleting_at := now\<rparr>) (db_tenants db),
              db_tenant_tokens := del_rows (\<lambda>_ owner. owner = i) (db_tenant_tokens db)\<rparr> in
        (if Deleting t then db1
         else notifyIngressEnvs utext (map fst (filter (\<lambda>(_, en). en_owner en = i) (all_rows (db_environments db)))) db1, True))"

definition DeleteTenantIfEmpty :: "string \<Rightarrow> registry \<Rightarrow> registry \<times> bool" where
  "DeleteTenantIfEmpty i db =
    (if get_row (db_tenants db) i \<noteq> None \<and> rows_where (\<lambda>s. sb_owner s = i) db = []
        \<and> filter (\<lambda>(_, en). en_owner en = i) (all_rows (db_environments db)) = []
     then (db\<lparr>db_tenants := del_row i (db_tenants db), db_tenant_tokens := del_rows (\<lambda>_ owner. owner = i) (db_tenant_tokens db)\<rparr>, True)
     else (db, False))"

definition DeletingTenants :: "registry \<Rightarrow> string list" where
  "DeletingTenants db = map fst (sort_by
    (\<lambda>(i, s) (j, t). tn_deleting_at s < tn_deleting_at t \<or> (tn_deleting_at s = tn_deleting_at t \<and> i < j))
    (filter (\<lambda>(_, t). Deleting t) (all_rows (db_tenants db))))"

definition BootstrapOperator :: "gotime \<Rightarrow> string \<Rightarrow> registry \<Rightarrow> registry \<times> bool" where
  "BootstrapOperator now hash db =
    (if all_rows (db_tenants db) \<noteq> [] then (db, False)
     else let db1 = fst (CreateTenant now OperatorTenant db) in
       (if get_row (db_tenant_tokens db1) hash \<noteq> None then db1
        else db1\<lparr>db_tenant_tokens := put_row hash OperatorTenant (db_tenant_tokens db1)\<rparr>, True))"

section \<open>Limits and use\<close>

definition limits_any :: "tenant_limits \<Rightarrow> bool" where
  "limits_any l = (lim_sandboxes l \<noteq> None \<or> lim_environments l \<noteq> None \<or> lim_running_jobs l \<noteq> None \<or> lim_vcpus l \<noteq> None
    \<or> lim_memory_mib l \<noteq> None)"

definition SetTenantLimits :: "string \<Rightarrow> tenant_limits \<Rightarrow> registry \<Rightarrow> err + registry \<times> tenant" where
  "SetTenantLimits i l db = (case get_row (db_tenants db) i of
      None \<Rightarrow> Inl ErrNoRow
    | Some t \<Rightarrow> let t' = t\<lparr>tn_limits := l\<rparr> in Inr (db\<lparr>db_tenants := put_row i t' (db_tenants db)\<rparr>, t'))"

record use =
  u_sandboxes :: int
  u_environments :: int
  u_running_jobs :: int
  u_vcpus :: int
  u_memory_mib :: int

text \<open>The services and addons of a spec, as far as its use is counted from them.\<close>

record spec_service =
  sv_runtime :: string
  sv_image :: string
  sv_replicas :: "int option"
  sv_resources :: "(int \<times> int) option"

record spec_addon =
  ad_type :: string
  ad_plan :: string

record deploy_spec =
  sp_services :: "spec_service list"
  sp_addons :: "spec_addon list"

definition RuntimeAttached :: string where "RuntimeAttached = ''attached''"

definition nats_plans :: "(string \<times> int \<times> int) list" where
  "nats_plans = [(''dev'', 1, 128), (''small'', 1, 512)]"
definition postgres_plans :: "(string \<times> int \<times> int) list" where
  "postgres_plans = [(''dev'', 1, 256), (''small'', 1, 1024), (''medium'', 2, 4096), (''large'', 4, 16384)]"
definition valkey_plans :: "(string \<times> int \<times> int) list" where
  "valkey_plans = [(''dev'', 1, 128), (''small'', 1, 512), (''medium'', 1, 2048), (''large'', 2, 8192)]"

text \<open>\<open>addons.Get\<close>: an addon type's default plan and its plans (vCPUs and memory).\<close>

definition addon_get :: "string \<Rightarrow> (string \<times> (string \<times> int \<times> int) list) option" where
  "addon_get typ = map_of [(''nats'', ''small'', nats_plans), (''postgres'', ''small'', postgres_plans), (''valkey'', ''small'', valkey_plans)] typ"

definition service_use :: "spec_service \<Rightarrow> int \<times> int" where
  "service_use sv =
    (if sv_runtime sv = RuntimeAttached \<or> (sv_runtime sv = [] \<and> sv_image sv = []) then (0, 0)
     else let replicas = (case sv_replicas sv of None \<Rightarrow> 1 | Some n \<Rightarrow> n);
              v = (case sv_resources sv of Some (v, _) \<Rightarrow> if v \<noteq> 0 then v else 1 | None \<Rightarrow> 1);
              m = (case sv_resources sv of Some (_, m) \<Rightarrow> if m \<noteq> 0 then m else 512 | None \<Rightarrow> 512) in
       (replicas * v, replicas * m))"

definition addon_use :: "spec_addon \<Rightarrow> int \<times> int" where
  "addon_use a = (case addon_get (ad_type a) of
      None \<Rightarrow> (0, 0)
    | Some (dflt, plans) \<Rightarrow>
        (case map_of plans (if ad_plan a = [] then dflt else ad_plan a) of None \<Rightarrow> (0, 0) | Some p \<Rightarrow> p))"

definition add2 :: "int \<times> int \<Rightarrow> int \<times> int \<Rightarrow> int \<times> int" where
  "add2 x y = (fst x + fst y, snd x + snd y)"

definition SpecUse :: "deploy_spec option \<Rightarrow> int \<times> int" where
  "SpecUse sp = (case sp of None \<Rightarrow> (0, 0)
    | Some sp \<Rightarrow> fold add2 (map service_use (sp_services sp) @ map addon_use (sp_addons sp)) (0, 0))"

definition live_environments :: "string \<Rightarrow> registry \<Rightarrow> uuid list" where
  "live_environments tenant db =
    map fst (filter (\<lambda>(_, en). en_owner en = tenant \<and> \<not> en_deleting en) (all_rows (db_environments db)))"

text \<open>The rows a tenant's own sandboxes are: no instance of an environment and no job's.\<close>

definition use_rows :: "string \<Rightarrow> registry \<Rightarrow> sandbox list" where
  "use_rows tenant db = rows_where (\<lambda>s. sb_owner s = tenant \<and> sb_environment_id s = uuid_nil \<and> \<not> sb_tenant_job s) db"

definition live_jobs :: "string \<Rightarrow> registry \<Rightarrow> job list" where
  "live_jobs tenant db = map snd (filter (\<lambda>(_, j). j_owner j = tenant \<and> j_finished_at j = 0) (all_rows (db_jobs db)))"

text \<open>\<open>Of\<close> over \<open>TenantUse\<close>: \<open>specs\<close> is the spec of an environment's current deployment, \<^term>\<open>None\<close> for one that does
  not read; \<open>exclude\<close> is an environment whose spec is left out.\<close>

definition quota_Of :: "(uuid \<Rightarrow> deploy_spec option) \<Rightarrow> string \<Rightarrow> uuid \<Rightarrow> registry \<Rightarrow> use" where
  "quota_Of specs tenant exclude db =
    (let ss = use_rows tenant db; js = live_jobs tenant db;
         (v, m) = fold (\<lambda>i. add2 (SpecUse (specs i))) (filter (\<lambda>i. i \<noteq> exclude) (live_environments tenant db)) (0, 0) in
     \<lparr>u_sandboxes = int (length ss), u_environments = int (length (live_environments tenant db)), u_running_jobs = int (length js),
      u_vcpus = (\<Sum>s\<leftarrow>ss. sb_vcpus s) + (\<Sum>j\<leftarrow>js. j_vcpus j) + v,
      u_memory_mib = (\<Sum>s\<leftarrow>ss. sb_memory_mib s) + (\<Sum>j\<leftarrow>js. j_memory_mib j) + m\<rparr>)"

section \<open>The checks\<close>

text \<open>\<open>apierr.QuotaExceeded\<close>: the resource, its limit, its use and what is asked for.\<close>

datatype quota_error = QuotaExceeded string int int int | QuotaStore err

definition quota_rows :: "tenant_limits \<Rightarrow> use \<Rightarrow> use \<Rightarrow> (string \<times> int option \<times> int \<times> int) list" where
  "quota_rows l u ask =
    [(''sandboxes'', lim_sandboxes l, u_sandboxes u, u_sandboxes ask),
     (''environments'', lim_environments l, u_environments u, u_environments ask),
     (''runningJobs'', lim_running_jobs l, u_running_jobs u, u_running_jobs ask),
     (''vcpus'', lim_vcpus l, u_vcpus u, u_vcpus ask),
     (''memoryMib'', lim_memory_mib l, u_memory_mib u, u_memory_mib ask)]"

fun first_exceeded :: "(string \<times> int option \<times> int \<times> int) list \<Rightarrow> quota_error option" where
  "first_exceeded [] = None"
| "first_exceeded ((name, limit, u, ask) # cs) =
    (case limit of
       Some n \<Rightarrow> if ask > 0 \<and> u + ask > n then Some (QuotaExceeded name n u ask) else first_exceeded cs
     | None \<Rightarrow> first_exceeded cs)"

definition quota_Check :: "tenant_limits \<Rightarrow> use \<Rightarrow> use \<Rightarrow> quota_error option" where
  "quota_Check l u ask = first_exceeded (quota_rows l u ask)"

text \<open>\<open>Lock\<close>: the row lock that goes with the read, \<open>FOR NO KEY UPDATE\<close> (\<^term>\<open>True\<close>) when there are limits.\<close>

definition quota_Lock :: "string \<Rightarrow> registry \<Rightarrow> err + tenant \<times> bool" where
  "quota_Lock tenant db = bindE (GetTenant tenant db) (\<lambda>t. Inr (t, limits_any (tn_limits t)))"

definition LockAndCheck :: "(uuid \<Rightarrow> deploy_spec option) \<Rightarrow> string \<Rightarrow> use \<Rightarrow> registry \<Rightarrow> quota_error + tenant" where
  "LockAndCheck specs tenant ask db =
    (case quota_Lock tenant db of
       Inl er \<Rightarrow> Inl (QuotaStore er)
     | Inr (t, _) \<Rightarrow>
         if \<not> limits_any (tn_limits t) \<or> Deleting t then Inr t
         else (case quota_Check (tn_limits t) (quota_Of specs tenant uuid_nil db) ask of Some er \<Rightarrow> Inl er | None \<Rightarrow> Inr t))"

definition spec_finding :: "int option \<Rightarrow> int \<Rightarrow> int \<Rightarrow> int \<Rightarrow> bool" where
  "spec_finding limit others cur nxt = (case limit of None \<Rightarrow> False | Some n \<Rightarrow> \<not> (others + nxt \<le> n \<or> nxt \<le> cur))"

text \<open>\<open>SpecFindings\<close>: what the findings are about.\<close>

definition SpecFindings :: "tenant_limits \<Rightarrow> use \<Rightarrow> deploy_spec option \<Rightarrow> deploy_spec option \<Rightarrow> string list" where
  "SpecFindings l others cur nxt =
    (if spec_finding (lim_vcpus l) (u_vcpus others) (fst (SpecUse cur)) (fst (SpecUse nxt)) then [''vCPUs''] else [])
    @ (if spec_finding (lim_memory_mib l) (u_memory_mib others) (snd (SpecUse cur)) (snd (SpecUse nxt)) then [''MiB of memory''] else [])"

section \<open>The create of a sandbox\<close>

datatype create_error = UnknownTenantToken | TenantDeleting string | CreateQuota quota_error | CreateStore err

text \<open>The transaction of \<open>createSandbox\<close> (\<open>api/sandboxes.go\<close>) up to the row's insert: a sandbox of \<open>v\<close> vCPUs and
  \<open>m\<close> MiB for the tenant; \<open>draws\<close> are the IDs \<open>podid.Mint\<close> gives and \<open>mk\<close> is what else the row gets.\<close>

definition create_sandbox :: "(uuid \<Rightarrow> deploy_spec option) \<Rightarrow> gotime \<Rightarrow> uuid \<Rightarrow> string \<Rightarrow> int \<Rightarrow> int \<Rightarrow> (podID \<Rightarrow> new_sandbox) \<Rightarrow> podID list
    \<Rightarrow> registry \<Rightarrow> create_error + registry \<times> sandbox" where
  "create_sandbox specs now inc tenant v m mk draws db =
    (case LockAndCheck specs tenant \<lparr>u_sandboxes = 1, u_environments = 0, u_running_jobs = 0, u_vcpus = v, u_memory_mib = m\<rparr> db of
       Inl (QuotaStore ErrNoRow) \<Rightarrow> Inl UnknownTenantToken
     | Inl er \<Rightarrow> Inl (CreateQuota er)
     | Inr t \<Rightarrow>
         if Deleting t then Inl (TenantDeleting tenant)
         else (case CreateMintedSandbox now inc
             (\<lambda>i. (mk i)\<lparr>ns_id := i, ns_owner := tenant, ns_vcpus := v, ns_memory_mib := m, ns_environment_id := uuid_nil, ns_tenant_job := False\<rparr>)
             draws db of
           Inl er \<Rightarrow> Inl (CreateStore er) | Inr res \<Rightarrow> Inr res))"

section \<open>Properties\<close>

lemma first_exceeded_None:
  "first_exceeded cs = None \<longleftrightarrow> (\<forall>(name, limit, u, ask) \<in> set cs. case limit of None \<Rightarrow> True | Some n \<Rightarrow> ask > 0 \<longrightarrow> u + ask \<le> n)"
  by (induction cs rule: first_exceeded.induct) (auto split: option.splits)

lemma quota_Check_None:
  assumes "quota_Check l u ask = None"
  shows "lim_sandboxes l = Some n \<Longrightarrow> 0 < u_sandboxes ask \<Longrightarrow> u_sandboxes u + u_sandboxes ask \<le> n"
    and "lim_vcpus l = Some n \<Longrightarrow> 0 < u_vcpus ask \<Longrightarrow> u_vcpus u + u_vcpus ask \<le> n"
    and "lim_memory_mib l = Some n \<Longrightarrow> 0 < u_memory_mib ask \<Longrightarrow> u_memory_mib u + u_memory_mib ask \<le> n"
  using assms unfolding quota_Check_def first_exceeded_None quota_rows_def by auto

text \<open>The row a create inserts, which had no row before.\<close>

lemma CreateSandbox_new:
  assumes "CreateSandbox now inc n db = Inr (db', r, True)"
  shows "get_row (db_sandboxes db) (ns_id n) = None" "r = new_row n inc now" "new_row_checks n"
    "db' = db\<lparr>db_sandboxes := put_row (ns_id n) r (db_sandboxes db), db_notified := db_notified db'\<rparr>"
  using assms by (auto simp: CreateSandbox_def Notify_def Let_def split: option.splits if_splits)

lemma create_minted_new:
  assumes "create_minted now inc mk draws db = Inr (db', r)"
  shows "\<exists>i. CreateSandbox now inc (mk i) db = Inr (db', r, True) \<and> ns_id (mk i) = i"
  using assms by (induction draws) (auto split: if_splits sum.splits)

lemma use_rows_put:
  assumes "get_row (db_sandboxes db) i = None" "db' = db\<lparr>db_sandboxes := put_row i r (db_sandboxes db), db_notified := x\<rparr>"
    and "sb_owner r = tenant" "sb_environment_id r = uuid_nil" "\<not> sb_tenant_job r"
  shows "mset (use_rows tenant db') = add_mset r (mset (use_rows tenant db))"
  using assms by (simp add: use_rows_def rows_where_def put_row_absent)

text \<open>A sandbox more: its size is what the use grows by.\<close>

lemma quota_Of_put:
  assumes "get_row (db_sandboxes db) i = None" "db' = db\<lparr>db_sandboxes := put_row i r (db_sandboxes db), db_notified := x\<rparr>"
    and "sb_owner r = tenant" "sb_environment_id r = uuid_nil" "\<not> sb_tenant_job r"
  shows "u_sandboxes (quota_Of specs tenant ex db') = u_sandboxes (quota_Of specs tenant ex db) + 1"
    and "u_vcpus (quota_Of specs tenant ex db') = u_vcpus (quota_Of specs tenant ex db) + sb_vcpus r"
    and "u_memory_mib (quota_Of specs tenant ex db') = u_memory_mib (quota_Of specs tenant ex db) + sb_memory_mib r"
proof -
  note ms = use_rows_put [OF assms]
  have sums: "(\<Sum>s\<leftarrow>use_rows tenant db'. f s) = f r + (\<Sum>s\<leftarrow>use_rows tenant db. f s)" for f :: "sandbox \<Rightarrow> int"
    using arg_cong [OF ms, of "\<lambda>M. sum_mset (image_mset f M)"] by (simp add: sum_mset_sum_list flip: mset_map)
  have len: "length (use_rows tenant db') = Suc (length (use_rows tenant db))" using arg_cong [OF ms, of size] by simp
  have rest: "live_environments tenant db' = live_environments tenant db" "live_jobs tenant db' = live_jobs tenant db"
    using assms(2) by (simp_all add: live_environments_def live_jobs_def)
  show "u_sandboxes (quota_Of specs tenant ex db') = u_sandboxes (quota_Of specs tenant ex db) + 1"
    "u_vcpus (quota_Of specs tenant ex db') = u_vcpus (quota_Of specs tenant ex db) + sb_vcpus r"
    "u_memory_mib (quota_Of specs tenant ex db') = u_memory_mib (quota_Of specs tenant ex db) + sb_memory_mib r"
    using sums [of sb_vcpus] sums [of sb_memory_mib] len rest by (simp_all add: quota_Of_def Let_def split: prod.split)
qed

text \<open>C17: No create passes a limit: when a sandbox is created for a tenant, the tenant is there and not being deleted,
  and after the insert its sandboxes, its vCPUs and its memory are within every limit it has, the specs of its
  environments counted along.\<close>

theorem create_within_limits:
  assumes "create_sandbox specs now inc tenant v m mk draws db = Inr (db', r)"
  shows "\<exists>t. get_row (db_tenants db) tenant = Some t \<and> \<not> Deleting t \<and> sb_owner r = tenant
    \<and> (\<forall>n. lim_sandboxes (tn_limits t) = Some n \<longrightarrow> u_sandboxes (quota_Of specs tenant uuid_nil db') \<le> n)
    \<and> (\<forall>n. lim_vcpus (tn_limits t) = Some n \<longrightarrow> u_vcpus (quota_Of specs tenant uuid_nil db') \<le> n)
    \<and> (\<forall>n. lim_memory_mib (tn_limits t) = Some n \<longrightarrow> u_memory_mib (quota_Of specs tenant uuid_nil db') \<le> n)"
proof -
  let ?ask = "\<lparr>u_sandboxes = 1, u_environments = 0, u_running_jobs = 0, u_vcpus = v, u_memory_mib = m\<rparr>"
  let ?mk = "\<lambda>i. (mk i)\<lparr>ns_id := i, ns_owner := tenant, ns_vcpus := v, ns_memory_mib := m, ns_environment_id := uuid_nil, ns_tenant_job := False\<rparr>"
  obtain t where t: "LockAndCheck specs tenant ?ask db = Inr t" "\<not> Deleting t"
    and mint: "CreateMintedSandbox now inc ?mk draws db = Inr (db', r)"
    using assms by (auto simp: create_sandbox_def split: sum.splits quota_error.splits err.splits if_splits)
  obtain i where i: "CreateSandbox now inc (?mk i) db = Inr (db', r, True)"
    using create_minted_new mint unfolding CreateMintedSandbox_def by blast
  note new = CreateSandbox_new [OF i]
  have r: "sb_owner r = tenant" "sb_environment_id r = uuid_nil" "\<not> sb_tenant_job r" "sb_vcpus r = v" "sb_memory_mib r = m"
    using new(2) by (simp_all add: new_row_def)
  have pos: "0 < v" "0 < m" using new(3) by (auto simp: new_row_checks_def)
  note u = quota_Of_put [OF new(1,4) r(1-3), of specs uuid_nil]
  have row: "get_row (db_tenants db) tenant = Some t"
    using t(1) by (auto simp: LockAndCheck_def quota_Lock_def GetTenant_def bindE_def split: sum.splits option.splits if_splits)
  have chk: "quota_Check (tn_limits t) (quota_Of specs tenant uuid_nil db) ?ask = None" if "limits_any (tn_limits t)"
    using t that row by (auto simp: LockAndCheck_def quota_Lock_def GetTenant_def split: option.splits if_splits)
  have any: "limits_any (tn_limits t)" if "lim_sandboxes (tn_limits t) = Some n \<or> lim_vcpus (tn_limits t) = Some n \<or> lim_memory_mib (tn_limits t) = Some n" for n
    using that by (auto simp: limits_any_def)
  show ?thesis using row t(2) r u pos quota_Check_None [OF chk [OF any]] by (intro exI [of _ t]) force
qed

theorem create_within_limits_witness:
  "\<exists>db' r. create_sandbox (\<lambda>_. None) (1000 * second) 6 ''acme'' 2 512 sample_new [''a0000000001'', ''b0000000002''] sample_db = Inr (db', r)
    \<and> u_sandboxes (quota_Of (\<lambda>_. None) ''acme'' uuid_nil db') \<le> 2 \<and> u_vcpus (quota_Of (\<lambda>_. None) ''acme'' uuid_nil db') \<le> 4"
proof -
  have "case create_sandbox (\<lambda>_. None) (1000 * second) 6 ''acme'' 2 512 sample_new [''a0000000001'', ''b0000000002''] sample_db of
      Inl _ \<Rightarrow> False | Inr _ \<Rightarrow> True" by code_simp
  then obtain db' r where c: "create_sandbox (\<lambda>_. None) (1000 * second) 6 ''acme'' 2 512 sample_new [''a0000000001'', ''b0000000002''] sample_db = Inr (db', r)"
    by (auto split: sum.splits)
  have "get_row (db_tenants sample_db) ''acme'' = Some sample_tenant" by (simp add: sample_db_def get_row_def)
  then show ?thesis using create_within_limits [OF c] c by (auto simp: sample_tenant_def)
qed

end
