(* ===== verification/Activity.thy ===== *)
theory Activity
  imports Prelude
begin

text \<open>
  The activity log's rows (\<open>activity/activity.go\<close>): the texts a row may hold (\<open>Clean\<close>, \<open>Name\<close>, \<open>CapOutput\<close> over
  UTF-8, \<open>jsonbNumber\<close> and \<open>storable\<close> for JSON), and the recorder, which queues rows without blocking and flushes
  them in batches, splitting a batch that the database refuses for its content. The theorems: a cleaned text is
  valid UTF-8 without NUL, a cut text stays valid, every queued row is stored or counted as dropped, and a flush
  loses no row but those the database refuses.
\<close>

section \<open>UTF-8\<close>

definition between :: "nat \<Rightarrow> nat \<Rightarrow> char \<Rightarrow> bool" where
  "between lo hi c = (lo \<le> (of_char c :: nat) \<and> (of_char c :: nat) \<le> hi)"

abbreviation cont :: "char \<Rightarrow> bool" where "cont \<equiv> between 128 191"

text \<open>The encoding of one rune.\<close>

definition is_rune :: "string \<Rightarrow> bool" where
  "is_rune r = (case r of
      [a] \<Rightarrow> between 0 127 a
    | [a, b] \<Rightarrow> between 194 223 a \<and> cont b
    | [a, b, c] \<Rightarrow> (between 224 224 a \<and> between 160 191 b \<or> between 225 236 a \<and> cont b \<or> between 237 237 a \<and> between 128 159 b
        \<or> between 238 239 a \<and> cont b) \<and> cont c
    | [a, b, c, d] \<Rightarrow> (between 240 240 a \<and> between 144 191 b \<or> between 241 243 a \<and> cont b \<or> between 244 244 a \<and> between 128 143 b)
        \<and> cont c \<and> cont d
    | _ \<Rightarrow> False)"

text \<open>The width of the valid rune at the start of a string; 0 if there is none (\<open>utf8.DecodeRuneInString\<close> then gives
  \<open>RuneError\<close> of width 1).\<close>

definition rune_len :: "string \<Rightarrow> nat" where
  "rune_len s = (case find (\<lambda>n. n \<le> length s \<and> is_rune (take n s)) [1, 2, 3, 4] of Some n \<Rightarrow> n | None \<Rightarrow> 0)"

lemma rune_len_rune:
  assumes "rune_len s \<noteq> 0"
  shows "rune_len s \<le> length s" "is_rune (take (rune_len s) s)"
  using assms by (auto simp: rune_len_def split: if_splits)

lemma rune_len_le: "rune_len s \<le> length s" "rune_len s \<le> 4"
  by (auto simp: rune_len_def)

text \<open>\<open>utf8.ValidString\<close>.\<close>

function valid_utf8 :: "string \<Rightarrow> bool" where
  "valid_utf8 s = (if s = [] then True else if rune_len s = 0 then False else valid_utf8 (drop (rune_len s) s))"
  by auto
termination by (relation "measure length") auto

declare valid_utf8.simps [simp del]

lemma valid_Nil [simp]: "valid_utf8 []"
  by (simp add: valid_utf8.simps)

text \<open>\<open>strings.ToValidUTF8\<close>: a run of invalid bytes becomes one replacement.\<close>

definition replacement :: string where
  "replacement = map char_of [239, 191, 189 :: nat]"

function to_valid :: "bool \<Rightarrow> string \<Rightarrow> string" where
  "to_valid bad s =
    (if s = [] then []
     else if rune_len s = 0 then (if bad then [] else replacement) @ to_valid True (tl s)
     else take (rune_len s) s @ to_valid False (drop (rune_len s) s))"
  by auto
termination by (relation "measure (length \<circ> snd)") auto

declare to_valid.simps [simp del]

section \<open>The texts of a row\<close>

definition NUL :: char where "NUL = char_of (0 :: nat)"

definition Clean :: "string \<Rightarrow> string" where
  "Clean s = filter (\<lambda>c. c \<noteq> NUL) (to_valid False s)"

definition OutputCap :: nat where "OutputCap = 65536"
definition NameCap :: nat where "NameCap = 120"

text \<open>The ellipsis, U+2026.\<close>

definition ellipsis :: string where
  "ellipsis = map char_of [226, 128, 166 :: nat]"

definition RuneStart :: "char \<Rightarrow> bool" where
  "RuneStart c = (\<not> cont c)"

text \<open>The loop that moves a cut back to a rune boundary.\<close>

fun rune_cut :: "string \<Rightarrow> nat \<Rightarrow> nat" where
  "rune_cut s 0 = 0"
| "rune_cut s (Suc n) = (if RuneStart (s ! Suc n) then Suc n else rune_cut s n)"

definition CapOutput :: "string \<Rightarrow> string \<times> bool" where
  "CapOutput s = (if length s \<le> OutputCap then (s, False) else (take (rune_cut s OutputCap) s, True))"

text \<open>The runes \<open>unicode.IsSpace\<close> takes.\<close>

definition space_runes :: "string list" where
  "space_runes = map (map char_of) ([[9], [10], [11], [12], [13], [32], [194, 133], [194, 160], [225, 154, 128]]
    @ map (\<lambda>n. [226, 128, n]) [128, 129, 130, 131, 132, 133, 134, 135, 136, 137, 138, 168, 169, 175]
    @ [[226, 129, 159], [227, 128, 128 :: nat]])"

text \<open>\<open>strings.Fields\<close>: \<open>w\<close> is the field under way.\<close>

function Fields :: "string \<Rightarrow> string \<Rightarrow> string list" where
  "Fields w s =
    (if s = [] then (if w = [] then [] else [w])
     else let n = max 1 (rune_len s) in
       if take n s \<in> set space_runes then (if w = [] then [] else [w]) @ Fields [] (drop n s)
       else Fields (w @ take n s) (drop n s))"
  by auto
termination by (relation "measure (length \<circ> snd)") (auto simp: max_def)

declare Fields.simps [simp del]

definition trim_right_space :: "string \<Rightarrow> string" where
  "trim_right_space s = rev (dropWhile (\<lambda>c. c = CHR '' '') (rev s))"

definition Name :: "string \<Rightarrow> string" where
  "Name s = (let t = join '' '' (Fields [] (Clean s)) in
     if length t \<le> NameCap then t else trim_right_space (take (rune_cut t (NameCap - length ellipsis)) t) @ ellipsis)"

section \<open>JSON that jsonb takes\<close>

definition jsonbNumberLen :: nat where "jsonbNumberLen = 1000"

definition jsonbNumber :: "string \<Rightarrow> bool" where
  "jsonbNumber n = (length n \<le> jsonbNumberLen
    \<and> (case dropWhile (\<lambda>c. c \<noteq> CHR ''e'' \<and> c \<noteq> CHR ''E'') n of
         [] \<Rightarrow> True
       | _ # ex \<Rightarrow> length (dropWhile (\<lambda>c. c = CHR ''+'' \<or> c = CHR ''-'') ex) \<le> 4))"

text \<open>The scan of \<open>storable\<close> over a document: past a string, and over each number.\<close>

fun skip_string :: "string \<Rightarrow> string" where
  "skip_string [] = []"
| "skip_string (c # s) = (if c = CHR ''\"'' then s else if c = CHR 0x5C then skip_string (tl s) else skip_string s)"

definition number_char :: "char \<Rightarrow> bool" where
  "number_char c = (c \<in> set ''0123456789.eE+-'')"

lemma skip_string_le: "length (skip_string s) \<le> length s"
  by (induction s rule: skip_string.induct) auto

function storable_scan :: "string \<Rightarrow> bool" where
  "storable_scan [] = True"
| "storable_scan (c # s) =
    (if c = CHR ''\"'' then storable_scan (skip_string s)
     else if c = CHR ''-'' \<or> between 48 57 c then
       jsonbNumber (c # takeWhile number_char s) \<and> storable_scan (dropWhile number_char s)
     else storable_scan s)"
  by pat_completeness auto
termination
  by (relation "measure length") (auto simp: le_imp_less_Suc skip_string_le length_dropWhile_le)

definition storable :: "string \<Rightarrow> bool" where
  "storable b = (valid_utf8 b \<and> \<not> contains b [CHR 0x5C, CHR ''u''] \<and> storable_scan b)"

section \<open>The recorder\<close>

definition queueSize :: nat where "queueSize = 4096"
definition maxBatch :: nat where "maxBatch = 256"
definition flushAttempts :: nat where "flushAttempts = 3"

text \<open>The rows waiting, the rows stored and the number of rows dropped.\<close>

record 'r recorder =
  rec_queue :: "'r list"
  rec_stored :: "'r list"
  rec_dropped :: nat

definition Record :: "'r \<Rightarrow> 'r recorder \<Rightarrow> 'r recorder" where
  "Record x r = (if length (rec_queue r) < queueSize then r\<lparr>rec_queue := rec_queue r @ [x]\<rparr>
    else r\<lparr>rec_dropped := rec_dropped r + 1\<rparr>)"

text \<open>\<open>dataError\<close> of an SQLSTATE, \<^term>\<open>None\<close> for an error that is not the database's.\<close>

definition dataError :: "string option \<Rightarrow> bool" where
  "dataError code = (case code of None \<Rightarrow> False | Some c \<Rightarrow> take 2 c \<in> {''22'', ''23'', ''54''})"

text \<open>An insert's answer: stored, or an error with its SQLSTATE. \<open>db k\<close> answers the \<open>k\<close>th insert, which has at
  least one row; \<open>stops k\<close> is whether the recorder stops during the pause after it.\<close>

datatype ins_answer = InsOk | InsError "string option"

definition insert_rows :: "(nat \<Rightarrow> 'r list \<Rightarrow> ins_answer) \<Rightarrow> nat \<Rightarrow> 'r list \<Rightarrow> ins_answer" where
  "insert_rows db k batch = (if batch = [] then InsOk else db k batch)"

lemma half_less:
  assumes "xs \<noteq> []" "length xs \<noteq> Suc 0"
  shows "length xs div 2 < length xs" "0 < length xs div 2"
  using assms by (cases xs rule: list.exhaust; cases "tl xs" rule: list.exhaust; simp)+

text \<open>\<open>flush\<close> from its \<open>attempt\<close>th insert on, which is the \<open>k\<close>th of the recorder: whether it dropped no row but
  refused ones, the recorder, and the number of the next insert.\<close>

function flush :: "(nat \<Rightarrow> 'r list \<Rightarrow> ins_answer) \<Rightarrow> (nat \<Rightarrow> bool) \<Rightarrow> nat \<Rightarrow> nat \<Rightarrow> 'r list \<Rightarrow> 'r recorder \<Rightarrow> bool \<times> 'r recorder \<times> nat" where
  "flush db stops k attempt batch r =
    (case insert_rows db k batch of
       InsOk \<Rightarrow> (True, r\<lparr>rec_stored := rec_stored r @ batch\<rparr>, Suc k)
     | InsError code \<Rightarrow>
         if dataError code \<and> length batch = 1 then (True, r\<lparr>rec_dropped := rec_dropped r + 1\<rparr>, Suc k)
         else if dataError code then
           (let half = length batch div 2 in
            case flush db stops (Suc k) 1 (take half batch) r of (ok, r', k') \<Rightarrow>
              if \<not> ok then (False, r'\<lparr>rec_dropped := rec_dropped r' + (length batch - half)\<rparr>, k')
              else flush db stops k' 1 (drop half batch) r')
         else if flushAttempts \<le> attempt \<or> stops k then (False, r\<lparr>rec_dropped := rec_dropped r + length batch\<rparr>, Suc k)
         else flush db stops (Suc k) (Suc attempt) batch r)"
  by auto
termination
  by (relation "measures [\<lambda>(_, _, _, _, batch, _). length batch, \<lambda>(_, _, _, attempt, _). flushAttempts - attempt]")
    (auto simp: insert_rows_def flushAttempts_def half_less split: if_splits)

declare flush.simps [simp del]

text \<open>\<open>gather\<close>: the next batch of the queue.\<close>

definition gather :: "nat \<Rightarrow> 'r recorder \<Rightarrow> 'r list \<times> 'r recorder" where
  "gather n r = (take n (rec_queue r), r\<lparr>rec_queue := drop n (rec_queue r)\<rparr>)"

definition flush_next :: "(nat \<Rightarrow> 'r list \<Rightarrow> ins_answer) \<Rightarrow> (nat \<Rightarrow> bool) \<Rightarrow> nat \<Rightarrow> 'r recorder \<Rightarrow> 'r recorder \<times> nat" where
  "flush_next db stops k r = (case gather maxBatch r of (batch, r') \<Rightarrow> snd (flush db stops k 1 batch r'))"

section \<open>Valid texts\<close>

lemma rune_len_append: "rune_len a \<noteq> 0 \<Longrightarrow> rune_len (a @ b) = rune_len a"
  by (auto simp: rune_len_def split: if_splits)

lemma is_rune_len:
  assumes "is_rune r"
  shows "rune_len r \<noteq> 0"
proof -
  have "length r \<in> set [1, 2, 3, 4]" using assms by (auto simp: is_rune_def split: list.splits)
  then have "find (\<lambda>n. n \<le> length r \<and> is_rune (take n r)) [1, 2, 3, 4] \<noteq> None"
    using assms unfolding find_None_iff by (metis order_refl take_all)
  then obtain n where n: "find (\<lambda>n. n \<le> length r \<and> is_rune (take n r)) [1, 2, 3, 4] = Some n" by blast
  then have "n \<in> set [1, 2, 3, 4]" by (metis find_Some_iff nth_mem)
  with n show ?thesis by (auto simp: rune_len_def)
qed

lemma rune_len_take: "rune_len s \<noteq> 0 \<Longrightarrow> rune_len (take (rune_len s) s) = rune_len s"
  using rune_len_append [of "take (rune_len s) s" "drop (rune_len s) s"] is_rune_len [OF rune_len_rune(2)] by simp

lemma is_rune_cases:
  assumes "is_rune r"
  obtains a where "r = [a]" "between 0 127 a" | a as where "r = a # as" "between 194 244 a" "list_all cont as"
  using assms by (auto simp: is_rune_def between_def split: list.splits)

lemma valid_append:
  "valid_utf8 a \<Longrightarrow> valid_utf8 (a @ b) = valid_utf8 b"
proof (induction a rule: valid_utf8.induct)
  case (1 a)
  show ?case
  proof (cases "a = []")
    case False
    then have n: "rune_len a \<noteq> 0" "valid_utf8 (drop (rune_len a) a)"
      using "1.prems" by (auto simp: valid_utf8.simps [of a] split: if_splits)
    have "valid_utf8 (a @ b) = valid_utf8 (drop (rune_len a) a @ b)"
      using False n rune_len_le(1) [of a] by (subst valid_utf8.simps) (simp add: rune_len_append)
    then show ?thesis using "1.IH" [OF False n(1) n(2)] by simp
  qed simp
qed

lemma valid_rune: "rune_len s \<noteq> 0 \<Longrightarrow> valid_utf8 (take (rune_len s) s)"
  using rune_len_take [of s] rune_len_le(1) [of s] by (subst valid_utf8.simps) auto

lemma valid_replacement: "valid_utf8 replacement"
  by (simp add: valid_utf8.simps replacement_def rune_len_def is_rune_def between_def)

lemma to_valid_valid: "valid_utf8 (to_valid bad s)"
proof (induction bad s rule: to_valid.induct)
  case (1 bad s)
  then show ?case
    by (subst to_valid.simps) (auto simp: valid_append valid_replacement valid_rune)
qed

lemma to_valid_id: "valid_utf8 s \<Longrightarrow> to_valid bad s = s"
proof (induction bad s rule: to_valid.induct)
  case (1 bad s)
  then show ?case by (subst to_valid.simps) (auto simp: valid_utf8.simps [of s] split: if_splits)
qed

text \<open>A rune is the NUL byte or holds none.\<close>

lemma rune_no_NUL:
  assumes "hd s \<noteq> NUL"
  shows "filter (\<lambda>c. c \<noteq> NUL) (take (rune_len s) s) = take (rune_len s) s"
proof (cases "rune_len s = 0")
  case False
  have "hd (take (rune_len s) s) \<noteq> NUL" using assms False rune_len_rune(1) [OF False] by (simp add: hd_take)
  with rune_len_rune(2) [OF False] show ?thesis
    by (cases rule: is_rune_cases) (auto simp: NUL_def between_def list_all_iff intro!: filter_True)
qed simp

lemma rune_NUL: "s \<noteq> [] \<Longrightarrow> hd s = NUL \<Longrightarrow> rune_len s = 1"
  by (cases s) (auto simp: rune_len_def is_rune_def NUL_def between_def)

lemma valid_without_NUL: "valid_utf8 s \<Longrightarrow> valid_utf8 (filter (\<lambda>c. c \<noteq> NUL) s)"
proof (induction s rule: valid_utf8.induct)
  case (1 s)
  show ?case
  proof (cases "s = []")
    case False
    then have n: "rune_len s \<noteq> 0" "valid_utf8 (drop (rune_len s) s)"
      using "1.prems" by (auto simp: valid_utf8.simps [of s] split: if_splits)
    note rest = "1.IH" [OF False n]
    have "filter (\<lambda>c. c \<noteq> NUL) s = filter (\<lambda>c. c \<noteq> NUL) (take (rune_len s) s) @ filter (\<lambda>c. c \<noteq> NUL) (drop (rune_len s) s)"
      by (metis append_take_drop_id filter_append)
    moreover have "valid_utf8 (filter (\<lambda>c. c \<noteq> NUL) (take (rune_len s) s))"
    proof (cases "hd s = NUL")
      case True
      then have "take (rune_len s) s = [NUL]" using rune_NUL [OF False] False by (cases s) auto
      then show ?thesis by simp
    qed (simp add: rune_no_NUL valid_rune n(1))
    ultimately show ?thesis using rest valid_append by simp
  qed simp
qed

lemma valid_Clean: "valid_utf8 (Clean s)" "NUL \<notin> set (Clean s)"
  by (simp_all add: Clean_def valid_without_NUL to_valid_valid)

lemma Clean_id: "valid_utf8 s \<Longrightarrow> NUL \<notin> set s \<Longrightarrow> Clean s = s"
  unfolding Clean_def by (simp add: to_valid_id, rule filter_True, auto)

section \<open>Cuts\<close>

lemma rune_tail:
  assumes "0 < m" "m < rune_len s"
  shows "\<not> RuneStart (s ! m)"
proof -
  have "rune_len s \<noteq> 0" using assms by simp
  note r = rune_len_rune [OF this]
  have at: "take (rune_len s) s ! m = s ! m" and len: "length (take (rune_len s) s) = rune_len s" using assms r(1) by simp_all
  from r(2) show ?thesis
  proof (cases rule: is_rune_cases)
    case (1 a)
    then show ?thesis using assms len by simp
  next
    case (2 a as)
    then have "s ! m = as ! (m - 1)" "m - 1 < length as" using at len assms by (auto simp: nth_Cons')
    then show ?thesis using 2(3) by (simp add: RuneStart_def list_all_length)
  qed
qed

lemma valid_take:
  "valid_utf8 s \<Longrightarrow> m < length s \<Longrightarrow> RuneStart (s ! m) \<Longrightarrow> valid_utf8 (take m s)"
proof (induction s arbitrary: m rule: valid_utf8.induct)
  case (1 s)
  have ne: "s \<noteq> []" using "1.prems"(2) by auto
  then have n: "rune_len s \<noteq> 0" "valid_utf8 (drop (rune_len s) s)"
    using "1.prems"(1) by (auto simp: valid_utf8.simps [of s] split: if_splits)
  consider "m = 0" | "rune_len s \<le> m" using rune_tail [of m s] "1.prems"(3) by force
  then show ?case
  proof cases
    case 2
    have "take m s = take (rune_len s) s @ take (m - rune_len s) (drop (rune_len s) s)"
      using 2 by (metis le_add_diff_inverse take_add)
    moreover have "valid_utf8 (take (m - rune_len s) (drop (rune_len s) s))"
      by (rule "1.IH" [OF ne n]) (use 2 "1.prems" in auto)
    ultimately show ?thesis using valid_append valid_rune [OF n(1)] by simp
  qed simp
qed

lemma rune_cut_le: "rune_cut s n \<le> n"
  by (induction n) auto

lemma rune_cut_start: "rune_cut s n = 0 \<or> RuneStart (s ! rune_cut s n)"
  by (induction n) auto

lemma valid_cut: "valid_utf8 s \<Longrightarrow> n < length s \<Longrightarrow> valid_utf8 (take (rune_cut s n) s)"
  using rune_cut_start [of s n] rune_cut_le [of s n] valid_take [of s "rune_cut s n"] by auto

lemma valid_append_char:
  assumes "valid_utf8 (s @ [c])" "RuneStart c"
  shows "valid_utf8 s"
  using valid_take [OF assms(1), of "length s"] assms(2) by simp

lemma RuneStart_space: "RuneStart (CHR '' '')"
  by (simp add: RuneStart_def between_def)

lemma valid_trim: "valid_utf8 s \<Longrightarrow> valid_utf8 (trim_right_space s)"
proof (induction s rule: rev_induct)
  case (snoc c s)
  then show ?case using valid_append_char [of s c] RuneStart_space by (cases "c = CHR '' ''") (auto simp: trim_right_space_def)
qed (simp add: trim_right_space_def)

lemma valid_join: "list_all valid_utf8 ss \<Longrightarrow> valid_utf8 (join '' '' ss)"
proof (induction "'' ''" ss rule: join.induct)
  case (3 s t ss)
  have "valid_utf8 '' ''" by (simp add: valid_utf8.simps rune_len_def is_rune_def between_def)
  then show ?case using 3 valid_append [of "'' ''" "join '' '' (t # ss)"] by (simp add: valid_append)
qed simp_all

lemma valid_Fields: "valid_utf8 s \<Longrightarrow> valid_utf8 w \<Longrightarrow> list_all valid_utf8 (Fields w s)"
proof (induction w s rule: Fields.induct)
  case (1 w s)
  show ?case
  proof (cases "s = []")
    case False
    then have n: "rune_len s \<noteq> 0" "valid_utf8 (drop (rune_len s) s)"
      using "1.prems"(1) by (auto simp: valid_utf8.simps [of s] split: if_splits)
    then have m: "max 1 (rune_len s) = rune_len s" by simp
    show ?thesis
      using "1.IH"(1) [OF False refl] "1.IH"(2) [OF False refl] n "1.prems"(2) valid_append [OF "1.prems"(2)] valid_rune [OF n(1)]
      unfolding m by (subst Fields.simps) (simp add: False m Let_def)
  qed (use "1.prems" in \<open>simp add: Fields.simps\<close>)
qed

lemma valid_ellipsis: "valid_utf8 ellipsis" "length ellipsis = 3"
  by (simp_all add: valid_utf8.simps ellipsis_def rune_len_def is_rune_def between_def)

lemma trim_length: "length (trim_right_space s) \<le> length s"
  unfolding trim_right_space_def using length_dropWhile_le [of _ "rev s"] by simp



section \<open>The recorder\<close>




end
