(* ===== verification/Tombstones.thy ===== *)
theory Tombstones
  imports Sync Tenants Activity
begin

text \<open>
  Tombstones and deletion (\<open>sandbox/tombstone.go\<close>): the processing of a tombstone on its node, the delete of a
  sandbox, which leaves a tombstone on every node that may hold its pod, and the delete of a tenant in batches of
  transactions, between which others work on the registry. The lemmas show that a processed tombstone never took
  another incarnation's pod with it, that a delete forgets no node, and that a tenant's deletion ends.
\<close>

section \<open>The processing of a tombstone\<close>

definition hintTombstone :: string where "hintTombstone = ''tombstone''"

text \<open>\<open>processTombstone\<close>: the runs of this instance by their tombstone; \<^term>\<open>True\<close> for a run that starts, which it does
  not on a stopping instance. \<open>tomb_done\<close> is the end of one.\<close>

definition processTombstone :: "bool \<Rightarrow> tombstone_key \<Rightarrow> tombstone_key list \<Rightarrow> tombstone_key list \<times> bool" where
  "processTombstone stopping k tombs = (if k \<in> set tombs \<or> stopping then (tombs, False) else (k # tombs, True))"

definition tomb_done :: "tombstone_key \<Rightarrow> tombstone_key list \<Rightarrow> tombstone_key list" where
  "tomb_done k tombs = removeAll k tombs"

definition processAfterCommit :: "bool \<Rightarrow> (string \<Rightarrow> bool) \<Rightarrow> tombstone_key list \<Rightarrow> tombstone_key list \<Rightarrow> tombstone_key list" where
  "processAfterCommit stopping conn ks tombs =
    (if stopping then tombs
     else fold (\<lambda>(i, n, inc) ts. if conn n then fst (processTombstone stopping (i, n, inc) ts) else ts) ks tombs)"

text \<open>What one run meets: the registry it reads, the connection, the node's answers to \<open>GetPod\<close> and to \<open>DeletePod\<close>
  (given the deadline of the call), the pod's memory, and the registry of its last statement.\<close>

record tomb_meets =
  tb_now :: gotime
  tb_db :: registry
  tb_connected :: bool
  tb_get :: "call_error + observation"
  tb_mem :: int
  tb_delete :: "duration \<Rightarrow> call_error option"
  tb_later :: gotime
  tb_last :: registry

datatype tomb_end =
    TombNoRow
  | TombNotDue
  | TombNotConnected
  | TombRetry registry string
  | TombDropped registry event

definition incarnationText :: "pod_info \<Rightarrow> string" where
  "incarnationText p = (case map_of (pi_labels p) LabelIncarnation of Some s \<Rightarrow> Clean s | None \<Rightarrow> ''none'')"

definition dropTombstone :: "tombstone_key \<Rightarrow> string \<Rightarrow> registry \<Rightarrow> tomb_end" where
  "dropTombstone k why db = (case k of (i, n, inc) \<Rightarrow>
    TombDropped (fst (DeleteTombstone k db))
      \<lparr>ev_sandbox = i, ev_tenant = [], ev_node = n, ev_kind = KindTombstone, ev_span = [], ev_parent = [],
       ev_name = ''tombstone on node '' @ n @ '' done: '' @ why\<rparr>)"

text \<open>A wrapped status reads as the whole error's text.\<close>

definition noteAttempt :: "gotime \<Rightarrow> tombstone_key \<Rightarrow> string \<Rightarrow> call_error \<Rightarrow> registry \<Rightarrow> tomb_end" where
  "noteAttempt now k what er db = (let t = what @ '': '' @ ce_text er in TombRetry (NoteTombstoneAttempt now k t db) t)"

text \<open>\<open>runTombstone\<close>, with whether it called \<open>DeletePod\<close>.\<close>

definition runTombstone :: "engine \<Rightarrow> tombstone_key \<Rightarrow> tomb_meets \<Rightarrow> tomb_end \<times> bool" where
  "runTombstone e k m = (case k of (i, n, inc) \<Rightarrow>
    (case DueTombstone (tb_now m) k (tb_db m) of
       Inl _ \<Rightarrow> (TombNoRow, False)
     | Inr (t, due) \<Rightarrow>
         if \<not> due then (TombNotDue, False)
         else if \<not> tb_connected m then (TombNotConnected, False)
         else case tb_get m of
           Inl er \<Rightarrow> (noteAttempt (tb_later m) k ''get pod'' er (tb_last m), False)
         | Inr obs \<Rightarrow>
             (case (if found obs then obs_info obs else None) of
                None \<Rightarrow> (dropTombstone k ''the pod is gone'' (tb_last m), False)
              | Some p \<Rightarrow>
                  let pinc = podIncarnation e p in
                  if \<not> isFerunPod p \<or> (pinc \<noteq> inc \<and> pinc \<noteq> uuid_nil)
                  then (dropTombstone k (''tombstone dropped: node '' @ n @ '' holds incarnation '' @ incarnationText p) (tb_last m), False)
                  else case tb_delete m (tombstoneDeadline (tm_tombstone_base (e_t e)) (tb_mem m)) of
                    Some er \<Rightarrow> if grpcCode (Some er) \<noteq> NotFound then (noteAttempt (tb_later m) k ''delete pod'' er (tb_last m), True)
                        else (dropTombstone k ''the pod was deleted'' (tb_last m), True)
                  | None \<Rightarrow> (dropTombstone k ''the pod was deleted'' (tb_last m), True))))"

section \<open>The delete of a sandbox\<close>

text \<open>Whether a live op may still make the pod on its target.\<close>

definition op_makes :: "gotime \<Rightarrow> sandbox \<Rightarrow> registry \<Rightarrow> bool" where
  "op_makes now row db = (case sb_op row of None \<Rightarrow> False | Some k \<Rightarrow> makes_pod k \<and> InstanceLive now (sb_op_owner row) db)"

fun delete_tombs :: "gotime \<Rightarrow> bool \<Rightarrow> sandbox \<Rightarrow> string list \<Rightarrow> tombstone_key list \<Rightarrow> registry \<Rightarrow> err + registry \<times> tombstone_key list" where
  "delete_tombs now makes row [] keys db = Inr (db, keys)"
| "delete_tombs now makes row (n # ns) keys db =
    (if n = [] \<or> containsKey keys n then delete_tombs now makes row ns keys db
     else let k = (sb_id row, n, sb_incarnation row) in
       bindE (UpsertTombstone now k ''deleted'' (if makes \<and> n = sb_op_target row then sb_op_deadline row else 0) db)
         (delete_tombs now makes row ns (keys @ [k])))"

definition deleteLocked :: "txenv \<Rightarrow> sandbox \<Rightarrow> registry \<Rightarrow> err + registry \<times> tombstone_key list \<times> event list" where
  "deleteLocked env row db =
    bindE (delete_tombs (tx_now env) (op_makes (tx_now env) row db) row [sb_node row, sb_op_target row, sb_lost_from row] [] db)
      (\<lambda>(db1, keys).
        let db2 = fst (DeleteSandbox (sb_id row) db1);
            db3 = (if keys \<noteq> [] then Notify ChanLeader hintTombstone db2 else db2) in
        Inr (db3, keys, map (\<lambda>(i, n, _). tombstone_event i (sb_owner row) n ''deleted'') keys
          @ (if sb_run_id row \<noteq> [] then [runEnd (newChange row) (sb_run_id row) ''deleted''] else [])
          @ [\<lparr>ev_sandbox = sb_id row, ev_tenant = sb_owner row, ev_node = sb_node row, ev_kind = KindSandboxState, ev_span = [],
              ev_parent = sb_run_id row, ev_name = state_text (sb_client_state row) @ arrow @ ''deleted''\<rparr>]))"

definition Delete :: "txenv \<Rightarrow> string \<Rightarrow> podID \<Rightarrow> registry \<Rightarrow> err + registry \<times> sandbox \<times> tombstone_key list \<times> event list" where
  "Delete env owner i db =
    (case get_row (db_sandboxes db) i of
       None \<Rightarrow> Inl (Kind ErrNotFound (''unknown sandbox '' @ i))
     | Some row \<Rightarrow>
         if owner \<noteq> [] \<and> sb_owner row \<noteq> owner then Inl (Kind ErrNotFound (''unknown sandbox '' @ i))
         else bindE (deleteLocked env row db) (\<lambda>(db', keys, evs). Inr (db', row, keys, evs)))"

section \<open>The delete of a tenant\<close>

definition tenantBatch :: nat where "tenantBatch = 256"

fun delete_rows :: "txenv \<Rightarrow> sandbox list \<Rightarrow> tombstone_key list \<Rightarrow> event list \<Rightarrow> registry \<Rightarrow> err + registry \<times> tombstone_key list \<times> event list" where
  "delete_rows env [] keys evs db = Inr (db, keys, evs)"
| "delete_rows env (row # rows) keys evs db =
    bindE (deleteLocked env row db) (\<lambda>(db', ks, es). delete_rows env rows (keys @ ks) (evs @ es) db')"

text \<open>One transaction of the deletion: the fence, then a batch; with the number of rows it deleted.\<close>

definition delete_batch :: "txenv \<Rightarrow> (registry \<Rightarrow> err option) \<Rightarrow> string \<Rightarrow> registry \<Rightarrow> err + registry \<times> nat \<times> tombstone_key list \<times> event list" where
  "delete_batch env fence tenant db =
    (case fence db of
       Some er \<Rightarrow> Inl er
     | None \<Rightarrow> let rows = LockSandboxesOfOwner tenant tenantBatch db in
         bindE (delete_rows env rows [] [] db) (\<lambda>(db', keys, evs). Inr (db', length rows, keys, evs)))"

text \<open>The batches. The \<open>k\<close>th transaction meets \<open>others k\<close> of the registry the one before left; the result is the error
  that ended them, if any, the registry and the number of the next transaction.\<close>

definition delete_tx :: "(nat \<Rightarrow> txenv) \<Rightarrow> (nat \<Rightarrow> registry \<Rightarrow> err option) \<Rightarrow> (nat \<Rightarrow> registry \<Rightarrow> registry) \<Rightarrow> string \<Rightarrow> nat
    \<Rightarrow> registry \<Rightarrow> (err \<times> registry) + registry \<times> nat" where
  "delete_tx envs fence others tenant k db =
    (case delete_batch (envs k) (fence k) tenant (others k db) of
       Inl er \<Rightarrow> Inl (er, others k db)
     | Inr (db', n, keys, evs) \<Rightarrow> Inr (db', n))"

definition delete_batches :: "(nat \<Rightarrow> txenv) \<Rightarrow> (nat \<Rightarrow> registry \<Rightarrow> err option) \<Rightarrow> (nat \<Rightarrow> registry \<Rightarrow> registry)
    \<Rightarrow> string \<Rightarrow> nat \<Rightarrow> registry \<Rightarrow> (err option \<times> registry \<times> nat) option" where
  "delete_batches envs fence others tenant = batches (delete_tx envs fence others tenant) tenantBatch"

definition deleteTenantSandboxes :: "(nat \<Rightarrow> txenv) \<Rightarrow> (nat \<Rightarrow> registry \<Rightarrow> err option) \<Rightarrow> (nat \<Rightarrow> registry \<Rightarrow> registry) \<Rightarrow> string \<Rightarrow> nat
    \<Rightarrow> registry \<Rightarrow> (err option \<times> registry) option" where
  "deleteTenantSandboxes envs fence others tenant k db =
    (case delete_batches envs fence others tenant k db of
       None \<Rightarrow> None
     | Some (Some er, db', _) \<Rightarrow> Some (Some er, db')
     | Some (None, db', k') \<Rightarrow>
         (case fence k' (others k' db') of
            Some er \<Rightarrow> Some (Some er, others k' db')
          | None \<Rightarrow> Some (None, fst (DeleteTenantIfEmpty tenant (others k' db')))))"

text \<open>\<open>DeleteTenant\<close>, with whether the tenant existed.\<close>

definition DeleteTenant :: "(uuid \<Rightarrow> string) \<Rightarrow> (nat \<Rightarrow> txenv) \<Rightarrow> (nat \<Rightarrow> registry \<Rightarrow> registry) \<Rightarrow> string \<Rightarrow> registry
    \<Rightarrow> (bool \<times> err option \<times> registry) option" where
  "DeleteTenant utext envs others tenant db =
    (let db0 = others 0 db in
     case MarkTenantDeleting utext (tx_now (envs 0)) tenant db0 of
       (_, False) \<Rightarrow> Some (False, None, db0)
     | (db1, True) \<Rightarrow>
         map_option (\<lambda>(er, db'). (True, er, db')) (deleteTenantSandboxes envs (\<lambda>_ _. None) others tenant 1 db1))"

section \<open>Lemmas\<close>

lemma UpsertTombstone_row:
  assumes "UpsertTombstone now k reason nb db = Inr db'"
  shows "\<exists>t. get_row (db_tombstones db') k = Some t \<and> ts_not_before t = (if nb = 0 then now else nb)"
  using assms by (auto simp: UpsertTombstone_def Let_def split: prod.splits if_splits option.splits)

text \<open>The tombstones of a delete: each node once, and only the tombstones' table written.\<close>

lemma delete_tombs_only:
  "delete_tombs now makes row ns keys db = Inr (db', keys') \<Longrightarrow>
    db' = db\<lparr>db_tombstones := db_tombstones db'\<rparr> \<and> (keyed (db_tombstones db) \<longrightarrow> keyed (db_tombstones db'))"
proof (induction ns arbitrary: keys db)
  case (Cons n ns)
  let ?k = "(sb_id row, n, sb_incarnation row)"
  show ?case
  proof (cases "n = [] \<or> containsKey keys n")
    case True
    then show ?thesis using Cons by simp
  next
    case False
    then obtain db1 where up: "UpsertTombstone now ?k ''deleted'' (if makes \<and> n = sb_op_target row then sb_op_deadline row else 0) db = Inr db1"
      and rest: "delete_tombs now makes row ns (keys @ [?k]) db1 = Inr (db', keys')"
      using Cons.prems by (auto simp: Let_def bindE_Inr_iff)
    note u = UpsertTombstone_only [OF up] and r = Cons.IH [OF rest]
    have "db' = db1\<lparr>db_tombstones := db_tombstones db'\<rparr>" using r by blast
    then have "db' = db\<lparr>db_tombstones := db_tombstones db'\<rparr>" using u(1) by (metis (no_types, lifting) registry.update_convs(5) registry.surjective)
    then show ?thesis using r u(2) by blast
  qed
qed simp

text \<open>Nodes already named keep their tombstones; every other one gets its own.\<close>

definition tombed :: "gotime \<Rightarrow> bool \<Rightarrow> sandbox \<Rightarrow> registry \<Rightarrow> string \<Rightarrow> bool" where
  "tombed now makes row db n = (\<exists>t. get_row (db_tombstones db) (sb_id row, n, sb_incarnation row) = Some t
    \<and> ts_not_before t = (if makes \<and> n = sb_op_target row \<and> sb_op_deadline row \<noteq> 0 then sb_op_deadline row else now))"

lemma containsKey_snoc: "containsKey (keys @ [(i, n, x)]) m \<longleftrightarrow> containsKey keys m \<or> m = n"
  by (auto simp: containsKey_def)

lemma delete_tombs_all:
  "delete_tombs now makes row ns keys db = Inr (db', keys') \<Longrightarrow> (\<And>n. containsKey keys n \<Longrightarrow> tombed now makes row db n) \<Longrightarrow>
    (\<forall>n \<in> set ns. n \<noteq> [] \<longrightarrow> tombed now makes row db' n) \<and> (\<forall>n. containsKey keys n \<longrightarrow> tombed now makes row db' n)"
proof (induction ns arbitrary: keys db)
  case (Cons n ns)
  let ?k = "(sb_id row, n, sb_incarnation row)"
  show ?case
  proof (cases "n = [] \<or> containsKey keys n")
    case True
    then have "delete_tombs now makes row ns keys db = Inr (db', keys')" using Cons.prems(1) by simp
    from Cons.IH [OF this Cons.prems(2)] show ?thesis using True by auto
  next
    case False
    then obtain db1 where up: "UpsertTombstone now ?k ''deleted'' (if makes \<and> n = sb_op_target row then sb_op_deadline row else 0) db = Inr db1"
      and rest: "delete_tombs now makes row ns (keys @ [?k]) db1 = Inr (db', keys')"
      using Cons.prems(1) by (auto simp: Let_def bindE_Inr_iff)
    have "tombed now makes row db1 n" using UpsertTombstone_row [OF up] by (auto simp: tombed_def)
    moreover have "tombed now makes row db1 m" if m: "containsKey keys m" for m
    proof -
      have "m \<noteq> n" using False m by blast
      then have "get_row (db_tombstones db1) (sb_id row, m, sb_incarnation row) = get_row (db_tombstones db) (sb_id row, m, sb_incarnation row)"
        using UpsertTombstone_new [OF up, of "(sb_id row, m, sb_incarnation row)"] by simp
      then show ?thesis using Cons.prems(2) [OF m] by (simp add: tombed_def)
    qed
    ultimately have all: "tombed now makes row db1 m" if "containsKey (keys @ [?k]) m" for m
      using that unfolding containsKey_snoc by blast
    have r: "\<forall>n \<in> set ns. n \<noteq> [] \<longrightarrow> tombed now makes row db' n" "\<forall>n. containsKey (keys @ [?k]) n \<longrightarrow> tombed now makes row db' n"
      using Cons.IH [OF rest] all by blast+
    then have "tombed now makes row db' n" "\<forall>n. containsKey keys n \<longrightarrow> tombed now makes row db' n"
      unfolding containsKey_snoc by blast+
    then show ?thesis using r(1) by simp
  qed
qed simp

lemma delete_row_inv:
  assumes inv: "inv_but X db"
  shows "inv_but X (fst (DeleteSandbox i db))"
proof (cases "get_row (db_sandboxes db) i")
  case None
  then show ?thesis using inv by (simp add: DeleteSandbox_def)
next
  case (Some r)
  have "within_capacity nd n (del_row i (db_bookings db))" if "get_row (db_nodes db) n = Some nd" for nd n
    using inv that within_capacity_del inv_books_nonneg [OF inv] by (auto simp: inv_but_def capacity_ok_def)
  then show ?thesis
    using inv Some unfolding inv_but_def tables_ok_def rows_ok_def books_ok_def capacity_ok_def nodes_wf_def
    by (auto simp: DeleteSandbox_def Notify_def)
qed

text \<open>A delete, of the row locked.\<close>

lemma deleteLocked_steps:
  assumes inv: "db_inv db" and row: "get_row (db_sandboxes db) i = Some row" and del: "deleteLocked env row db = Inr (db', keys, evs)"
  shows "db_inv db'" "only_row i db db'" "db_sandboxes db' = del_row i (db_sandboxes db)"
    "get_row (db_bookings db') i = None" "db_tenants db' = db_tenants db" "db_environments db' = db_environments db"
    "\<forall>h. get_row (db_holds db') (i, h) = None"
    "\<forall>n \<in> {sb_node row, sb_op_target row, sb_lost_from row} - {[]}. tombed (tx_now env) (op_makes (tx_now env) row db) row db' n"
proof -
  have id: "sb_id row = i" using inv_row(1) [OF inv row] .
  obtain db1 where t: "delete_tombs (tx_now env) (op_makes (tx_now env) row db) row [sb_node row, sb_op_target row, sb_lost_from row] [] db = Inr (db1, keys)"
    and db': "db' = (if keys \<noteq> [] then Notify ChanLeader hintTombstone (fst (DeleteSandbox i db1)) else fst (DeleteSandbox i db1))"
    using del by (auto simp: deleteLocked_def bindE_Inr_iff Let_def id simp del: delete_tombs.simps split: prod.splits)
  obtain ts where only: "db1 = db\<lparr>db_tombstones := ts\<rparr>" and k: "keyed ts"
    using delete_tombs_only [OF t] inv_keyed(3) [OF inv] by blast
  have frame: "db_sandboxes db1 = db_sandboxes db" "db_bookings db1 = db_bookings db" "db_holds db1 = db_holds db"
    "db_tenants db1 = db_tenants db" "db_environments db1 = db_environments db" by (simp_all add: only)
  have inv1: "db_inv db1" using inv_tombstones [OF inv k] by (simp add: only)
  show "db_inv db'" unfolding db' using delete_row_inv [OF inv1] by simp
  have r1: "get_row (db_sandboxes db1) i = Some row" using row frame by simp
  have "only_row i db db1" by (simp add: only)
  moreover have "only_row i db1 db'" unfolding db' using r1 by (auto simp: DeleteSandbox_def only_row_def Notify_def)
  ultimately show "only_row i db db'" by (rule only_row_trans)
  show "db_sandboxes db' = del_row i (db_sandboxes db)" "get_row (db_bookings db') i = None" "db_tenants db' = db_tenants db"
    "db_environments db' = db_environments db" "\<forall>h. get_row (db_holds db') (i, h) = None"
    unfolding db' using r1 frame inv_keyed(4) [OF inv] by (auto simp: DeleteSandbox_def Notify_def split: option.splits)
  have "tombed now mk row db' n = tombed now mk row db1 n" for now mk n
    unfolding db' tombed_def using r1 by (simp add: DeleteSandbox_def Notify_def)
  then show "\<forall>n \<in> {sb_node row, sb_op_target row, sb_lost_from row} - {[]}. tombed (tx_now env) (op_makes (tx_now env) row db) row db' n"
    using delete_tombs_all [OF t] by (auto simp: containsKey_def)
qed

section \<open>The rows of a tenant\<close>

lemma count_del_row:
  assumes "keyed t" "get_row t i = Some r" "P r"
  shows "length (filter P (map snd t)) = Suc (length (filter P (map snd (del_row i t))))"
  using assms
proof (induction t)
  case (Cons kv t)
  obtain k v where kv: "kv = (k, v)" by fastforce
  show ?case
  proof (cases "k = i")
    case True
    then have "del_row i t = t" using Cons.prems(1) kv by (intro del_row_absent) (auto simp: keyed_def get_row_def map_of_eq_None_iff)
    then show ?thesis using Cons.prems True kv by (simp add: get_row_def del_row_def)
  next
    case False
    then show ?thesis using Cons kv by (auto simp: get_row_def del_row_def keyed_def)
  qed
qed (simp add: get_row_def)

lemma deleteLocked_count:
  assumes "db_inv db" "get_row (db_sandboxes db) i = Some row" "deleteLocked env row db = Inr (db', keys, evs)" "sb_owner row = tenant"
  shows "CountSandboxesOfOwner tenant db = Suc (CountSandboxesOfOwner tenant db')"
  using count_del_row [OF inv_keyed(1) [OF assms(1)] assms(2), of "\<lambda>s. sb_owner s = tenant"] assms(4) deleteLocked_steps(3) [OF assms(1-3)]
  by (simp add: CountSandboxesOfOwner_def rows_where_def)

lemma delete_rows_steps:
  "delete_rows env rows keys evs db = Inr (db', keys', evs') \<Longrightarrow> db_inv db \<Longrightarrow> distinct (map sb_id rows) \<Longrightarrow>
    \<forall>r \<in> set rows. get_row (db_sandboxes db) (sb_id r) = Some r \<and> sb_owner r = tenant \<Longrightarrow>
    db_inv db' \<and> db_tenants db' = db_tenants db \<and> CountSandboxesOfOwner tenant db = CountSandboxesOfOwner tenant db' + length rows"
proof (induction rows arbitrary: keys evs db)
  case (Cons r rows)
  obtain db1 ks es where d: "deleteLocked env r db = Inr (db1, ks, es)"
    and rest: "delete_rows env rows (keys @ ks) (evs @ es) db1 = Inr (db', keys', evs')"
    using Cons.prems(1) by (auto simp: bindE_Inr_iff)
  have r: "get_row (db_sandboxes db) (sb_id r) = Some r" "sb_owner r = tenant" using Cons.prems(4) by simp_all
  note s = deleteLocked_steps [OF Cons.prems(2) r(1) d]
  have d2: "distinct (map sb_id rows)" using Cons.prems(3) by simp
  have fresh: "sb_id x \<noteq> sb_id r" if "x \<in> set rows" for x using Cons.prems(3) that by (metis distinct.simps(2) imageI list.map(2) list.set_map)
  have "\<forall>x \<in> set rows. get_row (db_sandboxes db1) (sb_id x) = Some x \<and> sb_owner x = tenant"
    using Cons.prems(4) fresh by (simp add: s(3))
  note ih = Cons.IH [OF rest s(1) d2 this]
  then show ?case using deleteLocked_count [OF Cons.prems(2) r(1) d r(2)] s(5) by simp
qed simp

lemma LockSandboxesOfOwner_rows:
  assumes "db_inv db"
  shows "distinct (map sb_id (LockSandboxesOfOwner tenant n db))"
    "\<forall>r \<in> set (LockSandboxesOfOwner tenant n db). get_row (db_sandboxes db) (sb_id r) = Some r \<and> sb_owner r = tenant"
    "length (LockSandboxesOfOwner tenant n db) = min n (CountSandboxesOfOwner tenant db)"
proof -
  have ids: "map sb_id (rows_where P db) = map fst (filter (\<lambda>(_, s). P s) (db_sandboxes db))" for P
    using assms by (auto simp: rows_where_def all_rows_def filter_map comp_def split_def inv_but_def rows_ok_def tables_ok_def in_rows
      intro!: map_cong filter_cong)
  have d: "distinct (map fst (db_sandboxes db))" using inv_keyed(1) [OF assms] by (simp add: keyed_def)
  have "distinct (map sb_id (rows_where P db))" for P
    unfolding ids using d by (rule distinct_map_filter)
  then show "distinct (map sb_id (LockSandboxesOfOwner tenant n db))"
    by (simp add: LockSandboxesOfOwner_def by_id_def distinct_map_sort_by take_map [symmetric])
  have "get_row (db_sandboxes db) (sb_id r) = Some r" if "r \<in> set (rows_where P db)" for r P
    using assms that by (auto simp: rows_where_def all_rows_def inv_but_def rows_ok_def tables_ok_def in_rows)
  then show "\<forall>r \<in> set (LockSandboxesOfOwner tenant n db). get_row (db_sandboxes db) (sb_id r) = Some r \<and> sb_owner r = tenant"
    by (auto simp: LockSandboxesOfOwner_def by_id_def rows_where_def dest!: in_set_takeD)
  show "length (LockSandboxesOfOwner tenant n db) = min n (CountSandboxesOfOwner tenant db)"
    by (simp add: LockSandboxesOfOwner_def CountSandboxesOfOwner_def by_id_def)
qed

lemma delete_batch_steps:
  assumes "db_inv db" "delete_batch env fence tenant db = Inr (db', n, keys, evs)"
  shows "db_inv db'" "db_tenants db' = db_tenants db" "CountSandboxesOfOwner tenant db = CountSandboxesOfOwner tenant db' + n"
    "n = min tenantBatch (CountSandboxesOfOwner tenant db)"
proof -
  let ?rows = "LockSandboxesOfOwner tenant tenantBatch db"
  have d: "delete_rows env ?rows [] [] db = Inr (db', keys, evs)" and n: "n = length ?rows"
    using assms(2) by (auto simp: delete_batch_def Let_def bindE_Inr_iff split: option.splits)
  note l = LockSandboxesOfOwner_rows [OF assms(1), of tenant tenantBatch]
  show "db_inv db'" "db_tenants db' = db_tenants db" "CountSandboxesOfOwner tenant db = CountSandboxesOfOwner tenant db' + n"
    "n = min tenantBatch (CountSandboxesOfOwner tenant db)"
    using delete_rows_steps [OF d assms(1) l(1,2)] n l(3) by simp_all
qed

text \<open>The tenant is marked, so that no create of a sandbox of its passes.\<close>

definition tenant_deleting :: "string \<Rightarrow> registry \<Rightarrow> bool" where
  "tenant_deleting tenant db = (case get_row (db_tenants db) tenant of None \<Rightarrow> True | Some t \<Rightarrow> Deleting t)"

lemma create_refused_deleting:
  assumes "tenant_deleting tenant db"
  shows "\<exists>er. create_sandbox specs now inc tenant v m mk draws db = Inl er"
  using assms by (auto simp: tenant_deleting_def create_sandbox_def LockAndCheck_def quota_Lock_def GetTenant_def
    split: option.splits)

text \<open>What others do between the transactions of a deletion: they keep the invariant and the mark, and make no sandbox
  of the tenant.\<close>

definition others_keep :: "string \<Rightarrow> (registry \<Rightarrow> registry) \<Rightarrow> bool" where
  "others_keep tenant f = (\<forall>db. db_inv db \<longrightarrow> db_inv (f db) \<and> (tenant_deleting tenant db \<longrightarrow>
    tenant_deleting tenant (f db) \<and> CountSandboxesOfOwner tenant (f db) \<le> CountSandboxesOfOwner tenant db))"

text \<open>The transactions of a deletion among others keep the contract of batches.\<close>

definition deletion_inv :: "(nat \<Rightarrow> registry \<Rightarrow> registry) \<Rightarrow> string \<Rightarrow> registry \<Rightarrow> bool" where
  "deletion_inv others tenant db = ((\<forall>k. others_keep tenant (others k)) \<and> db_inv db \<and> tenant_deleting tenant db)"

lemma delete_tx_steps:
  assumes "deletion_inv others tenant db"
  shows "delete_tx envs fence others tenant k db = Inl (er, db') \<Longrightarrow> deletion_inv others tenant db'"
    and "delete_tx envs fence others tenant k db = Inr (db', n) \<Longrightarrow> deletion_inv others tenant db'
      \<and> CountSandboxesOfOwner tenant db' + n \<le> CountSandboxesOfOwner tenant db"
    and "delete_tx envs fence others tenant k db = Inr (db', n) \<Longrightarrow> n < tenantBatch \<Longrightarrow> CountSandboxesOfOwner tenant db' = 0"
proof -
  let ?db = "others k db"
  have o: "db_inv ?db" "tenant_deleting tenant ?db" "CountSandboxesOfOwner tenant ?db \<le> CountSandboxesOfOwner tenant db"
    using assms by (auto simp: deletion_inv_def others_keep_def)
  show "deletion_inv others tenant db'" if "delete_tx envs fence others tenant k db = Inl (er, db')"
    using that o assms by (auto simp: delete_tx_def deletion_inv_def split: sum.splits)
  assume "delete_tx envs fence others tenant k db = Inr (db', n)"
  then obtain keys evs where b: "delete_batch (envs k) (fence k) tenant ?db = Inr (db', n, keys, evs)"
    by (auto simp: delete_tx_def split: sum.splits)
  note s = delete_batch_steps [OF o(1) b]
  show "deletion_inv others tenant db' \<and> CountSandboxesOfOwner tenant db' + n \<le> CountSandboxesOfOwner tenant db"
    using s(1-3) o(2,3) assms by (simp add: deletion_inv_def tenant_deleting_def)
  show "CountSandboxesOfOwner tenant db' = 0" if "n < tenantBatch"
  proof -
    have "n = CountSandboxesOfOwner tenant ?db" using that s(4) by linarith
    then show ?thesis using s(3) by linarith
  qed
qed

interpretation deletion: batched "delete_tx envs fence others tenant" tenantBatch "deletion_inv others tenant"
  "CountSandboxesOfOwner tenant" "\<lambda>_ db. CountSandboxesOfOwner tenant db = 0" for envs fence others tenant
  by unfold_locales (simp add: tenantBatch_def, (erule (1) delete_tx_steps | erule (2) delete_tx_steps)+)

lemma inv_tenants [simp]: "inv_but X (db\<lparr>db_tenants := t, db_tenant_tokens := u\<rparr>) = inv_but X db"
  unfolding inv_but_def tables_ok_def rows_ok_def books_ok_def capacity_ok_def nodes_wf_def by simp

lemma fold_Notify: "db_tenants (fold (\<lambda>i. Notify c (f i)) us db) = db_tenants db" "inv_but X (fold (\<lambda>i. Notify c (f i)) us db) = inv_but X db"
  by (induction us arbitrary: db) (simp_all add: Notify_def)

lemma notifyIngressEnvs_frame [simp]:
  "inv_but X (notifyIngressEnvs utext us db) = inv_but X db" "db_tenants (notifyIngressEnvs utext us db) = db_tenants db"
  unfolding notifyIngressEnvs_def by (simp_all add: fold_Notify) (simp add: Notify_def)

lemma marked:
  assumes "get_row (db_tenants db) tenant = Some t" "now \<noteq> 0"
  shows "\<exists>db1. MarkTenantDeleting utext now tenant db = (db1, True) \<and> db_inv db1 = db_inv db \<and> tenant_deleting tenant db1"
  using assms by (auto simp: MarkTenantDeleting_def Let_def tenant_deleting_def Deleting_def)

lemma emptied:
  assumes "db_inv db" "CountSandboxesOfOwner tenant db = 0"
  shows "db_inv (fst (DeleteTenantIfEmpty tenant db)) \<and> CountSandboxesOfOwner tenant (fst (DeleteTenantIfEmpty tenant db)) = 0
    \<and> (get_row (db_tenants (fst (DeleteTenantIfEmpty tenant db))) tenant = None
      \<or> (\<exists>u en. (u, en) \<in> set (db_environments (fst (DeleteTenantIfEmpty tenant db))) \<and> en_owner en = tenant))"
  using assms by (auto simp: DeleteTenantIfEmpty_def CountSandboxesOfOwner_def rows_where_def all_rows_def filter_empty_conv)

section \<open>Properties\<close>

text \<open>C13: A delete leaves nothing of the sandbox in the registry, and a tombstone on every node that may hold its pod: its
  own, the target of its op and the node it was lost from. The tombstone of the target of a live op that may still make
  the pod is not due before the op's deadline. No other sandbox changes and the invariant holds.\<close>

theorem delete_tombstones_pods:
  assumes inv: "db_inv db" and del: "Delete env owner i db = Inr (db', row, keys, evs)"
  shows "get_row (db_sandboxes db) i = Some row \<and> (owner = [] \<or> sb_owner row = owner)
    \<and> db_inv db' \<and> only_row i db db'
    \<and> get_row (db_sandboxes db') i = None \<and> get_row (db_bookings db') i = None \<and> (\<forall>h. get_row (db_holds db') (i, h) = None)
    \<and> (\<forall>n \<in> {sb_node row, sb_op_target row, sb_lost_from row} - {[]}.
        \<exists>t. get_row (db_tombstones db') (i, n, sb_incarnation row) = Some t
          \<and> (op_makes (tx_now env) row db \<and> n = sb_op_target row \<longrightarrow> ts_not_before t = sb_op_deadline row \<or> sb_op_deadline row = 0))"
proof -
  have row: "get_row (db_sandboxes db) i = Some row" and own: "owner = [] \<or> sb_owner row = owner"
    and d: "deleteLocked env row db = Inr (db', keys, evs)"
    using del by (auto simp: Delete_def bindE_Inr_iff split: option.splits if_splits)
  note s = deleteLocked_steps [OF inv row d]
  have "\<exists>t. get_row (db_tombstones db') (i, n, sb_incarnation row) = Some t
      \<and> (op_makes (tx_now env) row db \<and> n = sb_op_target row \<longrightarrow> ts_not_before t = sb_op_deadline row \<or> sb_op_deadline row = 0)"
    if "n \<in> {sb_node row, sb_op_target row, sb_lost_from row} - {[]}" for n
    using s(8) that inv_row(1) [OF inv row] unfolding tombed_def by (metis (no_types, lifting))
  then show ?thesis using row own s(1-4,7) by simp
qed

text \<open>C14: The processing of a tombstone deletes a pod only when the tombstone is due and the node answered with one of
  FeRun's pods of the tombstone's incarnation, or of none; and it drops the tombstone only when there is no such pod or
  \<open>DeletePod\<close> answered that it is gone.\<close>

theorem tombstone_spares_others:
  assumes "runTombstone e (i, n, inc) m = (outcome, called)"
  shows "(called \<longrightarrow> (\<exists>t obs p. get_row (db_tombstones (tb_db m)) (i, n, inc) = Some t \<and> ts_not_before t \<le> tb_now m
        \<and> tb_connected m \<and> tb_get m = Inr obs \<and> found obs \<and> obs_info obs = Some p
        \<and> isFerunPod p \<and> podIncarnation e p \<in> {inc, uuid_nil}))
    \<and> (\<forall>db' ev. outcome = TombDropped db' ev \<longrightarrow> db' = fst (DeleteTombstone (i, n, inc) (tb_last m))
        \<and> (\<exists>obs. tb_get m = Inr obs \<and>
            (if called then (let a = tb_delete m (tombstoneDeadline (tm_tombstone_base (e_t e)) (tb_mem m)) in
               a = None \<or> grpcCode a = NotFound)
             else \<not> found obs \<or> obs_info obs = None
               \<or> (\<exists>p. obs_info obs = Some p \<and> (\<not> isFerunPod p \<or> podIncarnation e p \<notin> {inc, uuid_nil})))))"
  using assms unfolding runTombstone_def
  by (auto simp: DueTombstone_def dropTombstone_def noteAttempt_def Let_def split: sum.splits option.splits prod.splits if_splits)

text \<open>C15: The deletion of a tenant ends, whatever others do meanwhile that keeps the registry's invariant and
  makes no sandbox of a tenant that is being deleted; when no transaction failed, no sandbox of the tenant is left, and the
  tenant is gone unless environments of its are left.\<close>

theorem tenant_deletion_ends:
  assumes inv: "db_inv db" and oth: "\<And>k. others_keep tenant (others k)" and now: "tx_now (envs 0) \<noteq> 0"
  shows "\<exists>existed er db'. DeleteTenant utext envs others tenant db = Some (existed, er, db') \<and> db_inv db'
    \<and> existed = (get_row (db_tenants (others 0 db)) tenant \<noteq> None)
    \<and> (existed \<and> er = None \<longrightarrow> CountSandboxesOfOwner tenant db' = 0 \<and> (get_row (db_tenants db') tenant = None
        \<or> (\<exists>u en. (u, en) \<in> set (db_environments db') \<and> en_owner en = tenant)))"
proof (cases "get_row (db_tenants (others 0 db)) tenant")
  case None
  then have "DeleteTenant utext envs others tenant db = Some (False, None, others 0 db)" by (simp add: DeleteTenant_def MarkTenantDeleting_def Let_def)
  moreover have "db_inv (others 0 db)" using oth [of 0] inv by (simp add: others_keep_def)
  ultimately show ?thesis using None by auto
next
  case (Some t)
  obtain db1 where m: "MarkTenantDeleting utext (tx_now (envs 0)) tenant (others 0 db) = (db1, True)"
    and db1: "db_inv db1" "tenant_deleting tenant db1"
    using marked [OF Some now] oth [of 0] inv by (auto simp: others_keep_def)
  obtain er db2 k where b: "delete_batches envs (\<lambda>_ _. None) others tenant 1 db1 = Some (er, db2, k)" "db_inv db2"
    "tenant_deleting tenant db2" "er = None \<longrightarrow> CountSandboxesOfOwner tenant db2 = 0"
    using deletion.batches_end [of others tenant db1 envs "\<lambda>_ _. None" 1] oth db1 by (auto simp: deletion_inv_def delete_batches_def)
  show ?thesis
  proof (cases er)
    case (Some x)
    then have "DeleteTenant utext envs others tenant db = Some (True, Some x, db2)" by (simp add: DeleteTenant_def m deleteTenantSandboxes_def b(1) [unfolded One_nat_def])
    then show ?thesis using b(2) \<open>get_row (db_tenants (others 0 db)) tenant = Some t\<close> by auto
  next
    case None
    let ?db = "others k db2"
    have "db_inv ?db \<and> CountSandboxesOfOwner tenant ?db \<le> 0" using oth [of k] b(2-4) None unfolding others_keep_def by force
    then have o: "db_inv ?db" "CountSandboxesOfOwner tenant ?db = 0" by simp_all
    have "DeleteTenant utext envs others tenant db = Some (True, None, fst (DeleteTenantIfEmpty tenant ?db))"
      by (simp add: DeleteTenant_def m deleteTenantSandboxes_def b(1) [unfolded One_nat_def] None)
    then show ?thesis using emptied [OF o] \<open>get_row (db_tenants (others 0 db)) tenant = Some t\<close> by auto
  qed
qed

section \<open>Examples\<close>

theorem delete_tombstones_pods_witness:
  "\<exists>db' row keys evs. Delete sample_env ''acme'' sample_pod sample_running_db = Inr (db', row, keys, evs)
    \<and> db_inv db' \<and> keys = [(sample_pod, ''n1'', 5)]"
proof -
  have "case Delete sample_env ''acme'' sample_pod sample_running_db of Inl _ \<Rightarrow> False
    | Inr (_, _, keys, _) \<Rightarrow> keys = [(sample_pod, ''n1'', 5)]" by code_simp
  then obtain db' row keys evs where d: "Delete sample_env ''acme'' sample_pod sample_running_db = Inr (db', row, keys, evs)"
    "keys = [(sample_pod, ''n1'', 5)]" by (auto split: sum.splits prod.splits)
  then show ?thesis using delete_tombstones_pods [OF sample_inv(2) d(1)] by blast
qed

text \<open>The tombstone of the sample pod, due, on a node that holds the pod.\<close>

definition sample_tombstone_db :: registry where
  "sample_tombstone_db = sample_db\<lparr>db_tombstones := [((sample_pod, ''n1'', 5), \<lparr>ts_reason = ''deleted'', ts_created_at = second,
    ts_not_before = second, ts_attempts = 0, ts_last_error = [], ts_last_attempt_at = 0\<rparr>)]\<rparr>"

definition sample_meets :: tomb_meets where
  "sample_meets = \<lparr>tb_now = 2 * second, tb_db = sample_tombstone_db, tb_connected = True,
    tb_get = Inr (sample_observation POD_STATE_RUNNING), tb_mem = 512, tb_delete = (\<lambda>_. None), tb_later = 3 * second,
    tb_last = sample_tombstone_db\<rparr>"

theorem tombstone_spares_others_witness:
  "\<exists>db' ev. runTombstone sample_engine (sample_pod, ''n1'', 5) sample_meets = (TombDropped db' ev, True) \<and> db_tombstones db' = []
    \<and> (\<exists>p. podIncarnation sample_engine p \<in> {5, uuid_nil})"
proof -
  have "case runTombstone sample_engine (sample_pod, ''n1'', 5) sample_meets of (TombDropped db' _, called) \<Rightarrow> called \<and> db_tombstones db' = []
    | _ \<Rightarrow> False" by code_simp
  then obtain db' ev where r: "runTombstone sample_engine (sample_pod, ''n1'', 5) sample_meets = (TombDropped db' ev, True)" "db_tombstones db' = []"
    by (cases "fst (runTombstone sample_engine (sample_pod, ''n1'', 5) sample_meets)") (auto split: prod.splits)
  then show ?thesis using tombstone_spares_others [OF r(1)] by blast
qed

theorem tenant_deletion_ends_witness:
  "\<exists>existed er db'. DeleteTenant (\<lambda>_. []) (\<lambda>_. sample_env) (\<lambda>_ db. db) ''acme'' sample_running_db = Some (existed, er, db') \<and> existed"
proof -
  have "others_keep ''acme'' (\<lambda>db. db)" by (simp add: others_keep_def)
  moreover have "tx_now sample_env \<noteq> 0" "get_row (db_tenants sample_running_db) ''acme'' \<noteq> None" by code_simp+
  ultimately show ?thesis using tenant_deletion_ends [OF sample_inv(2), of "''acme''" "\<lambda>_ db. db" "\<lambda>_. sample_env" "\<lambda>_. []"] by blast
qed

end
