(* ===== verification/Spec2Isabelle.thy ===== *)
theory Spec2Isabelle
  imports Leader Holds Tombstones
begin

text \<open>
  FeOS: the sandbox engine of the FeRun control plane \<open>ferund\<close> (\<open>src/go/internal\<close>).

  \<^bold>\<open>The program.\<close> Any number of instances of \<open>ferund\<close> share one PostgreSQL database and drive pods on nodes. A
  sandbox is a row of that database and at most one pod. The engine (\<open>sandbox\<close>) moves the sandbox through its
  lifecycle by ops (create, start, resume, restore, pause, hibernate, repair). An op has a begin, one transaction that
  claims the row and books the node, a call of the node, and a finish, one transaction that writes what the node
  answered; a rollback takes the finish's place when nothing was sent. A sync or a reconcile writes what a node says of a
  row without an op. Pods that may be left on a node have a tombstone there until they are gone. One instance, the
  leader, holds a lease and runs the policies; its transactions are fenced by the lease's epoch.

  \<^bold>\<open>How the code is modelled.\<close> The database is the record \<^typ>\<open>registry\<close>, one association list per table, and a
  transaction (\<open>InTx\<close>) is one function from it to an error or the registry it commits; the retry of a transaction that
  fails to serialise is the same function on a later registry. The clock, the uuids drawn and the rows locked by others
  are arguments (\<^typ>\<open>txenv\<close>), the instance's configuration, connections and the answers of what is not under \<open>src\<close> are
  fields of \<^typ>\<open>engine\<close> or arguments. Errors are the values of \<^typ>\<open>err\<close> with the code's texts. Times are
  nanoseconds of type \<^typ>\<open>int\<close>, a uuid a word of 128 bits.

  \<^bold>\<open>The theories.\<close>
  \<^item> \<open>Prelude\<close>: sequencing of fallible steps, sorting by a comparison, tables and their laws (locale \<open>table\<close>), and
    reachability under an invariant (locale \<open>invariant_system\<close>).
  \<^item> \<open>PodId\<close> (\<open>podid/podid.go\<close>): IDs of pods. Minting gives valid IDs, uniformly; parsing gives the canonical form;
    the TAP devices' names collide exactly when \<open>TAPConflict\<close> says.
  \<^item> \<open>Rows\<close>, \<open>Store\<close>, \<open>Store_Books\<close> (\<open>model/model.go\<close>, \<open>store/*.go\<close>): rows, the guarded update of a sandbox with
    its generation, and the statements on bookings, tombstones, holds, instances and sweeps.
  \<^item> \<open>Engine\<close> (\<open>sandbox/engine.go\<close>): configuration, timings, deadlines and the policies' backoff.
  \<^item> \<open>Placement\<close> (\<open>sandbox/placement.go\<close>): gates, scores, the candidates of a snapshot and the claim under the
    node's lock. Candidates are exactly the nodes that pass, in the order of the policy, and the claim means what its
    gates say.
  \<^item> \<open>Change\<close>, \<open>Invariant\<close> (\<open>sandbox/change.go\<close>, \<open>pod.go\<close>): what a transaction writes of one row, and the invariant
    \<^term>\<open>db_inv\<close> of the registry: keys are unique, a row's op columns agree with its state, bookings belong to
    rows and the gated bookings of a node fit its capacity.
  \<^item> \<open>Begin\<close>, \<open>Finish\<close> (\<open>sandbox/begin.go\<close>, \<open>finish.go\<close>): an op from its intent to its outcome. A begin keeps the
    invariant and never begins beside an op; a finish ends its own op or, fenced out, writes nothing of its outcome; a
    rollback restores what the begin found.
  \<^item> \<open>Sync\<close> (\<open>sandbox/sync.go\<close>, \<open>reconcile.go\<close>): the answers of a node written to rows without an op; applying one
    twice is applying it once.
  \<^item> \<open>Leader\<close> (\<open>leader/*.go\<close>, \<open>store/leases.go\<close>): the lease and the electors of all instances as a step relation
    with delayed requests and answers, each instance on its own clock. At most one instance leads, the electors
    implement a lock, fenced transactions are ordered by epoch, and a lost leader can be replaced.
  \<^item> \<open>Tenants\<close> (\<open>store/tenants.go\<close>, \<open>quotas.go\<close>, \<open>quota/quota.go\<close>): tenants and the quota check of a create, which
    never passes a limit.
  \<^item> \<open>Activity\<close> (\<open>activity/activity.go\<close>): the texts of an activity row and the recorder's flush, which ends and loses
    no row but the refused ones.

  \<^bold>\<open>Bounds.\<close> Integers of Go are \<^typ>\<open>int\<close>; the widths that matter are written out: the checkpoint's epoch is capped to
  63 bits, the lease's interval is rounded to microseconds. Loops are structural or have a termination proof; the loop that may not end, that of \<open>Mint\<close>, has fuel, and
  enough of it gives a result once a draw is accepted.

  \<^bold>\<open>Not modelled.\<close> The goroutines, channels and contexts that schedule the operations (their interleavings are
  sequences of transactions here); the JSON of the activity details and the texts of the log; the statements of the
  store that the engine does not use (environments, bindings, domains, ingress, people and tokens), which belong to other
  services; the nodes' side (\<open>src/crates\<close>), whose answers are arguments; the front doors, the ingress, the log store and
  the user interface, which are I/O around libraries. The capacity of a node, which its reports set, is taken as fixed
  by the invariant.
\<close>

end
